theory Spec2Isabelle
  imports Complex_Main
begin

section \<open>Values read from the files\<close>

text \<open>
  The columns \<open>confidence\<close> and \<open>timestamp\<close> are read as \<open>np.float32\<close>. The checks only
  ask two things of such a value: whether it is finite (\<open>np.isfinite\<close>) and whether it is
  below zero (\<open>timestamps < 0.\<close>). A value is therefore a finite number, one of the two
  infinities, or NaN. Negative zero is \<open>Finite 0\<close>: it is finite and not below zero.
\<close>

datatype float32 = Finite real | PosInf | NegInf | NaN

fun isfinite :: "float32 \<Rightarrow> bool" where
  "isfinite (Finite r) = True"
| "isfinite PosInf = False"
| "isfinite NegInf = False"
| "isfinite NaN = False"

text \<open>\<open>x < 0.\<close> as numpy computes it: every comparison with NaN is false.\<close>

fun lt_zero :: "float32 \<Rightarrow> bool" where
  "lt_zero (Finite r) = (r < 0)"
| "lt_zero PosInf = False"
| "lt_zero NegInf = True"
| "lt_zero NaN = False"

text \<open>
  The columns read with \<open>dtype=str\<close> hold strings, with one exception:
  \<open>pd.read_table\<close> is called with its default treatment of missing values, so the
  tokens \<open>null\<close>, \<open>nan\<close>, \<open>NaN\<close>, \<open>NA\<close>, \<open>NULL\<close>, \<open>N/A\<close>, \<open>n/a\<close> and a few more
  are read as the float NaN, whatever the \<open>dtype\<close>. The class looks into a cell in one
  place only: \<open>set(person_name)\<close> in \<open>__submission_person_names\<close> iterates over the
  characters of a person name, and raises \<open>TypeError\<close> on a float. So a cell of a
  person-name column is a string or \<open>NA\<close> (that NaN). Everywhere else a cell is only
  hashed, compared and formatted into a message, where NaN is one more value; the other
  columns keep plain strings.
\<close>

datatype cell = Str string | NA

text \<open>
  One row of each table, with the column names of \<open>_load_submission\<close> and
  \<open>_load_evidence\<close> (prefixed, since both tables have a \<open>person_name\<close>, a \<open>corpus_id\<close>
  and a \<open>video_id\<close>). A data frame is the list of its rows in file order; the row at
  position \<open>i\<close> (from 0) is reported as line \<open>i + 1\<close>.
\<close>

datatype submission_row = SubmissionRow
  (s_corpus_id: string) (s_video_id: string) (s_shot_id: string)
  (s_person_name: cell) (confidence: float32)

datatype evidence_row = EvidenceRow
  (e_person_name: cell) (e_corpus_id: string) (e_video_id: string)
  (modality: string) (timestamp: float32)

type_synonym shot = "string \<times> string \<times> string"
type_synonym video = "string \<times> string"

text \<open>Rows of the two reference lists: a shot with its start and end time, and a video.\<close>

type_synonym shot_row = "string \<times> string \<times> string \<times> float32 \<times> float32"
type_synonym video_row = "string \<times> string"

section \<open>Errors\<close>

text \<open>
  Every \<open>raise ValueError(MESSAGE.format(...))\<close> of the source is one constructor, carrying
  the values formatted into the message. \<open>ParserError\<close> stands for whatever
  \<open>pd.read_table\<close> raises, \<open>AttributeError\<close> for reading an attribute that \<open>__init__\<close>
  did not set, \<open>KeyError\<close> for \<open>pop\<close> on an empty set, \<open>TypeError\<close> for iterating over a
  float.
\<close>

datatype error =
    InvalidPersonName string
  | InvalidShot string string string
  | IncorrectConfidence nat
  | InvalidVideo string string
  | DuplicatePersonName cell
  | ExtraPersonName cell
  | MissingPersonName cell
  | IncorrectModality string
  | IncorrectTimestamp nat
  | NegativeTimestamp nat
  | ParserError string
  | AttributeError string
  | KeyError string
  | TypeError string

section \<open>pandas, numpy and Python sets\<close>

text \<open>\<open>Series.unique()\<close>: the distinct values, in order of first appearance.\<close>

fun unique_from :: "'a list \<Rightarrow> 'a list \<Rightarrow> 'a list" where
  "unique_from seen [] = []"
| "unique_from seen (x # xs) =
     (if x \<in> set seen then unique_from seen xs else x # unique_from (x # seen) xs)"

definition unique :: "'a list \<Rightarrow> 'a list" where
  "unique xs = unique_from [] xs"

text \<open>
  \<open>DataFrame.duplicated(column)\<close>: for each row, whether its value already occurred in an
  earlier row (the default \<open>keep='first'\<close>).
\<close>

fun duplicated_from :: "'a list \<Rightarrow> 'a list \<Rightarrow> bool list" where
  "duplicated_from seen [] = []"
| "duplicated_from seen (x # xs) = (x \<in> set seen) # duplicated_from (x # seen) xs"

definition duplicated :: "'a list \<Rightarrow> bool list" where
  "duplicated xs = duplicated_from [] xs"

text \<open>\<open>frame[mask]\<close>: the rows at which the boolean mask is true.\<close>

definition select :: "'a list \<Rightarrow> bool list \<Rightarrow> 'a list" where
  "select rows bs = map fst (filter snd (zip rows bs))"

text \<open>\<open>np.where(mask)[0]\<close>: the positions at which the mask is true, ascending.\<close>

definition np_where :: "bool list \<Rightarrow> nat list" where
  "np_where bs = filter (\<lambda>i. bs ! i) [0..<length bs]"

text \<open>The builtin \<open>any\<close>.\<close>

definition any :: "bool list \<Rightarrow> bool" where
  "any bs = list_ex (\<lambda>b. b) bs"

text \<open>
  A Python set is modelled by the list of its elements in iteration order. That order is
  decided by the hash table and is not fixed by the language, so it is a parameter of the
  model: a \<open>layout\<close> takes the elements in insertion order and returns them in iteration
  order. \<open>layout_ok\<close> is all that is assumed of it: it neither loses nor invents elements.
\<close>

type_synonym 'a layout = "'a list \<Rightarrow> 'a list"

definition layout_ok :: "'a layout \<Rightarrow> bool" where
  "layout_ok lay = (\<forall>xs. set (lay xs) = set xs)"

text \<open>\<open>set(iterable)\<close>.\<close>

definition py_set :: "'a layout \<Rightarrow> 'a list \<Rightarrow> 'a list" where
  "py_set lay xs = lay (unique xs)"

text \<open>\<open>a - b\<close> on sets: a new set, filled while iterating over \<open>a\<close>.\<close>

definition minus_set :: "'a layout \<Rightarrow> 'a list \<Rightarrow> 'a list \<Rightarrow> 'a list" where
  "minus_set lay a b = lay (filter (\<lambda>x. x \<notin> set b) a)"

text \<open>\<open>a.issubset(b)\<close>.\<close>

definition issubset :: "'a list \<Rightarrow> 'a list \<Rightarrow> bool" where
  "issubset a b = list_all (\<lambda>x. x \<in> set b) a"

text \<open>
  \<open>s.pop()\<close> returns the first element in iteration order and raises \<open>KeyError\<close> on the
  empty set. The set it is applied to is never used again in the source, so the model
  returns the element only.
\<close>

definition pop :: "'a list \<Rightarrow> error + 'a" where
  "pop s = (case s of [] \<Rightarrow> Inl (KeyError ''pop from an empty set'') | x # _ \<Rightarrow> Inr x)"

text \<open>Truth value of an optional path (\<open>if self.shots:\<close>): \<open>None\<close> and \<open>''\<close> are false.\<close>

fun truthy :: "string option \<Rightarrow> bool" where
  "truthy None = False"
| "truthy (Some p) = (p \<noteq> [])"

section \<open>The environment of the class\<close>

text \<open>
  What the class takes from outside: \<open>pd.read_table\<close> with the schema of each of the four
  files, which returns the rows or raises, and the iteration order of the sets of
  modalities, of shots, of videos and of person names.
\<close>

record env =
  read_shots :: "string \<Rightarrow> error + shot_row list"
  read_videos :: "string \<Rightarrow> error + video_row list"
  read_submission :: "string \<Rightarrow> error + submission_row list"
  read_evidence :: "string \<Rightarrow> error + evidence_row list"
  str_layout :: "string layout"
  shot_layout :: "shot layout"
  video_layout :: "video layout"
  name_layout :: "cell layout"

section \<open>The class Validation\<close>

text \<open>
  The attributes of an instance. \<open>shots\<close> and \<open>videos\<close> are the optional paths given to
  the constructor; \<open>shots_set\<close> and \<open>videos_set\<close> are the attributes \<open>shots_\<close> and
  \<open>videos_\<close> of the source, \<open>None\<close> while the attribute is not set.
\<close>

record validation =
  shots :: "string option"
  shots_set :: "shot list option"
  videos :: "string option"
  videos_set :: "video list option"

definition load_shots :: "env \<Rightarrow> string \<Rightarrow> error + shot list" where
  "load_shots E path =
     (case read_shots E path of
        Inl e \<Rightarrow> Inl e
      | Inr rows \<Rightarrow> Inr (py_set (shot_layout E) (map (\<lambda>(c, v, s, _, _). (c, v, s)) rows)))"

definition load_videos :: "env \<Rightarrow> string \<Rightarrow> error + video list" where
  "load_videos E path =
     (case read_videos E path of
        Inl e \<Rightarrow> Inl e
      | Inr rows \<Rightarrow> Inr (py_set (video_layout E) (map (\<lambda>(c, v). (c, v)) rows)))"

definition load_submission :: "env \<Rightarrow> string \<Rightarrow> error + submission_row list" where
  "load_submission E fp = (case read_submission E fp of Inl e \<Rightarrow> Inl e | Inr submission \<Rightarrow> Inr submission)"

definition load_evidence :: "env \<Rightarrow> string \<Rightarrow> error + evidence_row list" where
  "load_evidence E fp = (case read_evidence E fp of Inl e \<Rightarrow> Inl e | Inr evidence \<Rightarrow> Inr evidence)"

text \<open>\<open>if path: attribute = load(path)\<close>, as \<open>__init__\<close> does it for both lists.\<close>

fun load_if :: "(string \<Rightarrow> error + 'a) \<Rightarrow> string option \<Rightarrow> error + 'a option" where
  "load_if load None = Inr None"
| "load_if load (Some path) =
     (if path \<noteq> [] then (case load path of Inl e \<Rightarrow> Inl e | Inr x \<Rightarrow> Inr (Some x))
      else Inr None)"

definition init :: "env \<Rightarrow> string option \<Rightarrow> string option \<Rightarrow> error + validation" where
  "init E shots_path videos_path =
     (case load_if (load_shots E) shots_path of
        Inl e \<Rightarrow> Inl e
      | Inr ss \<Rightarrow>
         (case load_if (load_videos E) videos_path of
            Inl e \<Rightarrow> Inl e
          | Inr vs \<Rightarrow> Inr \<lparr>shots = shots_path, shots_set = ss,
                            videos = videos_path, videos_set = vs\<rparr>))"

definition ascii_lowercase :: string where
  "ascii_lowercase = ''abcdefghijklmnopqrstuvwxyz''"

definition ALLOWED_CHARACTERS :: "char list" where
  "ALLOWED_CHARACTERS = ascii_lowercase @ ''_''"

text \<open>
  The loop of \<open>__submission_person_names\<close> over the set of names. On a NaN cell,
  \<open>set(person_name)\<close> raises \<open>TypeError\<close> (the message is abridged).
\<close>

fun for_person_name :: "cell list \<Rightarrow> error + bool" where
  "for_person_name [] = Inr True"
| "for_person_name (NA # rest) = Inl (TypeError ''float object is not iterable'')"
| "for_person_name (Str person_name # rest) =
     (if \<not> issubset person_name ALLOWED_CHARACTERS then Inl (InvalidPersonName person_name)
      else for_person_name rest)"

definition submission_person_names :: "env \<Rightarrow> submission_row list \<Rightarrow> error + bool" where
  "submission_person_names E submission =
     (let person_names = py_set (name_layout E) (unique (map s_person_name submission))
      in for_person_name person_names)"

definition submission_shots :: "env \<Rightarrow> validation \<Rightarrow> submission_row list \<Rightarrow> error + bool" where
  "submission_shots E self submission =
     (let shots = py_set (shot_layout E)
                    (map (\<lambda>r. (s_corpus_id r, s_video_id r, s_shot_id r)) submission)
      in case shots_set self of
           None \<Rightarrow> Inl (AttributeError ''shots_'')
         | Some reference \<Rightarrow>
            (let invalid_shots = minus_set (shot_layout E) shots reference
             in if invalid_shots \<noteq> [] then
                  (case pop invalid_shots of
                     Inl e \<Rightarrow> Inl e
                   | Inr (c, v, s) \<Rightarrow> Inl (InvalidShot c v s))
                else Inr True))"

definition submission_confidence :: "submission_row list \<Rightarrow> error + bool" where
  "submission_confidence submission =
     (let confidences = map confidence submission;
          not_finite = np_where (map (\<lambda>x. \<not> isfinite x) confidences)
      in if length not_finite \<noteq> 0 then Inl (IncorrectConfidence (hd not_finite + 1))
         else Inr True)"

definition evidence_videos :: "env \<Rightarrow> validation \<Rightarrow> evidence_row list \<Rightarrow> error + bool" where
  "evidence_videos E self evidence =
     (let videos = py_set (video_layout E) (map (\<lambda>r. (e_corpus_id r, e_video_id r)) evidence)
      in case videos_set self of
           None \<Rightarrow> Inl (AttributeError ''videos_'')
         | Some reference \<Rightarrow>
            (let invalid_videos = minus_set (video_layout E) videos reference
             in if invalid_videos \<noteq> [] then
                  (case pop invalid_videos of
                     Inl e \<Rightarrow> Inl e
                   | Inr (c, v) \<Rightarrow> Inl (InvalidVideo c v))
                else Inr True))"

definition evidence_person_names ::
  "env \<Rightarrow> submission_row list \<Rightarrow> evidence_row list \<Rightarrow> error + bool" where
  "evidence_person_names E submission evidence =
     (let dup = duplicated (map e_person_name evidence)
      in if any dup then
           (case pop (py_set (name_layout E) (map e_person_name (select evidence dup))) of
              Inl e \<Rightarrow> Inl e
            | Inr person_name \<Rightarrow> Inl (DuplicatePersonName person_name))
         else
           (let submission_person_names =
                  py_set (name_layout E) (unique (map s_person_name submission));
                evidence_person_names =
                  py_set (name_layout E) (unique (map e_person_name evidence));
                extra = minus_set (name_layout E) evidence_person_names submission_person_names
            in if extra \<noteq> [] then
                 (case pop extra of
                    Inl e \<Rightarrow> Inl e
                  | Inr person_name \<Rightarrow> Inl (ExtraPersonName person_name))
               else
                 (let missing =
                        minus_set (name_layout E) submission_person_names evidence_person_names
                  in if missing \<noteq> [] then
                       (case pop missing of
                          Inl e \<Rightarrow> Inl e
                        | Inr person_name \<Rightarrow> Inl (MissingPersonName person_name))
                     else Inr True)))"

text \<open>\<open>__evidence_modalities\<close> has no \<open>return True\<close>: it returns \<open>None\<close>.\<close>

definition evidence_modalities :: "env \<Rightarrow> evidence_row list \<Rightarrow> error + unit" where
  "evidence_modalities E evidence =
     (let modalities = py_set (str_layout E) (unique (map modality evidence))
      in if \<not> issubset modalities [''written'', ''pronounced''] then
           (case pop (minus_set (str_layout E) modalities [''written'', ''pronounced'']) of
              Inl e \<Rightarrow> Inl e
            | Inr m \<Rightarrow> Inl (IncorrectModality m))
         else Inr ())"

definition evidence_timestamps :: "evidence_row list \<Rightarrow> error + bool" where
  "evidence_timestamps evidence =
     (let timestamps = map timestamp evidence;
          not_finite = np_where (map (\<lambda>x. \<not> isfinite x) timestamps)
      in if length not_finite \<noteq> 0 then Inl (IncorrectTimestamp (hd not_finite + 1))
         else
           (let negative = np_where (map lt_zero timestamps)
            in if length negative \<noteq> 0 then Inl (NegativeTimestamp (hd negative + 1))
               else Inr True))"

text \<open>The part of \<open>__call__\<close> under \<open>if fp_evidence:\<close>.\<close>

definition call_evidence ::
  "env \<Rightarrow> validation \<Rightarrow> submission_row list \<Rightarrow> string \<Rightarrow> error + bool" where
  "call_evidence E self submission fp_evidence =
     (case load_evidence E fp_evidence of
        Inl e \<Rightarrow> Inl e
      | Inr evidence \<Rightarrow>
         (case (if truthy (videos self) then evidence_videos E self evidence else Inr True) of
            Inl e \<Rightarrow> Inl e
          | Inr _ \<Rightarrow>
             (case evidence_timestamps evidence of
                Inl e \<Rightarrow> Inl e
              | Inr _ \<Rightarrow>
                 (case evidence_person_names E submission evidence of
                    Inl e \<Rightarrow> Inl e
                  | Inr _ \<Rightarrow>
                     (case evidence_modalities E evidence of
                        Inl e \<Rightarrow> Inl e
                      | Inr _ \<Rightarrow> Inr True)))))"

definition call :: "env \<Rightarrow> validation \<Rightarrow> string \<Rightarrow> string option \<Rightarrow> error + bool" where
  "call E self fp_submission fp_evidence =
     (case load_submission E fp_submission of
        Inl e \<Rightarrow> Inl e
      | Inr submission \<Rightarrow>
         (case submission_person_names E submission of
            Inl e \<Rightarrow> Inl e
          | Inr _ \<Rightarrow>
             (case (if truthy (shots self) then submission_shots E self submission
                    else Inr True) of
                Inl e \<Rightarrow> Inl e
              | Inr _ \<Rightarrow>
                 (case submission_confidence submission of
                    Inl e \<Rightarrow> Inl e
                  | Inr _ \<Rightarrow>
                     (case fp_evidence of
                        None \<Rightarrow> Inr True
                      | Some fp \<Rightarrow>
                         (if fp \<noteq> [] then call_evidence E self submission fp
                          else Inr True))))))"

section \<open>The order of the checks, as the specification words it\<close>

text \<open>
  A check either raises an error or passes; \<open>raised\<close> keeps the error only. A validation
  is the list of its applicable steps in their fixed order, and its outcome is the error
  of the first step that raised, or True when no step raised.
\<close>

definition raised :: "error + 'a \<Rightarrow> error option" where
  "raised r = (case r of Inl e \<Rightarrow> Some e | Inr _ \<Rightarrow> None)"

fun first_raised :: "error option list \<Rightarrow> error option" where
  "first_raised [] = None"
| "first_raised (None # steps) = first_raised steps"
| "first_raised (Some e # steps) = Some e"

definition outcome :: "error option list \<Rightarrow> error + bool" where
  "outcome steps = (case first_raised steps of None \<Rightarrow> Inr True | Some e \<Rightarrow> Inl e)"

text \<open>
  The submission checks: person-name alphabet, shot membership if a shot list was given,
  confidence finiteness.
\<close>

definition submission_checks ::
  "env \<Rightarrow> validation \<Rightarrow> submission_row list \<Rightarrow> error option list" where
  "submission_checks E self submission =
     [raised (submission_person_names E submission)] @
     (if truthy (shots self) then [raised (submission_shots E self submission)] else []) @
     [raised (submission_confidence submission)]"

text \<open>
  The evidence checks: video membership if a video list was given, timestamps, cross-check
  of the person names, modality.
\<close>

definition evidence_checks ::
  "env \<Rightarrow> validation \<Rightarrow> submission_row list \<Rightarrow> evidence_row list \<Rightarrow> error option list" where
  "evidence_checks E self submission evidence =
     (if truthy (videos self) then [raised (evidence_videos E self evidence)] else []) @
     [raised (evidence_timestamps evidence),
      raised (evidence_person_names E submission evidence),
      raised (evidence_modalities E evidence)]"

section \<open>Concrete inputs\<close>

text \<open>Sets that iterate in insertion order: one layout the language allows.\<close>

definition insertion_order :: "'a layout" where
  "insertion_order xs = xs"

text \<open>
  Submissions: two valid names on the shot (C1, V1, S1); the same names and confidences
  with the shot (C1, V1, S2) on the second row; an invalid name; an empty name; a NaN
  confidence on the third row and an infinite one on the fourth; the name \<open>null\<close>, which
  \<open>pd.read_table\<close> reads as NaN, alone and before an invalid name.
\<close>

definition alice_bob :: "submission_row list" where
  "alice_bob =
     [SubmissionRow ''C1'' ''V1'' ''S1'' (Str ''alice'') (Finite 1),
      SubmissionRow ''C1'' ''V1'' ''S1'' (Str ''bob'') (Finite 0)]"

definition unknown_shot :: "submission_row list" where
  "unknown_shot =
     [SubmissionRow ''C1'' ''V1'' ''S1'' (Str ''alice'') (Finite 1),
      SubmissionRow ''C1'' ''V1'' ''S2'' (Str ''bob'') (Finite 0)]"

definition jean_paul :: "submission_row list" where
  "jean_paul =
     [SubmissionRow ''C1'' ''V1'' ''S1'' (Str ''alice'') (Finite 1),
      SubmissionRow ''C1'' ''V1'' ''S2'' (Str ''Jean-Paul'') (Finite 0)]"

definition empty_name :: "submission_row list" where
  "empty_name =
     [SubmissionRow ''C1'' ''V1'' ''S1'' (Str '''') (Finite 1),
      SubmissionRow ''C1'' ''V1'' ''S2'' (Str ''bob'') (Finite 0)]"

definition null_name :: "submission_row list" where
  "null_name = [SubmissionRow ''C1'' ''V1'' ''S1'' NA (Finite 1)]"

definition null_jean_paul :: "submission_row list" where
  "null_jean_paul =
     [SubmissionRow ''C1'' ''V1'' ''S1'' NA (Finite 1),
      SubmissionRow ''C1'' ''V1'' ''S2'' (Str ''Jean-Paul'') (Finite 0)]"

definition nan_at_line_3 :: "submission_row list" where
  "nan_at_line_3 =
     [SubmissionRow ''C1'' ''V1'' ''S1'' (Str ''alice'') (Finite 1),
      SubmissionRow ''C1'' ''V1'' ''S2'' (Str ''bob'') (Finite 0),
      SubmissionRow ''C1'' ''V1'' ''S3'' (Str ''alice'') NaN,
      SubmissionRow ''C1'' ''V1'' ''S4'' (Str ''bob'') PosInf]"

text \<open>
  Evidence: for alice and bob from the video (C1, V1); the same from the video (C9, V9); with
  a negative timestamp for bob; with a zero timestamp on line 1, a negative one on line 2
  and NaN on line 3; with the modality spoken; for alice only; for alice, bob and carol;
  with two rows for alice.
\<close>

definition alice_bob_evidence :: "evidence_row list" where
  "alice_bob_evidence =
     [EvidenceRow (Str ''alice'') ''C1'' ''V1'' ''written'' (Finite 0),
      EvidenceRow (Str ''bob'') ''C1'' ''V1'' ''pronounced'' (Finite 3)]"

definition other_video :: "evidence_row list" where
  "other_video =
     [EvidenceRow (Str ''alice'') ''C9'' ''V9'' ''written'' (Finite 0),
      EvidenceRow (Str ''bob'') ''C9'' ''V9'' ''pronounced'' (Finite 3)]"

definition negative_evidence :: "evidence_row list" where
  "negative_evidence =
     [EvidenceRow (Str ''alice'') ''C1'' ''V1'' ''written'' (Finite 0),
      EvidenceRow (Str ''bob'') ''C1'' ''V1'' ''pronounced'' (Finite (- 1))]"

definition negative_then_nan :: "evidence_row list" where
  "negative_then_nan =
     [EvidenceRow (Str ''alice'') ''C1'' ''V1'' ''written'' (Finite 0),
      EvidenceRow (Str ''bob'') ''C1'' ''V1'' ''pronounced'' (Finite (- 1)),
      EvidenceRow (Str ''carol'') ''C1'' ''V1'' ''written'' NaN]"

definition spoken_evidence :: "evidence_row list" where
  "spoken_evidence =
     [EvidenceRow (Str ''alice'') ''C1'' ''V1'' ''written'' (Finite 0),
      EvidenceRow (Str ''bob'') ''C1'' ''V1'' ''spoken'' (Finite 3)]"

definition alice_only :: "evidence_row list" where
  "alice_only = [EvidenceRow (Str ''alice'') ''C1'' ''V1'' ''written'' (Finite 0)]"

definition alice_bob_carol :: "evidence_row list" where
  "alice_bob_carol =
     [EvidenceRow (Str ''alice'') ''C1'' ''V1'' ''written'' (Finite 0),
      EvidenceRow (Str ''bob'') ''C1'' ''V1'' ''pronounced'' (Finite 3),
      EvidenceRow (Str ''carol'') ''C1'' ''V1'' ''written'' (Finite 4)]"

definition alice_twice :: "evidence_row list" where
  "alice_twice =
     [EvidenceRow (Str ''alice'') ''C1'' ''V1'' ''written'' (Finite 0),
      EvidenceRow (Str ''bob'') ''C1'' ''V1'' ''pronounced'' (Finite 3),
      EvidenceRow (Str ''alice'') ''C1'' ''V2'' ''pronounced'' (Finite 4)]"

text \<open>
  An environment with a few files: a list with the one shot (C1, V1, S1), a list with the
  one video (C1, V1), and some of the submissions and evidence above. Any other path does
  not parse.
\<close>

definition files :: env where
  "files =
     \<lparr>read_shots = (\<lambda>path. if path = ''shots.lst''
                       then Inr [(''C1'', ''V1'', ''S1'', Finite 0, Finite 10)]
                       else Inl (ParserError path)),
      read_videos = (\<lambda>path. if path = ''videos.lst'' then Inr [(''C1'', ''V1'')]
                       else Inl (ParserError path)),
      read_submission = (\<lambda>path. if path = ''alice_bob.sub'' then Inr alice_bob
                       else if path = ''unknown_shot.sub'' then Inr unknown_shot
                       else if path = ''jean_paul.sub'' then Inr jean_paul
                       else if path = ''nan.sub'' then Inr nan_at_line_3
                       else if path = ''null.sub'' then Inr null_name
                       else if path = ''null_jean_paul.sub'' then Inr null_jean_paul
                       else Inl (ParserError path)),
      read_evidence = (\<lambda>path. if path = ''alice_bob.ev'' then Inr alice_bob_evidence
                       else if path = ''other_video.ev'' then Inr other_video
                       else if path = ''negative.ev'' then Inr negative_evidence
                       else Inl (ParserError path)),
      str_layout = insertion_order,
      shot_layout = insertion_order,
      video_layout = insertion_order,
      name_layout = insertion_order\<rparr>"

text \<open>
  The instances that \<open>Validation()\<close>, \<open>Validation(shots='shots.lst')\<close> and
  \<open>Validation(videos='videos.lst')\<close> build in this environment.
\<close>

definition unrestricted :: validation where
  "unrestricted = \<lparr>shots = None, shots_set = None, videos = None, videos_set = None\<rparr>"

definition with_shots :: validation where
  "with_shots = \<lparr>shots = Some ''shots.lst'', shots_set = Some [(''C1'', ''V1'', ''S1'')],
                  videos = None, videos_set = None\<rparr>"

definition with_videos :: validation where
  "with_videos = \<lparr>shots = None, shots_set = None,
                   videos = Some ''videos.lst'', videos_set = Some [(''C1'', ''V1'')]\<rparr>"

section \<open>The set objects and their mutation\<close>

text \<open>
  The model above computes with the value of each set. The only operation of the class
  that changes an object is \<open>pop\<close>, and whether it can change a reference set depends on
  which object it is applied to. This second model of the same methods keeps every set
  object in a store: an address is a position in the store, \<open>set(...)\<close> and \<open>a - b\<close> put
  a new object at the next free position, and \<open>pop\<close> changes the object at the address
  it is given. The sets of characters of \<open>__submission_person_names\<close> and the set display
  \<open>{'written', 'pronounced'}\<close> are only read, and stay values.
\<close>

type_synonym 'a heap = "'a list list"

definition deref :: "'a heap \<Rightarrow> nat \<Rightarrow> 'a list" where
  "deref h a = (if a < length h then h ! a else [])"

definition alloc :: "'a list \<Rightarrow> 'a heap \<Rightarrow> nat \<times> 'a heap" where
  "alloc s h = (length h, h @ [s])"

definition set_new :: "'a layout \<Rightarrow> 'a list \<Rightarrow> 'a heap \<Rightarrow> nat \<times> 'a heap" where
  "set_new lay xs h = alloc (py_set lay xs) h"

definition set_sub :: "'a layout \<Rightarrow> nat \<Rightarrow> nat \<Rightarrow> 'a heap \<Rightarrow> nat \<times> 'a heap" where
  "set_sub lay a b h = alloc (minus_set lay (deref h a) (deref h b)) h"

definition set_pop :: "nat \<Rightarrow> 'a heap \<Rightarrow> (error + 'a) \<times> 'a heap" where
  "set_pop a h =
     (case deref h a of
        [] \<Rightarrow> (Inl (KeyError ''pop from an empty set''), h)
      | x # rest \<Rightarrow> (Inr x, h[a := rest]))"

definition set_truth :: "nat \<Rightarrow> 'a heap \<Rightarrow> bool" where
  "set_truth a h = (deref h a \<noteq> [])"

text \<open>The store: the sets of modalities, of person names, of shots and of videos.\<close>

record store =
  str_sets :: "string heap"
  name_sets :: "cell heap"
  shot_sets :: "shot heap"
  video_sets :: "video heap"

text \<open>An instance whose attributes \<open>shots_\<close> and \<open>videos_\<close> are addresses of set objects.\<close>

record validation_obj =
  o_shots :: "string option"
  o_shots_ref :: "nat option"
  o_videos :: "string option"
  o_videos_ref :: "nat option"

definition load_shots_st :: "env \<Rightarrow> string \<Rightarrow> store \<Rightarrow> (error + nat) \<times> store" where
  "load_shots_st E path \<sigma> =
     (case read_shots E path of
        Inl e \<Rightarrow> (Inl e, \<sigma>)
      | Inr rows \<Rightarrow>
         (let (shots, h) = set_new (shot_layout E) (map (\<lambda>(c, v, s, _, _). (c, v, s)) rows)
                             (shot_sets \<sigma>)
          in (Inr shots, \<sigma>\<lparr>shot_sets := h\<rparr>)))"

definition load_videos_st :: "env \<Rightarrow> string \<Rightarrow> store \<Rightarrow> (error + nat) \<times> store" where
  "load_videos_st E path \<sigma> =
     (case read_videos E path of
        Inl e \<Rightarrow> (Inl e, \<sigma>)
      | Inr rows \<Rightarrow>
         (let (videos, h) = set_new (video_layout E) (map (\<lambda>(c, v). (c, v)) rows)
                              (video_sets \<sigma>)
          in (Inr videos, \<sigma>\<lparr>video_sets := h\<rparr>)))"

fun load_if_st ::
  "(string \<Rightarrow> store \<Rightarrow> (error + nat) \<times> store) \<Rightarrow> string option \<Rightarrow> store \<Rightarrow>
   (error + nat option) \<times> store" where
  "load_if_st load None \<sigma> = (Inr None, \<sigma>)"
| "load_if_st load (Some path) \<sigma> =
     (if path \<noteq> [] then
        (case load path \<sigma> of (Inl e, \<sigma>') \<Rightarrow> (Inl e, \<sigma>') | (Inr a, \<sigma>') \<Rightarrow> (Inr (Some a), \<sigma>'))
      else (Inr None, \<sigma>))"

definition init_st ::
  "env \<Rightarrow> string option \<Rightarrow> string option \<Rightarrow> store \<Rightarrow> (error + validation_obj) \<times> store" where
  "init_st E shots_arg videos_arg \<sigma> =
     (case load_if_st (load_shots_st E) shots_arg \<sigma> of
        (Inl e, \<sigma>1) \<Rightarrow> (Inl e, \<sigma>1)
      | (Inr ss, \<sigma>1) \<Rightarrow>
         (case load_if_st (load_videos_st E) videos_arg \<sigma>1 of
            (Inl e, \<sigma>2) \<Rightarrow> (Inl e, \<sigma>2)
          | (Inr vs, \<sigma>2) \<Rightarrow>
             (Inr \<lparr>o_shots = shots_arg, o_shots_ref = ss,
                   o_videos = videos_arg, o_videos_ref = vs\<rparr>, \<sigma>2)))"

definition submission_person_names_st ::
  "env \<Rightarrow> submission_row list \<Rightarrow> cell heap \<Rightarrow> (error + bool) \<times> cell heap" where
  "submission_person_names_st E submission h =
     (let (person_names, h1) =
            set_new (name_layout E) (unique (map s_person_name submission)) h
      in (for_person_name (deref h1 person_names), h1))"

definition submission_shots_st ::
  "env \<Rightarrow> validation_obj \<Rightarrow> submission_row list \<Rightarrow> shot heap \<Rightarrow> (error + bool) \<times> shot heap" where
  "submission_shots_st E self submission h =
     (let (shots, h1) =
            set_new (shot_layout E)
              (map (\<lambda>r. (s_corpus_id r, s_video_id r, s_shot_id r)) submission) h
      in case o_shots_ref self of
           None \<Rightarrow> (Inl (AttributeError ''shots_''), h1)
         | Some reference \<Rightarrow>
            (let (invalid_shots, h2) = set_sub (shot_layout E) shots reference h1
             in if set_truth invalid_shots h2 then
                  (case set_pop invalid_shots h2 of
                     (Inl e, h3) \<Rightarrow> (Inl e, h3)
                   | (Inr (c, v, s), h3) \<Rightarrow> (Inl (InvalidShot c v s), h3))
                else (Inr True, h2)))"

definition evidence_videos_st ::
  "env \<Rightarrow> validation_obj \<Rightarrow> evidence_row list \<Rightarrow> video heap \<Rightarrow> (error + bool) \<times> video heap" where
  "evidence_videos_st E self evidence h =
     (let (videos, h1) =
            set_new (video_layout E) (map (\<lambda>r. (e_corpus_id r, e_video_id r)) evidence) h
      in case o_videos_ref self of
           None \<Rightarrow> (Inl (AttributeError ''videos_''), h1)
         | Some reference \<Rightarrow>
            (let (invalid_videos, h2) = set_sub (video_layout E) videos reference h1
             in if set_truth invalid_videos h2 then
                  (case set_pop invalid_videos h2 of
                     (Inl e, h3) \<Rightarrow> (Inl e, h3)
                   | (Inr (c, v), h3) \<Rightarrow> (Inl (InvalidVideo c v), h3))
                else (Inr True, h2)))"

definition evidence_person_names_st ::
  "env \<Rightarrow> submission_row list \<Rightarrow> evidence_row list \<Rightarrow> cell heap \<Rightarrow>
   (error + bool) \<times> cell heap" where
  "evidence_person_names_st E submission evidence h =
     (let dup = duplicated (map e_person_name evidence)
      in if any dup then
           (let (names, h1) =
                  set_new (name_layout E) (map e_person_name (select evidence dup)) h
            in case set_pop names h1 of
                 (Inl e, h2) \<Rightarrow> (Inl e, h2)
               | (Inr person_name, h2) \<Rightarrow> (Inl (DuplicatePersonName person_name), h2))
         else
           (let (submission_person_names, h1) =
                  set_new (name_layout E) (unique (map s_person_name submission)) h;
                (evidence_person_names, h2) =
                  set_new (name_layout E) (unique (map e_person_name evidence)) h1;
                (extra, h3) =
                  set_sub (name_layout E) evidence_person_names submission_person_names h2
            in if set_truth extra h3 then
                 (case set_pop extra h3 of
                    (Inl e, h4) \<Rightarrow> (Inl e, h4)
                  | (Inr person_name, h4) \<Rightarrow> (Inl (ExtraPersonName person_name), h4))
               else
                 (let (missing, h4) =
                        set_sub (name_layout E) submission_person_names evidence_person_names h3
                  in if set_truth missing h4 then
                       (case set_pop missing h4 of
                          (Inl e, h5) \<Rightarrow> (Inl e, h5)
                        | (Inr person_name, h5) \<Rightarrow> (Inl (MissingPersonName person_name), h5))
                     else (Inr True, h4))))"

definition evidence_modalities_st ::
  "env \<Rightarrow> evidence_row list \<Rightarrow> string heap \<Rightarrow> (error + unit) \<times> string heap" where
  "evidence_modalities_st E evidence h =
     (let (modalities, h1) = set_new (str_layout E) (unique (map modality evidence)) h
      in if \<not> issubset (deref h1 modalities) [''written'', ''pronounced''] then
           (let (other, h2) =
                  alloc (minus_set (str_layout E) (deref h1 modalities)
                           [''written'', ''pronounced'']) h1
            in case set_pop other h2 of
                 (Inl e, h3) \<Rightarrow> (Inl e, h3)
               | (Inr m, h3) \<Rightarrow> (Inl (IncorrectModality m), h3))
         else (Inr (), h1))"

text \<open>A method that works on the sets of one kind, run on the whole store.\<close>

definition on_str :: "(string heap \<Rightarrow> 'r \<times> string heap) \<Rightarrow> store \<Rightarrow> 'r \<times> store" where
  "on_str f \<sigma> = (let (r, h) = f (str_sets \<sigma>) in (r, \<sigma>\<lparr>str_sets := h\<rparr>))"

definition on_names :: "(cell heap \<Rightarrow> 'r \<times> cell heap) \<Rightarrow> store \<Rightarrow> 'r \<times> store" where
  "on_names f \<sigma> = (let (r, h) = f (name_sets \<sigma>) in (r, \<sigma>\<lparr>name_sets := h\<rparr>))"

definition on_shots :: "(shot heap \<Rightarrow> 'r \<times> shot heap) \<Rightarrow> store \<Rightarrow> 'r \<times> store" where
  "on_shots f \<sigma> = (let (r, h) = f (shot_sets \<sigma>) in (r, \<sigma>\<lparr>shot_sets := h\<rparr>))"

definition on_videos :: "(video heap \<Rightarrow> 'r \<times> video heap) \<Rightarrow> store \<Rightarrow> 'r \<times> store" where
  "on_videos f \<sigma> = (let (r, h) = f (video_sets \<sigma>) in (r, \<sigma>\<lparr>video_sets := h\<rparr>))"

definition call_evidence_st ::
  "env \<Rightarrow> validation_obj \<Rightarrow> submission_row list \<Rightarrow> string \<Rightarrow> store \<Rightarrow>
   (error + bool) \<times> store" where
  "call_evidence_st E self submission fp_evidence \<sigma> =
     (case load_evidence E fp_evidence of
        Inl e \<Rightarrow> (Inl e, \<sigma>)
      | Inr evidence \<Rightarrow>
         (case (if truthy (o_videos self) then on_videos (evidence_videos_st E self evidence) \<sigma>
                else (Inr True, \<sigma>)) of
            (Inl e, \<sigma>1) \<Rightarrow> (Inl e, \<sigma>1)
          | (Inr _, \<sigma>1) \<Rightarrow>
             (case evidence_timestamps evidence of
                Inl e \<Rightarrow> (Inl e, \<sigma>1)
              | Inr _ \<Rightarrow>
                 (case on_names (evidence_person_names_st E submission evidence) \<sigma>1 of
                    (Inl e, \<sigma>2) \<Rightarrow> (Inl e, \<sigma>2)
                  | (Inr _, \<sigma>2) \<Rightarrow>
                     (case on_str (evidence_modalities_st E evidence) \<sigma>2 of
                        (Inl e, \<sigma>3) \<Rightarrow> (Inl e, \<sigma>3)
                      | (Inr _, \<sigma>3) \<Rightarrow> (Inr True, \<sigma>3))))))"

definition call_st ::
  "env \<Rightarrow> validation_obj \<Rightarrow> string \<Rightarrow> string option \<Rightarrow> store \<Rightarrow> (error + bool) \<times> store" where
  "call_st E self fp_submission fp_evidence \<sigma> =
     (case load_submission E fp_submission of
        Inl e \<Rightarrow> (Inl e, \<sigma>)
      | Inr submission \<Rightarrow>
         (case on_names (submission_person_names_st E submission) \<sigma> of
            (Inl e, \<sigma>1) \<Rightarrow> (Inl e, \<sigma>1)
          | (Inr _, \<sigma>1) \<Rightarrow>
             (case (if truthy (o_shots self)
                    then on_shots (submission_shots_st E self submission) \<sigma>1
                    else (Inr True, \<sigma>1)) of
                (Inl e, \<sigma>2) \<Rightarrow> (Inl e, \<sigma>2)
              | (Inr _, \<sigma>2) \<Rightarrow>
                 (case submission_confidence submission of
                    Inl e \<Rightarrow> (Inl e, \<sigma>2)
                  | Inr _ \<Rightarrow>
                     (case fp_evidence of
                        None \<Rightarrow> (Inr True, \<sigma>2)
                      | Some fp \<Rightarrow>
                         (if fp \<noteq> [] then call_evidence_st E self submission fp \<sigma>2
                          else (Inr True, \<sigma>2)))))))"

text \<open>
  A sequence of validate calls on one instance, each with its two arguments; the store
  goes from one call to the next.
\<close>

fun calls_st ::
  "env \<Rightarrow> validation_obj \<Rightarrow> (string \<times> string option) list \<Rightarrow> store \<Rightarrow>
   (error + bool) list \<times> store" where
  "calls_st E self [] \<sigma> = ([], \<sigma>)"
| "calls_st E self ((fp_submission, fp_evidence) # rest) \<sigma> =
     (let (r, \<sigma>1) = call_st E self fp_submission fp_evidence \<sigma>;
          (rs, \<sigma>2) = calls_st E self rest \<sigma>1
      in (r # rs, \<sigma>2))"

text \<open>
  Every object of the first heap is in the second, at its address and with its elements.
\<close>

definition extends :: "'a heap \<Rightarrow> 'a heap \<Rightarrow> bool" where
  "extends h h' = (length h \<le> length h' \<and> take (length h) h' = h)"

definition store_extends :: "store \<Rightarrow> store \<Rightarrow> bool" where
  "store_extends \<sigma> \<sigma>' =
     (extends (str_sets \<sigma>) (str_sets \<sigma>') \<and>
      extends (name_sets \<sigma>) (name_sets \<sigma>') \<and>
      extends (shot_sets \<sigma>) (shot_sets \<sigma>') \<and>
      extends (video_sets \<sigma>) (video_sets \<sigma>'))"

text \<open>
  The instance of the first model that an instance with addresses stands for in a store,
  and the condition that its addresses are addresses of the store.
\<close>

definition as_value :: "validation_obj \<Rightarrow> store \<Rightarrow> validation" where
  "as_value self \<sigma> =
     \<lparr>shots = o_shots self,
      shots_set = map_option (deref (shot_sets \<sigma>)) (o_shots_ref self),
      videos = o_videos self,
      videos_set = map_option (deref (video_sets \<sigma>)) (o_videos_ref self)\<rparr>"

definition allocated :: "validation_obj \<Rightarrow> store \<Rightarrow> bool" where
  "allocated self \<sigma> =
     ((case o_shots_ref self of None \<Rightarrow> True | Some a \<Rightarrow> a < length (shot_sets \<sigma>)) \<and>
      (case o_videos_ref self of None \<Rightarrow> True | Some a \<Rightarrow> a < length (video_sets \<sigma>)))"

text \<open>
  The empty store, the instance that \<open>Validation(shots='shots.lst', videos='videos.lst')\<close>
  builds in it, the store it leaves, and three validate calls: the first raises on an
  unknown shot, the second on an unknown video, the third passes.
\<close>

definition empty_store :: store where
  "empty_store = \<lparr>str_sets = [], name_sets = [], shot_sets = [], video_sets = []\<rparr>"

definition engine :: validation_obj where
  "engine = \<lparr>o_shots = Some ''shots.lst'', o_shots_ref = Some 0,
              o_videos = Some ''videos.lst'', o_videos_ref = Some 0\<rparr>"

definition engine_store :: store where
  "engine_store = \<lparr>str_sets = [], name_sets = [],
                    shot_sets = [ [(''C1'', ''V1'', ''S1'')] ], video_sets = [ [(''C1'', ''V1'')] ]\<rparr>"

definition three_calls :: "(string \<times> string option) list" where
  "three_calls =
     [(''unknown_shot.sub'', None),
      (''alice_bob.sub'', Some ''other_video.ev''),
      (''alice_bob.sub'', Some ''alice_bob.ev'')]"

section \<open>Facts about the library operations\<close>

lemma set_unique_from: "set (unique_from seen xs) = set xs - set seen"
  by (induction xs arbitrary: seen) auto

lemma set_unique: "set (unique xs) = set xs"
  by (simp add: unique_def set_unique_from)

lemma set_py_set: "layout_ok lay \<Longrightarrow> set (py_set lay xs) = set xs"
  by (simp add: py_set_def layout_ok_def set_unique)

lemma set_minus_set: "layout_ok lay \<Longrightarrow> set (minus_set lay a b) = set a - set b"
  by (auto simp: minus_set_def layout_ok_def)

lemma issubset_iff: "issubset a b \<longleftrightarrow> set a \<subseteq> set b"
  by (auto simp: issubset_def list_all_iff)

lemma pop_nonempty: "s \<noteq> [] \<Longrightarrow> pop s = Inr (hd s)"
  by (cases s) (simp_all add: pop_def)

lemma allowed_iff:
  "c \<in> set ALLOWED_CHARACTERS \<longleftrightarrow>
     (97 \<le> (of_char c :: nat) \<and> (of_char c :: nat) \<le> 122) \<or> c = CHR ''_''"
  by (cases c) (simp add: ALLOWED_CHARACTERS_def ascii_lowercase_def)

lemma for_person_name_pass:
  "for_person_name ns = Inr b \<longleftrightarrow>
     b \<and> (\<forall>c\<in>set ns. \<exists>n. c = Str n \<and> set n \<subseteq> set ALLOWED_CHARACTERS)"
  by (induction ns rule: for_person_name.induct) (auto simp: issubset_iff)

lemma for_person_name_fail:
  "for_person_name ns = Inl e \<Longrightarrow>
     (NA \<in> set ns \<and> e = TypeError ''float object is not iterable'') \<or>
     (\<exists>n. Str n \<in> set ns \<and> e = InvalidPersonName n \<and> \<not> set n \<subseteq> set ALLOWED_CHARACTERS)"
  by (induction ns rule: for_person_name.induct) (auto simp: issubset_iff split: if_splits)

lemma np_where_empty: "np_where bs = [] \<longleftrightarrow> (\<forall>b\<in>set bs. \<not> b)"
proof -
  have "np_where bs = [] \<longleftrightarrow> (\<forall>i<length bs. \<not> bs ! i)"
    unfolding np_where_def filter_empty_conv by auto
  then show ?thesis by (simp add: all_set_conv_all_nth)
qed

lemma hd_filter_split:
  "filter P xs \<noteq> [] \<Longrightarrow>
     \<exists>ys zs. xs = ys @ hd (filter P xs) # zs \<and> P (hd (filter P xs)) \<and> (\<forall>y\<in>set ys. \<not> P y)"
proof (induction xs)
  case Nil
  then show ?case by simp
next
  case (Cons a xs)
  show ?case
  proof (cases "P a")
    case True
    then have "a # xs = [] @ hd (filter P (a # xs)) # xs" by simp
    with True show ?thesis by (metis empty_iff empty_set filter.simps(2) list.sel(1))
  next
    case False
    with Cons.prems have "filter P xs \<noteq> []" by simp
    from Cons.IH [OF this] obtain ys zs
      where "xs = ys @ hd (filter P xs) # zs" "P (hd (filter P xs))" "\<forall>y\<in>set ys. \<not> P y"
      by blast
    with False have "a # xs = (a # ys) @ hd (filter P (a # xs)) # zs"
      "P (hd (filter P (a # xs)))" "\<forall>y\<in>set (a # ys). \<not> P y"
      by simp_all
    then show ?thesis by blast
  qed
qed

lemma hd_filter_upt_least:
  assumes "filter P [0..<n] \<noteq> []"
  shows "hd (filter P [0..<n]) < n \<and> P (hd (filter P [0..<n])) \<and>
         (\<forall>j < hd (filter P [0..<n]). \<not> P j)"
proof -
  define x where "x = hd (filter P [0..<n])"
  from hd_filter_split [OF assms] obtain ys zs
    where eq: "[0..<n] = ys @ x # zs" and px: "P x" and nys: "\<forall>y\<in>set ys. \<not> P y"
    unfolding x_def by blast
  have "length [0..<n] = length (ys @ x # zs)" using eq by simp
  then have len: "length ys < n" by simp
  have "[0..<n] ! length ys = x" unfolding eq by simp
  moreover have "[0..<n] ! length ys = length ys" using len by simp
  ultimately have xl: "x = length ys" by simp
  have "\<not> P j" if "j < x" for j
  proof -
    from that xl len have "[0..<n] ! j = j" by simp
    moreover from that xl have "(ys @ x # zs) ! j = ys ! j" by (simp add: nth_append)
    ultimately have "ys ! j = j" using eq by simp
    with that xl have "j \<in> set ys" by (metis nth_mem)
    with nys show ?thesis by blast
  qed
  with px xl len show ?thesis unfolding x_def [symmetric] by blast
qed

lemma hd_np_where:
  assumes "np_where bs \<noteq> []"
  shows "hd (np_where bs) < length bs \<and> bs ! hd (np_where bs) \<and>
         (\<forall>j < hd (np_where bs). \<not> bs ! j)"
  using hd_filter_upt_least [of "\<lambda>i. bs ! i" "length bs"] assms
  unfolding np_where_def by blast

lemma duplicated_from_length: "length (duplicated_from seen xs) = length xs"
  by (induction xs arbitrary: seen) auto

lemma any_duplicated_from:
  "any (duplicated_from seen xs) \<longleftrightarrow> \<not> distinct xs \<or> set xs \<inter> set seen \<noteq> {}"
  by (induction xs arbitrary: seen) (auto simp: any_def)

lemma any_duplicated: "any (duplicated xs) \<longleftrightarrow> \<not> distinct xs"
  by (simp add: duplicated_def any_duplicated_from)

lemma select_Nil: "select [] bs = []"
  by (simp add: select_def)

lemma select_Cons: "select (a # rows) (b # bs) = (if b then a # select rows bs else select rows bs)"
  by (simp add: select_def)

lemma select_subset: "set (select rows bs) \<subseteq> set rows"
  unfolding select_def by (auto dest: set_zip_leftD)

lemma select_duplicated_from:
  "r \<in> set (select rows (duplicated_from seen (map f rows))) \<Longrightarrow>
     f r \<in> set seen \<or> 1 < length (filter (\<lambda>q. f q = f r) rows)"
proof (induction rows arbitrary: seen)
  case Nil
  then show ?case by (simp add: select_Nil)
next
  case (Cons a rows)
  show ?case
  proof (cases "r = a \<and> f a \<in> set seen")
    case True
    then show ?thesis by simp
  next
    case False
    with Cons.prems have in_rest: "r \<in> set (select rows (duplicated_from (f a # seen) (map f rows)))"
      by (auto simp: select_Cons split: if_splits)
    from Cons.IH [OF in_rest]
    have "f r = f a \<or> f r \<in> set seen \<or> 1 < length (filter (\<lambda>q. f q = f r) rows)"
      by auto
    moreover have "r \<in> set rows" using in_rest select_subset by fastforce
    then have "filter (\<lambda>q. f q = f r) rows \<noteq> []" by (auto simp: filter_empty_conv)
    then have "0 < length (filter (\<lambda>q. f q = f r) rows)" by simp
    ultimately show ?thesis by auto
  qed
qed

lemma select_duplicated:
  "r \<in> set (select rows (duplicated (map f rows))) \<Longrightarrow> 1 < length (filter (\<lambda>q. f q = f r) rows)"
  using select_duplicated_from [of r rows "[]" f] by (simp add: duplicated_def)

lemma select_nonempty:
  "length bs = length rows \<Longrightarrow> any bs \<Longrightarrow> select rows bs \<noteq> []"
  by (induction rows bs rule: list_induct2') (auto simp: select_Cons any_def)

lemma pop_in: "s \<noteq> [] \<Longrightarrow> \<exists>x\<in>set s. pop s = Inr x"
  by (cases s) (simp_all add: pop_def)

lemma minus_set_empty_iff:
  assumes "layout_ok lay"
  shows "minus_set lay a b = [] \<longleftrightarrow> set a \<subseteq> set b"
proof -
  have "minus_set lay a b = [] \<longleftrightarrow> set (minus_set lay a b) = {}" by simp
  also have "\<dots> \<longleftrightarrow> set a - set b = {}" using assms by (simp only: set_minus_set)
  also have "\<dots> \<longleftrightarrow> set a \<subseteq> set b" by (rule Diff_eq_empty_iff)
  finally show ?thesis .
qed

lemma pop_minus_set:
  assumes "layout_ok lay" "minus_set lay a b \<noteq> []"
  shows "\<exists>x. pop (minus_set lay a b) = Inr x \<and> x \<in> set a \<and> x \<notin> set b"
proof -
  from pop_in [OF assms(2)] obtain x
    where "x \<in> set (minus_set lay a b)" "pop (minus_set lay a b) = Inr x" by blast
  moreover from this(1) assms(1) have "x \<in> set a - set b" by (simp only: set_minus_set)
  ultimately show ?thesis by blast
qed

section \<open>What each check computes\<close>

lemma submission_person_names_pass:
  assumes "layout_ok (name_layout E)"
  shows "submission_person_names E submission = Inr b \<longleftrightarrow>
           b \<and> (\<forall>r\<in>set submission.
                  \<exists>n. s_person_name r = Str n \<and> set n \<subseteq> set ALLOWED_CHARACTERS)"
  using assms
  by (simp add: submission_person_names_def for_person_name_pass set_py_set set_unique)

lemma submission_person_names_fail:
  assumes "layout_ok (name_layout E)" "submission_person_names E submission = Inl e"
  shows "(\<exists>r\<in>set submission. s_person_name r = NA \<and>
            e = TypeError ''float object is not iterable'') \<or>
         (\<exists>r\<in>set submission. \<exists>n. s_person_name r = Str n \<and> e = InvalidPersonName n \<and>
            \<not> set n \<subseteq> set ALLOWED_CHARACTERS)"
proof -
  define names where "names = py_set (name_layout E) (unique (map s_person_name submission))"
  have sn: "set names = s_person_name ` set submission"
    using assms(1) by (simp add: names_def set_py_set set_unique)
  from assms(2) have "for_person_name names = Inl e"
    by (simp add: submission_person_names_def names_def)
  from for_person_name_fail [OF this]
  consider "NA \<in> set names" "e = TypeError ''float object is not iterable''"
    | n where "Str n \<in> set names" "e = InvalidPersonName n"
        "\<not> set n \<subseteq> set ALLOWED_CHARACTERS"
    by blast
  then show ?thesis
  proof cases
    case 1
    from 1(1) sn obtain r where "r \<in> set submission" "s_person_name r = NA" by force
    with 1(2) show ?thesis by blast
  next
    case 2
    from 2(1) sn obtain r where "r \<in> set submission" "s_person_name r = Str n" by force
    with 2(2,3) show ?thesis by blast
  qed
qed

lemma submission_shots_unfold:
  "shots_set self = Some reference \<Longrightarrow>
   submission_shots E self submission =
     (let invalid_shots = minus_set (shot_layout E)
        (py_set (shot_layout E) (map (\<lambda>r. (s_corpus_id r, s_video_id r, s_shot_id r)) submission))
        reference
      in if invalid_shots \<noteq> [] then
           (case pop invalid_shots of Inl e \<Rightarrow> Inl e | Inr (c, v, s) \<Rightarrow> Inl (InvalidShot c v s))
         else Inr True)"
  by (simp add: submission_shots_def)

lemma submission_shots_pass:
  assumes "layout_ok (shot_layout E)" "shots_set self = Some reference"
  shows "submission_shots E self submission = Inr b \<longleftrightarrow>
           b \<and> (\<forall>r\<in>set submission. (s_corpus_id r, s_video_id r, s_shot_id r) \<in> set reference)"
proof -
  define shots where "shots =
     py_set (shot_layout E) (map (\<lambda>r. (s_corpus_id r, s_video_id r, s_shot_id r)) submission)"
  define inv where "inv = minus_set (shot_layout E) shots reference"
  have sh: "set shots = (\<lambda>r. (s_corpus_id r, s_video_id r, s_shot_id r)) ` set submission"
    using assms(1) by (simp add: shots_def set_py_set)
  have res: "submission_shots E self submission =
      (if inv \<noteq> [] then (case pop inv of Inl e \<Rightarrow> Inl e | Inr (c, v, s) \<Rightarrow> Inl (InvalidShot c v s))
       else Inr True)"
    using submission_shots_unfold [OF assms(2)] by (simp add: inv_def shots_def)
  have em: "inv = [] \<longleftrightarrow>
      (\<forall>r\<in>set submission. (s_corpus_id r, s_video_id r, s_shot_id r) \<in> set reference)"
    unfolding inv_def minus_set_empty_iff [OF assms(1)] sh by blast
  show ?thesis
  proof (cases "inv = []")
    case True
    with res em show ?thesis by auto
  next
    case False
    from pop_in [OF False] obtain x where "pop inv = Inr x" by blast
    with False res em show ?thesis by (simp split: prod.splits)
  qed
qed

lemma submission_shots_fail:
  assumes "layout_ok (shot_layout E)" "shots_set self = Some reference"
    and "submission_shots E self submission = Inl e"
  shows "\<exists>r\<in>set submission. e = InvalidShot (s_corpus_id r) (s_video_id r) (s_shot_id r) \<and>
           (s_corpus_id r, s_video_id r, s_shot_id r) \<notin> set reference"
proof -
  define shots where "shots =
     py_set (shot_layout E) (map (\<lambda>r. (s_corpus_id r, s_video_id r, s_shot_id r)) submission)"
  define inv where "inv = minus_set (shot_layout E) shots reference"
  have sh: "set shots = (\<lambda>r. (s_corpus_id r, s_video_id r, s_shot_id r)) ` set submission"
    using assms(1) by (simp add: shots_def set_py_set)
  have res: "submission_shots E self submission =
      (if inv \<noteq> [] then (case pop inv of Inl e \<Rightarrow> Inl e | Inr (c, v, s) \<Rightarrow> Inl (InvalidShot c v s))
       else Inr True)"
    using submission_shots_unfold [OF assms(2)] by (simp add: inv_def shots_def)
  from assms(3) res have ne: "inv \<noteq> []" by (auto split: if_splits)
  from pop_minus_set [OF assms(1)] ne obtain x
    where x: "pop inv = Inr x" "x \<in> set shots" "x \<notin> set reference"
    unfolding inv_def by blast
  obtain c v s' where cvs: "x = (c, v, s')" by (cases x) auto
  from assms(3) res ne x(1) cvs have "e = InvalidShot c v s'" by simp
  moreover from x(2) sh cvs obtain r where "r \<in> set submission"
    "(c, v, s') = (s_corpus_id r, s_video_id r, s_shot_id r)" by blast
  ultimately show ?thesis using x(3) cvs by auto
qed

lemma np_where_map_empty: "np_where (map P xs) = [] \<longleftrightarrow> (\<forall>x\<in>set xs. \<not> P x)"
  by (simp add: np_where_empty)

lemma np_where_map_first:
  assumes "np_where (map P xs) \<noteq> []"
  shows "\<exists>i<length xs. hd (np_where (map P xs)) = i \<and> P (xs ! i) \<and> (\<forall>j<i. \<not> P (xs ! j))"
proof -
  define i where "i = hd (np_where (map P xs))"
  from hd_np_where [OF assms]
  have a: "i < length (map P xs)" and b: "map P xs ! i" and c: "\<forall>j<i. \<not> map P xs ! j"
    unfolding i_def by blast+
  from a have il: "i < length xs" by simp
  with b have "P (xs ! i)" by simp
  moreover have "\<not> P (xs ! j)" if "j < i" for j
  proof -
    from that il have "j < length xs" by simp
    moreover from c that have "\<not> map P xs ! j" by blast
    ultimately show ?thesis by simp
  qed
  ultimately show ?thesis using il unfolding i_def by blast
qed

lemma not_isfinite_iff: "\<not> isfinite x \<longleftrightarrow> x = NaN \<or> x = PosInf \<or> x = NegInf"
  by (cases x) simp_all

lemma lt_zero_finite: "isfinite x \<Longrightarrow> lt_zero x \<longleftrightarrow> (\<exists>r. x = Finite r \<and> r < 0)"
  by (cases x) simp_all

lemma submission_confidence_unfold:
  "submission_confidence submission =
     (if np_where (map (\<lambda>r. \<not> isfinite (confidence r)) submission) \<noteq> []
      then Inl (IncorrectConfidence (hd (np_where (map (\<lambda>r. \<not> isfinite (confidence r)) submission)) + 1))
      else Inr True)"
  by (simp add: submission_confidence_def comp_def)

lemma submission_confidence_pass:
  "submission_confidence submission = Inr b \<longleftrightarrow>
     b \<and> (\<forall>r\<in>set submission. isfinite (confidence r))"
  unfolding submission_confidence_unfold
  using np_where_map_empty [of "\<lambda>r. \<not> isfinite (confidence r)" submission]
  by auto

lemma submission_confidence_fail:
  assumes "submission_confidence submission = Inl e"
  shows "\<exists>i<length submission. e = IncorrectConfidence (i + 1) \<and>
           \<not> isfinite (confidence (submission ! i)) \<and>
           (\<forall>j<i. isfinite (confidence (submission ! j)))"
proof -
  let ?P = "\<lambda>r. \<not> isfinite (confidence r)"
  from assms have ne: "np_where (map ?P submission) \<noteq> []"
    and e: "e = IncorrectConfidence (hd (np_where (map ?P submission)) + 1)"
    unfolding submission_confidence_unfold by (auto split: if_splits)
  from np_where_map_first [OF ne] e show ?thesis by auto
qed

lemma evidence_timestamps_unfold:
  "evidence_timestamps evidence =
     (if np_where (map (\<lambda>r. \<not> isfinite (timestamp r)) evidence) \<noteq> []
      then Inl (IncorrectTimestamp (hd (np_where (map (\<lambda>r. \<not> isfinite (timestamp r)) evidence)) + 1))
      else if np_where (map (\<lambda>r. lt_zero (timestamp r)) evidence) \<noteq> []
      then Inl (NegativeTimestamp (hd (np_where (map (\<lambda>r. lt_zero (timestamp r)) evidence)) + 1))
      else Inr True)"
  by (simp add: evidence_timestamps_def comp_def)

lemma evidence_timestamps_not_finite:
  assumes "\<exists>r\<in>set evidence. \<not> isfinite (timestamp r)"
  shows "\<exists>i<length evidence. evidence_timestamps evidence = Inl (IncorrectTimestamp (i + 1)) \<and>
           \<not> isfinite (timestamp (evidence ! i)) \<and>
           (\<forall>j<i. isfinite (timestamp (evidence ! j)))"
proof -
  let ?P = "\<lambda>r. \<not> isfinite (timestamp r)"
  from assms have ne: "np_where (map ?P evidence) \<noteq> []"
    using np_where_map_empty [of ?P evidence] by blast
  then have "evidence_timestamps evidence =
      Inl (IncorrectTimestamp (hd (np_where (map ?P evidence)) + 1))"
    unfolding evidence_timestamps_unfold by simp
  with np_where_map_first [OF ne] show ?thesis by auto
qed

lemma evidence_timestamps_negative:
  assumes "\<forall>r\<in>set evidence. isfinite (timestamp r)" "\<exists>r\<in>set evidence. lt_zero (timestamp r)"
  shows "\<exists>i<length evidence. evidence_timestamps evidence = Inl (NegativeTimestamp (i + 1)) \<and>
           lt_zero (timestamp (evidence ! i)) \<and>
           (\<forall>j<i. \<not> lt_zero (timestamp (evidence ! j)))"
proof -
  let ?P = "\<lambda>r. \<not> isfinite (timestamp r)"
  let ?N = "\<lambda>r. lt_zero (timestamp r)"
  from assms(1) have fin: "np_where (map ?P evidence) = []"
    using np_where_map_empty [of ?P evidence] by blast
  from assms(2) have ne: "np_where (map ?N evidence) \<noteq> []"
    using np_where_map_empty [of ?N evidence] by blast
  from fin ne have "evidence_timestamps evidence =
      Inl (NegativeTimestamp (hd (np_where (map ?N evidence)) + 1))"
    unfolding evidence_timestamps_unfold by simp
  with np_where_map_first [OF ne] show ?thesis by auto
qed

lemma evidence_timestamps_pass:
  "evidence_timestamps evidence = Inr b \<longleftrightarrow>
     b \<and> (\<forall>r\<in>set evidence. isfinite (timestamp r) \<and> \<not> lt_zero (timestamp r))"
  unfolding evidence_timestamps_unfold
  using np_where_map_empty [of "\<lambda>r. \<not> isfinite (timestamp r)" evidence]
        np_where_map_empty [of "\<lambda>r. lt_zero (timestamp r)" evidence]
  by auto

lemma finite_nonneg_iff: "isfinite x \<and> \<not> lt_zero x \<longleftrightarrow> (\<exists>r. x = Finite r \<and> 0 \<le> r)"
  by (cases x) auto

lemma layout_ok_insertion_order: "layout_ok insertion_order"
  by (simp add: layout_ok_def insertion_order_def)

lemma layout_ok_files:
  "layout_ok (str_layout files)" "layout_ok (shot_layout files)" "layout_ok (video_layout files)"
  "layout_ok (name_layout files)"
  by (simp_all add: files_def layout_ok_insertion_order)

lemma set_ALLOWED_CHARACTERS: "set ALLOWED_CHARACTERS = set ''abcdefghijklmnopqrstuvwxyz_''"
  by (simp add: ALLOWED_CHARACTERS_def ascii_lowercase_def)

lemma call_person_names_fail:
  "load_submission E fp = Inr submission \<Longrightarrow> submission_person_names E submission = Inl e \<Longrightarrow>
   call E self fp fp_evidence = Inl e"
  by (simp add: call_def)

lemma submission_person_names_strings:
  assumes "layout_ok (name_layout E)"
    and "\<forall>r\<in>set submission. \<exists>n. s_person_name r = Str n"
  shows "((\<forall>r\<in>set submission. \<forall>n. s_person_name r = Str n \<longrightarrow>
             set n \<subseteq> set ''abcdefghijklmnopqrstuvwxyz_'') \<longrightarrow>
            submission_person_names E submission = Inr True)
       \<and> ((\<exists>r\<in>set submission. \<exists>n. s_person_name r = Str n \<and>
             \<not> set n \<subseteq> set ''abcdefghijklmnopqrstuvwxyz_'') \<longrightarrow>
            (\<exists>r\<in>set submission. \<exists>n. s_person_name r = Str n \<and>
               \<not> set n \<subseteq> set ''abcdefghijklmnopqrstuvwxyz_'' \<and>
               submission_person_names E submission = Inl (InvalidPersonName n) \<and>
               (\<forall>self fp fp_evidence. load_submission E fp = Inr submission \<longrightarrow>
                  call E self fp fp_evidence = Inl (InvalidPersonName n))))"
proof (intro conjI impI)
  assume "\<forall>r\<in>set submission. \<forall>n. s_person_name r = Str n \<longrightarrow>
             set n \<subseteq> set ''abcdefghijklmnopqrstuvwxyz_''"
  with assms(2) have "\<forall>r\<in>set submission.
      \<exists>n. s_person_name r = Str n \<and> set n \<subseteq> set ALLOWED_CHARACTERS"
    unfolding set_ALLOWED_CHARACTERS by fastforce
  then show "submission_person_names E submission = Inr True"
    using submission_person_names_pass [OF assms(1), of submission True] by blast
next
  assume "\<exists>r\<in>set submission. \<exists>n. s_person_name r = Str n \<and>
             \<not> set n \<subseteq> set ''abcdefghijklmnopqrstuvwxyz_''"
  then have bad: "\<not> (\<forall>r\<in>set submission.
      \<exists>n. s_person_name r = Str n \<and> set n \<subseteq> set ALLOWED_CHARACTERS)"
    unfolding set_ALLOWED_CHARACTERS by fastforce
  have "submission_person_names E submission \<noteq> Inr b" for b
    using submission_person_names_pass [OF assms(1), of submission b] bad by blast
  then obtain e where e: "submission_person_names E submission = Inl e"
    by (cases "submission_person_names E submission") auto
  from submission_person_names_fail [OF assms(1) e] assms(2) obtain r n
    where r: "r \<in> set submission" "s_person_name r = Str n" "e = InvalidPersonName n"
      "\<not> set n \<subseteq> set ALLOWED_CHARACTERS"
    by fastforce
  from r(4) have "\<not> set n \<subseteq> set ''abcdefghijklmnopqrstuvwxyz_''"
    unfolding set_ALLOWED_CHARACTERS .
  moreover from e r(3)
  have c: "submission_person_names E submission = Inl (InvalidPersonName n)" by simp
  moreover have "\<forall>self fp fp_evidence. load_submission E fp = Inr submission \<longrightarrow>
      call E self fp fp_evidence = Inl (InvalidPersonName n)"
    using call_person_names_fail c by blast
  ultimately show "\<exists>r\<in>set submission. \<exists>n. s_person_name r = Str n \<and>
       \<not> set n \<subseteq> set ''abcdefghijklmnopqrstuvwxyz_'' \<and>
       submission_person_names E submission = Inl (InvalidPersonName n) \<and>
       (\<forall>self fp fp_evidence. load_submission E fp = Inr submission \<longrightarrow>
          call E self fp fp_evidence = Inl (InvalidPersonName n))"
    using r(1,2) by blast
qed

lemma init_unrestricted: "init E None None = Inr unrestricted"
  by (simp add: init_def unrestricted_def)

lemma load_if_Some:
  assumes "load_if load (Some path) = Inr x" "path \<noteq> []"
  shows "\<exists>y. load path = Inr y \<and> x = Some y"
  using assms by (cases "load path") auto

lemma load_if_falsy: "\<not> truthy path \<Longrightarrow> load_if load path = Inr None"
  by (cases path) auto

lemma init_fields:
  assumes "init E shots_path videos_path = Inr self"
  shows "shots self = shots_path" "videos self = videos_path"
    "load_if (load_shots E) shots_path = Inr (shots_set self)"
    "load_if (load_videos E) videos_path = Inr (videos_set self)"
  using assms by (auto simp: init_def split: sum.splits)

lemma init_shots_set:
  assumes "init E (Some path) videos_path = Inr self" "path \<noteq> []"
  shows "\<exists>rows. read_shots E path = Inr rows \<and>
           shots_set self =
             Some (py_set (shot_layout E) (map (\<lambda>(c, v, s, _, _). (c, v, s)) rows))"
proof -
  from init_fields(3) [OF assms(1)] assms(2) obtain y
    where "load_shots E path = Inr y" "shots_set self = Some y"
    using load_if_Some by metis
  then show ?thesis
    by (cases "read_shots E path") (auto simp: load_shots_def)
qed

lemma init_videos_set:
  assumes "init E shots_path (Some path) = Inr self" "path \<noteq> []"
  shows "\<exists>rows. read_videos E path = Inr rows \<and>
           videos_set self =
             Some (py_set (video_layout E) (map (\<lambda>(c, v). (c, v)) rows))"
proof -
  from init_fields(4) [OF assms(1)] assms(2) obtain y
    where "load_videos E path = Inr y" "videos_set self = Some y"
    using load_if_Some by metis
  then show ?thesis
    by (cases "read_videos E path") (auto simp: load_videos_def)
qed

lemma submission_shots_total:
  assumes "layout_ok (shot_layout E)" "shots_set self = Some reference"
  shows "(\<exists>e. submission_shots E self submission = Inl e) \<longleftrightarrow>
           (\<exists>r\<in>set submission. (s_corpus_id r, s_video_id r, s_shot_id r) \<notin> set reference)"
proof
  assume "\<exists>e. submission_shots E self submission = Inl e"
  then obtain e where "submission_shots E self submission = Inl e" ..
  from submission_shots_fail [OF assms this]
  show "\<exists>r\<in>set submission. (s_corpus_id r, s_video_id r, s_shot_id r) \<notin> set reference"
    by blast
next
  assume "\<exists>r\<in>set submission. (s_corpus_id r, s_video_id r, s_shot_id r) \<notin> set reference"
  then have "submission_shots E self submission \<noteq> Inr b" for b
    using submission_shots_pass [OF assms, of submission b] by blast
  then show "\<exists>e. submission_shots E self submission = Inl e"
    by (cases "submission_shots E self submission") auto
qed

lemma init_with_shots: "init files (Some ''shots.lst'') None = Inr with_shots"
  by (simp add: init_def load_shots_def files_def py_set_def unique_def insertion_order_def
      with_shots_def)

lemma evidence_modalities_pass:
  assumes "layout_ok (str_layout E)"
  shows "evidence_modalities E evidence = Inr u \<longleftrightarrow>
           modality ` set evidence \<subseteq> {''written'', ''pronounced''}"
proof -
  define modalities where "modalities = py_set (str_layout E) (unique (map modality evidence))"
  have sm: "set modalities = modality ` set evidence"
    using assms by (simp add: modalities_def set_py_set set_unique)
  have res: "evidence_modalities E evidence =
      (if \<not> issubset modalities [''written'', ''pronounced''] then
         (case pop (minus_set (str_layout E) modalities [''written'', ''pronounced'']) of
            Inl e \<Rightarrow> Inl e | Inr m \<Rightarrow> Inl (IncorrectModality m))
       else Inr ())"
    by (simp add: evidence_modalities_def modalities_def)
  have sub: "issubset modalities [''written'', ''pronounced''] \<longleftrightarrow>
      modality ` set evidence \<subseteq> {''written'', ''pronounced''}"
    by (simp add: issubset_iff sm)
  show ?thesis
  proof (cases "issubset modalities [''written'', ''pronounced'']")
    case True
    with res sub show ?thesis by simp
  next
    case False
    then have "evidence_modalities E evidence \<noteq> Inr u"
      unfolding res by (simp split: sum.splits)
    with False sub show ?thesis by simp
  qed
qed

lemma evidence_modalities_fail:
  assumes "layout_ok (str_layout E)" "evidence_modalities E evidence = Inl e"
  shows "\<exists>r\<in>set evidence. e = IncorrectModality (modality r) \<and>
           modality r \<notin> {''written'', ''pronounced''}"
proof -
  define modalities where "modalities = py_set (str_layout E) (unique (map modality evidence))"
  have sm: "set modalities = modality ` set evidence"
    using assms(1) by (simp add: modalities_def set_py_set set_unique)
  have res: "evidence_modalities E evidence =
      (if \<not> issubset modalities [''written'', ''pronounced''] then
         (case pop (minus_set (str_layout E) modalities [''written'', ''pronounced'']) of
            Inl e \<Rightarrow> Inl e | Inr m \<Rightarrow> Inl (IncorrectModality m))
       else Inr ())"
    by (simp add: evidence_modalities_def modalities_def)
  from assms(2) res have ns: "\<not> issubset modalities [''written'', ''pronounced'']"
    by (auto split: if_splits)
  then have "minus_set (str_layout E) modalities [''written'', ''pronounced''] \<noteq> []"
    unfolding minus_set_empty_iff [OF assms(1)] issubset_iff .
  from pop_minus_set [OF assms(1) this] obtain m
    where m: "pop (minus_set (str_layout E) modalities [''written'', ''pronounced'']) = Inr m"
      "m \<in> set modalities" "m \<notin> set [''written'', ''pronounced'']"
    by blast
  from assms(2) res ns m(1) have "e = IncorrectModality m" by simp
  moreover from m(2) sm obtain r where "r \<in> set evidence" "m = modality r" by blast
  ultimately show ?thesis using m(3) by auto
qed

lemma py_set_nonempty:
  assumes "layout_ok lay" "xs \<noteq> []"
  shows "py_set lay xs \<noteq> []"
proof -
  from assms(2) have "set xs \<noteq> {}" by simp
  with set_py_set [OF assms(1), of xs] have "set (py_set lay xs) \<noteq> {}" by simp
  then show ?thesis by auto
qed

lemma length_duplicated: "length (duplicated xs) = length xs"
  by (simp add: duplicated_def duplicated_from_length)

lemma evidence_person_names_duplicate:
  assumes "layout_ok (name_layout E)" "\<not> distinct (map e_person_name evidence)"
  shows "\<exists>r\<in>set evidence.
           evidence_person_names E submission evidence =
             Inl (DuplicatePersonName (e_person_name r)) \<and>
           1 < length (filter (\<lambda>q. e_person_name q = e_person_name r) evidence)"
proof -
  define dup where "dup = duplicated (map e_person_name evidence)"
  define rows where "rows = select evidence dup"
  from assms(2) have any: "any dup" by (simp add: dup_def any_duplicated)
  have "length dup = length evidence" by (simp add: dup_def length_duplicated)
  from select_nonempty [OF this any] have "rows \<noteq> []" by (simp add: rows_def)
  then have "map e_person_name rows \<noteq> []" by simp
  from py_set_nonempty [OF assms(1) this] pop_in obtain x
    where x: "x \<in> set (py_set (name_layout E) (map e_person_name rows))"
      "pop (py_set (name_layout E) (map e_person_name rows)) = Inr x"
    by blast
  from x(1) assms(1) have "x \<in> e_person_name ` set rows" by (simp add: set_py_set)
  then obtain r where r: "r \<in> set rows" "x = e_person_name r" by blast
  from r(1) have "r \<in> set evidence" using select_subset rows_def by fastforce
  moreover from r(1) have "1 < length (filter (\<lambda>q. e_person_name q = e_person_name r) evidence)"
    unfolding rows_def dup_def by (rule select_duplicated)
  moreover from any x(2) r(2)
  have "evidence_person_names E submission evidence = Inl (DuplicatePersonName (e_person_name r))"
    by (simp add: evidence_person_names_def dup_def rows_def)
  ultimately show ?thesis by blast
qed

lemma evidence_person_names_distinct:
  assumes "distinct (map e_person_name evidence)"
  shows "evidence_person_names E submission evidence =
     (let submission_person_names = py_set (name_layout E) (unique (map s_person_name submission));
          evidence_person_names = py_set (name_layout E) (unique (map e_person_name evidence));
          extra = minus_set (name_layout E) evidence_person_names submission_person_names
      in if extra \<noteq> [] then
           (case pop extra of Inl e \<Rightarrow> Inl e | Inr person_name \<Rightarrow> Inl (ExtraPersonName person_name))
         else
           (let missing = minus_set (name_layout E) submission_person_names evidence_person_names
            in if missing \<noteq> [] then
                 (case pop missing of Inl e \<Rightarrow> Inl e
                  | Inr person_name \<Rightarrow> Inl (MissingPersonName person_name))
               else Inr True))"
  using assms by (simp add: evidence_person_names_def any_duplicated)

lemma evidence_person_names_extra:
  assumes "layout_ok (name_layout E)" "distinct (map e_person_name evidence)"
    and "\<not> e_person_name ` set evidence \<subseteq> s_person_name ` set submission"
  shows "\<exists>r\<in>set evidence.
           evidence_person_names E submission evidence = Inl (ExtraPersonName (e_person_name r)) \<and>
           e_person_name r \<notin> s_person_name ` set submission"
proof -
  define sn where "sn = py_set (name_layout E) (unique (map s_person_name submission))"
  define en where "en = py_set (name_layout E) (unique (map e_person_name evidence))"
  have ssn: "set sn = s_person_name ` set submission"
    using assms(1) by (simp add: sn_def set_py_set set_unique)
  have sen: "set en = e_person_name ` set evidence"
    using assms(1) by (simp add: en_def set_py_set set_unique)
  from assms(3) have ne: "minus_set (name_layout E) en sn \<noteq> []"
    unfolding minus_set_empty_iff [OF assms(1)] ssn sen .
  from pop_minus_set [OF assms(1) ne] obtain x
    where x: "pop (minus_set (name_layout E) en sn) = Inr x" "x \<in> set en" "x \<notin> set sn"
    by blast
  from ne x(1) have "evidence_person_names E submission evidence = Inl (ExtraPersonName x)"
    unfolding evidence_person_names_distinct [OF assms(2)] sn_def [symmetric] en_def [symmetric]
    by simp
  with x(2,3) show ?thesis unfolding ssn sen by blast
qed

lemma evidence_person_names_missing:
  assumes "layout_ok (name_layout E)" "distinct (map e_person_name evidence)"
    and "e_person_name ` set evidence \<subseteq> s_person_name ` set submission"
    and "\<not> s_person_name ` set submission \<subseteq> e_person_name ` set evidence"
  shows "\<exists>r\<in>set submission.
           evidence_person_names E submission evidence = Inl (MissingPersonName (s_person_name r)) \<and>
           s_person_name r \<notin> e_person_name ` set evidence"
proof -
  define sn where "sn = py_set (name_layout E) (unique (map s_person_name submission))"
  define en where "en = py_set (name_layout E) (unique (map e_person_name evidence))"
  have ssn: "set sn = s_person_name ` set submission"
    using assms(1) by (simp add: sn_def set_py_set set_unique)
  have sen: "set en = e_person_name ` set evidence"
    using assms(1) by (simp add: en_def set_py_set set_unique)
  from assms(3) have e: "minus_set (name_layout E) en sn = []"
    unfolding minus_set_empty_iff [OF assms(1)] ssn sen .
  from assms(4) have ne: "minus_set (name_layout E) sn en \<noteq> []"
    unfolding minus_set_empty_iff [OF assms(1)] ssn sen .
  from pop_minus_set [OF assms(1) ne] obtain x
    where x: "pop (minus_set (name_layout E) sn en) = Inr x" "x \<in> set sn" "x \<notin> set en"
    by blast
  from e ne x(1) have "evidence_person_names E submission evidence = Inl (MissingPersonName x)"
    unfolding evidence_person_names_distinct [OF assms(2)] sn_def [symmetric] en_def [symmetric]
    by simp
  with x(2,3) show ?thesis unfolding ssn sen by blast
qed

lemma evidence_person_names_equal:
  assumes "layout_ok (name_layout E)" "distinct (map e_person_name evidence)"
    and "e_person_name ` set evidence = s_person_name ` set submission"
  shows "evidence_person_names E submission evidence = Inr True"
proof -
  define sn where "sn = py_set (name_layout E) (unique (map s_person_name submission))"
  define en where "en = py_set (name_layout E) (unique (map e_person_name evidence))"
  have ssn: "set sn = s_person_name ` set submission"
    using assms(1) by (simp add: sn_def set_py_set set_unique)
  have sen: "set en = e_person_name ` set evidence"
    using assms(1) by (simp add: en_def set_py_set set_unique)
  from assms(3) have e: "minus_set (name_layout E) en sn = []"
    unfolding minus_set_empty_iff [OF assms(1)] ssn sen by simp
  from assms(3) have m: "minus_set (name_layout E) sn en = []"
    unfolding minus_set_empty_iff [OF assms(1)] ssn sen by simp
  from e m show ?thesis
    unfolding evidence_person_names_distinct [OF assms(2)] sn_def [symmetric] en_def [symmetric]
    by simp
qed

lemma raised_simps [simp]: "raised (Inl e) = Some e" "raised (Inr x) = None"
  by (simp_all add: raised_def)

lemma first_raised_append:
  "first_raised (xs @ ys) = (case first_raised xs of None \<Rightarrow> first_raised ys | Some e \<Rightarrow> Some e)"
  by (induction xs rule: first_raised.induct) simp_all

lemma first_raised_None: "first_raised steps = None \<longleftrightarrow> (\<forall>s\<in>set steps. s = None)"
  by (induction steps rule: first_raised.induct) simp_all

lemma first_raised_Some:
  "first_raised steps = Some e \<longleftrightarrow>
     (\<exists>i<length steps. steps ! i = Some e \<and> (\<forall>j<i. steps ! j = None))"
proof (induction steps rule: first_raised.induct)
  case 1
  then show ?case by simp
next
  case (2 steps)
  have "(\<exists>i<length (None # steps). (None # steps) ! i = Some e \<and> (\<forall>j<i. (None # steps) ! j = None))
      \<longleftrightarrow> (\<exists>i<length steps. steps ! i = Some e \<and> (\<forall>j<i. steps ! j = None))"
    (is "?L \<longleftrightarrow> ?R")
  proof
    assume ?L
    then obtain i where i: "i < length (None # steps)" "(None # steps) ! i = Some e"
      "\<forall>j<i. (None # steps) ! j = None" by blast
    from i(2) obtain k where k: "i = Suc k" by (cases i) auto
    with i(1,2) have "k < length steps" "steps ! k = Some e" by simp_all
    moreover have "steps ! j = None" if "j < k" for j
      using i(3) k that by (metis Suc_less_eq nth_Cons_Suc)
    ultimately show ?R by blast
  next
    assume ?R
    then obtain k where k: "k < length steps" "steps ! k = Some e" "\<forall>j<k. steps ! j = None"
      by blast
    have "(None # steps) ! j = None" if "j < Suc k" for j
      using k(3) that by (cases j) auto
    with k(1,2) show ?L by (intro exI [of _ "Suc k"]) simp
  qed
  with 2 show ?case by simp
next
  case (3 e' steps)
  show ?case
  proof
    assume "first_raised (Some e' # steps) = Some e"
    then have "e' = e" by simp
    then show "\<exists>i<length (Some e' # steps). (Some e' # steps) ! i = Some e \<and>
        (\<forall>j<i. (Some e' # steps) ! j = None)"
      by (intro exI [of _ 0]) simp
  next
    assume "\<exists>i<length (Some e' # steps). (Some e' # steps) ! i = Some e \<and>
        (\<forall>j<i. (Some e' # steps) ! j = None)"
    then obtain i where i: "(Some e' # steps) ! i = Some e" "\<forall>j<i. (Some e' # steps) ! j = None"
      by blast
    have "i = 0"
    proof (rule ccontr)
      assume "i \<noteq> 0"
      with i(2) have "(Some e' # steps) ! 0 = None" by blast
      then show False by simp
    qed
    with i(1) show "first_raised (Some e' # steps) = Some e" by simp
  qed
qed

lemma outcome_True: "outcome steps = Inr True \<longleftrightarrow> (\<forall>s\<in>set steps. s = None)"
  unfolding first_raised_None [symmetric]
  by (simp add: outcome_def split: option.splits)

lemma outcome_error:
  "outcome steps = Inl e \<longleftrightarrow>
     (\<exists>i<length steps. steps ! i = Some e \<and> (\<forall>j<i. steps ! j = None))"
  unfolding first_raised_Some [symmetric]
  by (simp add: outcome_def split: option.splits)

lemma outcome_append:
  "outcome (xs @ ys) = (case first_raised xs of None \<Rightarrow> outcome ys | Some e \<Rightarrow> Inl e)"
  by (simp add: outcome_def first_raised_append split: option.splits)

lemma call_evidence_outcome:
  "call_evidence E self submission fp =
     (case load_evidence E fp of
        Inl e \<Rightarrow> Inl e
      | Inr evidence \<Rightarrow> outcome (evidence_checks E self submission evidence))"
  by (simp add: call_evidence_def evidence_checks_def outcome_def split: sum.splits)

lemma call_submission_checks:
  assumes "load_submission E fp_submission = Inr submission"
  shows "call E self fp_submission fp_evidence =
     (case first_raised (submission_checks E self submission) of
        Some e \<Rightarrow> Inl e
      | None \<Rightarrow>
         (case fp_evidence of
            None \<Rightarrow> Inr True
          | Some fp \<Rightarrow> if fp \<noteq> [] then call_evidence E self submission fp else Inr True))"
  using assms by (simp add: call_def submission_checks_def split: sum.splits)

lemma call_load_submission_fail:
  "load_submission E fp_submission = Inl e \<Longrightarrow> call E self fp_submission fp_evidence = Inl e"
  by (simp add: call_def)

lemma call_without_evidence:
  assumes "load_submission E fp_submission = Inr submission" "\<not> truthy fp_evidence"
  shows "call E self fp_submission fp_evidence = outcome (submission_checks E self submission)"
  using assms(2) unfolding call_submission_checks [OF assms(1)]
  by (cases fp_evidence) (simp_all add: outcome_def split: option.splits)

lemma call_load_evidence_fail:
  assumes "load_submission E fp_submission = Inr submission" "fp \<noteq> []"
    and "load_evidence E fp = Inl e"
  shows "call E self fp_submission (Some fp) =
           outcome (submission_checks E self submission @ [Some e])"
  using assms(2,3) unfolding call_submission_checks [OF assms(1)] outcome_append
  by (simp add: call_evidence_outcome outcome_def split: option.splits)

lemma call_with_evidence:
  assumes "load_submission E fp_submission = Inr submission" "fp \<noteq> []"
    and "load_evidence E fp = Inr evidence"
  shows "call E self fp_submission (Some fp) =
           outcome (submission_checks E self submission @
                    evidence_checks E self submission evidence)"
  using assms(2,3) unfolding call_submission_checks [OF assms(1)] outcome_append
  by (simp add: call_evidence_outcome split: option.splits)

lemmas eval_defs =
  submission_person_names_def submission_shots_def submission_confidence_def
  evidence_videos_def evidence_timestamps_def evidence_person_names_def
  evidence_modalities_def submission_checks_def evidence_checks_def
  load_submission_def load_evidence_def
  py_set_def minus_set_def issubset_def pop_def unique_def duplicated_def select_def
  any_def np_where_def insertion_order_def ALLOWED_CHARACTERS_def ascii_lowercase_def
  files_def unrestricted_def with_shots_def

lemma evidence_videos_unfold:
  "videos_set self = Some reference \<Longrightarrow>
   evidence_videos E self evidence =
     (let invalid_videos = minus_set (video_layout E)
        (py_set (video_layout E) (map (\<lambda>r. (e_corpus_id r, e_video_id r)) evidence))
        reference
      in if invalid_videos \<noteq> [] then
           (case pop invalid_videos of Inl e \<Rightarrow> Inl e | Inr (c, v) \<Rightarrow> Inl (InvalidVideo c v))
         else Inr True)"
  by (simp add: evidence_videos_def)

lemma evidence_videos_pass:
  assumes "layout_ok (video_layout E)" "videos_set self = Some reference"
  shows "evidence_videos E self evidence = Inr b \<longleftrightarrow>
           b \<and> (\<forall>r\<in>set evidence. (e_corpus_id r, e_video_id r) \<in> set reference)"
proof -
  define videos where "videos =
     py_set (video_layout E) (map (\<lambda>r. (e_corpus_id r, e_video_id r)) evidence)"
  define inv where "inv = minus_set (video_layout E) videos reference"
  have sv: "set videos = (\<lambda>r. (e_corpus_id r, e_video_id r)) ` set evidence"
    using assms(1) by (simp add: videos_def set_py_set)
  have res: "evidence_videos E self evidence =
      (if inv \<noteq> [] then (case pop inv of Inl e \<Rightarrow> Inl e | Inr (c, v) \<Rightarrow> Inl (InvalidVideo c v))
       else Inr True)"
    using evidence_videos_unfold [OF assms(2)] by (simp add: inv_def videos_def)
  have em: "inv = [] \<longleftrightarrow>
      (\<forall>r\<in>set evidence. (e_corpus_id r, e_video_id r) \<in> set reference)"
    unfolding inv_def minus_set_empty_iff [OF assms(1)] sv by blast
  show ?thesis
  proof (cases "inv = []")
    case True
    with res em show ?thesis by auto
  next
    case False
    from pop_in [OF False] obtain x where "pop inv = Inr x" by blast
    with False res em show ?thesis by (simp split: prod.splits)
  qed
qed

lemma evidence_videos_fail:
  assumes "layout_ok (video_layout E)" "videos_set self = Some reference"
    and "evidence_videos E self evidence = Inl e"
  shows "\<exists>r\<in>set evidence. e = InvalidVideo (e_corpus_id r) (e_video_id r) \<and>
           (e_corpus_id r, e_video_id r) \<notin> set reference"
proof -
  define videos where "videos =
     py_set (video_layout E) (map (\<lambda>r. (e_corpus_id r, e_video_id r)) evidence)"
  define inv where "inv = minus_set (video_layout E) videos reference"
  have sv: "set videos = (\<lambda>r. (e_corpus_id r, e_video_id r)) ` set evidence"
    using assms(1) by (simp add: videos_def set_py_set)
  have res: "evidence_videos E self evidence =
      (if inv \<noteq> [] then (case pop inv of Inl e \<Rightarrow> Inl e | Inr (c, v) \<Rightarrow> Inl (InvalidVideo c v))
       else Inr True)"
    using evidence_videos_unfold [OF assms(2)] by (simp add: inv_def videos_def)
  from assms(3) res have ne: "inv \<noteq> []" by (auto split: if_splits)
  from pop_minus_set [OF assms(1)] ne obtain x
    where x: "pop inv = Inr x" "x \<in> set videos" "x \<notin> set reference"
    unfolding inv_def by blast
  obtain c v where cv: "x = (c, v)" by (cases x) auto
  from assms(3) res ne x(1) cv have "e = InvalidVideo c v" by simp
  moreover from x(2) sv cv obtain r where "r \<in> set evidence"
    "(c, v) = (e_corpus_id r, e_video_id r)" by blast
  ultimately show ?thesis using x(3) cv by auto
qed

lemma evidence_videos_total:
  assumes "layout_ok (video_layout E)" "videos_set self = Some reference"
  shows "(\<exists>e. evidence_videos E self evidence = Inl e) \<longleftrightarrow>
           (\<exists>r\<in>set evidence. (e_corpus_id r, e_video_id r) \<notin> set reference)"
proof
  assume "\<exists>e. evidence_videos E self evidence = Inl e"
  then obtain e where "evidence_videos E self evidence = Inl e" ..
  from evidence_videos_fail [OF assms this]
  show "\<exists>r\<in>set evidence. (e_corpus_id r, e_video_id r) \<notin> set reference"
    by blast
next
  assume "\<exists>r\<in>set evidence. (e_corpus_id r, e_video_id r) \<notin> set reference"
  then have "evidence_videos E self evidence \<noteq> Inr b" for b
    using evidence_videos_pass [OF assms, of evidence b] by blast
  then show "\<exists>e. evidence_videos E self evidence = Inl e"
    by (cases "evidence_videos E self evidence") auto
qed

lemma submission_checks_shots_set:
  "\<not> truthy (shots self) \<Longrightarrow>
   submission_checks E (self\<lparr>shots_set := x\<rparr>) submission = submission_checks E self submission"
  by (simp add: submission_checks_def)

lemma evidence_checks_shots_set:
  "evidence_checks E (self\<lparr>shots_set := x\<rparr>) submission evidence =
   evidence_checks E self submission evidence"
  by (simp add: evidence_checks_def evidence_videos_def)

lemma submission_checks_videos_set:
  "submission_checks E (self\<lparr>videos_set := x\<rparr>) submission = submission_checks E self submission"
  by (simp add: submission_checks_def submission_shots_def)

lemma evidence_checks_videos_set:
  "\<not> truthy (videos self) \<Longrightarrow>
   evidence_checks E (self\<lparr>videos_set := x\<rparr>) submission evidence =
   evidence_checks E self submission evidence"
  by (simp add: evidence_checks_def)

lemma call_eq_steps:
  "call E self fp_submission fp_evidence =
     (case load_submission E fp_submission of
        Inl e \<Rightarrow> Inl e
      | Inr submission \<Rightarrow>
          outcome (submission_checks E self submission @
            (case fp_evidence of
               None \<Rightarrow> []
             | Some fp \<Rightarrow>
                 if fp \<noteq> [] then
                   (case load_evidence E fp of
                      Inl e \<Rightarrow> [Some e]
                    | Inr evidence \<Rightarrow> evidence_checks E self submission evidence)
                 else [])))"
proof (cases "load_submission E fp_submission")
  case (Inl e)
  then show ?thesis by (simp add: call_load_submission_fail)
next
  case (Inr submission)
  show ?thesis
  proof (cases "truthy fp_evidence")
    case False
    from call_without_evidence [OF Inr False] Inr False show ?thesis
      by (cases fp_evidence) simp_all
  next
    case True
    then obtain fp where fp: "fp_evidence = Some fp" "fp \<noteq> []"
      by (cases fp_evidence) auto
    show ?thesis
    proof (cases "load_evidence E fp")
      case (Inl e)
      from call_load_evidence_fail [OF Inr fp(2) Inl] Inr fp Inl show ?thesis by simp
    next
      case r: (Inr evidence)
      from call_with_evidence [OF Inr fp(2) r] Inr fp r show ?thesis by simp
    qed
  qed
qed

lemma call_shots_set_irrelevant:
  assumes "\<not> truthy (shots self)"
  shows "call E (self\<lparr>shots_set := x\<rparr>) fp_submission fp_evidence =
         call E self fp_submission fp_evidence"
  unfolding call_eq_steps
  by (simp add: submission_checks_shots_set [OF assms] evidence_checks_shots_set
      cong: sum.case_cong option.case_cong if_cong)

lemma call_videos_set_irrelevant:
  assumes "\<not> truthy (videos self)"
  shows "call E (self\<lparr>videos_set := x\<rparr>) fp_submission fp_evidence =
         call E self fp_submission fp_evidence"
  unfolding call_eq_steps
  by (simp add: submission_checks_videos_set evidence_checks_videos_set [OF assms]
      cong: sum.case_cong option.case_cong if_cong)

lemma map_select: "map f (select rows bs) = select (map f rows) bs"
proof (induction rows arbitrary: bs)
  case Nil
  then show ?case by (simp add: select_Nil)
next
  case (Cons a rows)
  then show ?case
  proof (cases bs)
    case Nil
    then show ?thesis by (simp add: select_def)
  next
    case (Cons b bs')
    with Cons.IH show ?thesis by (simp add: select_Cons)
  qed
qed

lemma submission_checks_columns:
  assumes "\<not> truthy (shots self)"
    and "map s_person_name submission = map s_person_name submission'"
    and "map confidence submission = map confidence submission'"
  shows "submission_checks E self submission = submission_checks E self submission'"
  using assms
  by (simp add: submission_checks_def submission_person_names_def submission_confidence_def)

lemma evidence_person_names_columns:
  assumes "map s_person_name submission = map s_person_name submission'"
    and "map e_person_name evidence = map e_person_name evidence'"
  shows "evidence_person_names E submission evidence =
         evidence_person_names E submission' evidence'"
  unfolding evidence_person_names_def map_select assms by (rule refl)

lemma evidence_checks_columns:
  assumes "\<not> truthy (videos self)"
    and "map s_person_name submission = map s_person_name submission'"
    and "map e_person_name evidence = map e_person_name evidence'"
    and "map modality evidence = map modality evidence'"
    and "map timestamp evidence = map timestamp evidence'"
  shows "evidence_checks E self submission evidence =
         evidence_checks E self submission' evidence'"
  using assms(1,4,5) evidence_person_names_columns [OF assms(2,3), of E]
  by (simp add: evidence_checks_def evidence_timestamps_def evidence_modalities_def)

lemma evidence_checks_submission_columns:
  assumes "map s_person_name submission = map s_person_name submission'"
  shows "evidence_checks E self submission evidence =
         evidence_checks E self submission' evidence"
  using evidence_person_names_columns [OF assms refl, of E evidence]
  by (simp add: evidence_checks_def)

lemma call_shot_columns:
  assumes "\<not> truthy (shots self)"
    and "load_submission E fp = Inr submission" "load_submission E fp' = Inr submission'"
    and "map s_person_name submission = map s_person_name submission'"
    and "map confidence submission = map confidence submission'"
  shows "call E self fp fp_evidence = call E self fp' fp_evidence"
  unfolding call_eq_steps
  using assms(2,3) submission_checks_columns [OF assms(1,4,5), of E]
    evidence_checks_submission_columns [OF assms(4), of E self]
  by (simp cong: sum.case_cong option.case_cong if_cong)

lemma call_video_columns:
  assumes "\<not> truthy (videos self)"
    and "load_evidence E fp = Inr evidence" "load_evidence E fp' = Inr evidence'"
    and "map e_person_name evidence = map e_person_name evidence'"
    and "map modality evidence = map modality evidence'"
    and "map timestamp evidence = map timestamp evidence'"
    and "fp = [] \<longleftrightarrow> fp' = []"
  shows "call E self fp_submission (Some fp) = call E self fp_submission (Some fp')"
  unfolding call_eq_steps
  using assms(2,3,7) evidence_checks_columns [OF assms(1) refl assms(4,5,6), of E]
  by (simp cong: sum.case_cong if_cong)

lemma init_with_videos: "init files None (Some ''videos.lst'') = Inr with_videos"
  by (simp add: init_def load_videos_def files_def py_set_def unique_def insertion_order_def
      with_videos_def)

lemma call_videos_fail:
  assumes "layout_ok (video_layout E)" "videos_set self = Some reference" "truthy (videos self)"
    and "load_submission E fp_submission = Inr submission"
    and "fp \<noteq> []" "load_evidence E fp = Inr evidence"
    and "\<exists>r\<in>set evidence. (e_corpus_id r, e_video_id r) \<notin> set reference"
  shows "(\<exists>e. call E self fp_submission (Some fp) = Inl e) \<and>
         (outcome (submission_checks E self submission) = Inr True \<longrightarrow>
            (\<exists>r\<in>set evidence.
               call E self fp_submission (Some fp) = Inl (InvalidVideo (e_corpus_id r) (e_video_id r)) \<and>
               (e_corpus_id r, e_video_id r) \<notin> set reference))"
proof -
  from assms(7) evidence_videos_total [OF assms(1,2), of evidence]
  obtain e where e: "evidence_videos E self evidence = Inl e" by blast
  from evidence_videos_fail [OF assms(1,2) e] obtain r
    where r: "r \<in> set evidence" "e = InvalidVideo (e_corpus_id r) (e_video_id r)"
      "(e_corpus_id r, e_video_id r) \<notin> set reference"
    by blast
  from e assms(3) have ev: "outcome (evidence_checks E self submission evidence) = Inl e"
    by (simp add: evidence_checks_def outcome_def)
  have c: "call E self fp_submission (Some fp) =
      (case first_raised (submission_checks E self submission) of
         None \<Rightarrow> Inl e | Some e' \<Rightarrow> Inl e')"
    unfolding call_with_evidence [OF assms(4,5,6)] outcome_append ev ..
  then have "\<exists>e. call E self fp_submission (Some fp) = Inl e"
    by (cases "first_raised (submission_checks E self submission)") auto
  moreover have "call E self fp_submission (Some fp) = Inl e"
    if "outcome (submission_checks E self submission) = Inr True"
  proof -
    from that have "first_raised (submission_checks E self submission) = None"
      by (simp add: outcome_def split: option.splits)
    with c show ?thesis by simp
  qed
  ultimately show ?thesis using r by blast
qed

lemma no_shot_list:
  assumes "\<not> truthy (shots self)"
  shows "(\<forall>x. call E (self\<lparr>shots_set := x\<rparr>) fp_submission fp_evidence =
              call E self fp_submission fp_evidence)
       \<and> (\<forall>fp' submission submission'.
            load_submission E fp_submission = Inr submission \<and>
            load_submission E fp' = Inr submission' \<and>
            map s_person_name submission = map s_person_name submission' \<and>
            map confidence submission = map confidence submission' \<longrightarrow>
            call E self fp' fp_evidence = call E self fp_submission fp_evidence)"
proof (intro conjI allI impI)
  fix x
  show "call E (self\<lparr>shots_set := x\<rparr>) fp_submission fp_evidence =
        call E self fp_submission fp_evidence"
    by (rule call_shots_set_irrelevant [OF assms])
next
  fix fp' submission submission'
  assume a: "load_submission E fp_submission = Inr submission \<and>
            load_submission E fp' = Inr submission' \<and>
            map s_person_name submission = map s_person_name submission' \<and>
            map confidence submission = map confidence submission'"
  then have "load_submission E fp_submission = Inr submission"
    "load_submission E fp' = Inr submission'"
    "map s_person_name submission = map s_person_name submission'"
    "map confidence submission = map confidence submission'"
    by simp_all
  from call_shot_columns [OF assms this]
  show "call E self fp' fp_evidence = call E self fp_submission fp_evidence" by simp
qed

lemma no_video_list:
  assumes "\<not> truthy (videos self)"
  shows "(\<forall>x. call E (self\<lparr>videos_set := x\<rparr>) fp_submission fp_evidence =
              call E self fp_submission fp_evidence)
       \<and> (\<forall>fp fp' evidence evidence'.
            fp \<noteq> [] \<and> fp' \<noteq> [] \<and>
            load_evidence E fp = Inr evidence \<and> load_evidence E fp' = Inr evidence' \<and>
            map e_person_name evidence = map e_person_name evidence' \<and>
            map modality evidence = map modality evidence' \<and>
            map timestamp evidence = map timestamp evidence' \<longrightarrow>
            call E self fp_submission (Some fp') = call E self fp_submission (Some fp))"
proof (intro conjI allI impI)
  fix x
  show "call E (self\<lparr>videos_set := x\<rparr>) fp_submission fp_evidence =
        call E self fp_submission fp_evidence"
    by (rule call_videos_set_irrelevant [OF assms])
next
  fix fp fp' evidence evidence'
  assume a: "fp \<noteq> [] \<and> fp' \<noteq> [] \<and>
            load_evidence E fp = Inr evidence \<and> load_evidence E fp' = Inr evidence' \<and>
            map e_person_name evidence = map e_person_name evidence' \<and>
            map modality evidence = map modality evidence' \<and>
            map timestamp evidence = map timestamp evidence'"
  then have l: "load_evidence E fp = Inr evidence" "load_evidence E fp' = Inr evidence'"
    "map e_person_name evidence = map e_person_name evidence'"
    "map modality evidence = map modality evidence'"
    "map timestamp evidence = map timestamp evidence'"
    and "fp = [] \<longleftrightarrow> fp' = []"
    by simp_all
  from call_video_columns [OF assms this]
  show "call E self fp_submission (Some fp') = call E self fp_submission (Some fp)" by simp
qed

lemma video_list:
  assumes "layout_ok (video_layout E)"
    and "init E shots_path (Some path) = Inr self" "path \<noteq> []"
  shows "\<exists>rows. read_videos E path = Inr rows \<and> truthy (videos self) \<and>
     (\<forall>evidence.
        ((\<exists>e. evidence_videos E self evidence = Inl e) \<longleftrightarrow>
           (\<exists>r\<in>set evidence. (e_corpus_id r, e_video_id r) \<notin> set rows))
      \<and> (\<forall>e. evidence_videos E self evidence = Inl e \<longrightarrow>
           (\<exists>r\<in>set evidence. e = InvalidVideo (e_corpus_id r) (e_video_id r) \<and>
              (e_corpus_id r, e_video_id r) \<notin> set rows))
      \<and> (\<forall>submission fp.
           load_submission E fp_submission = Inr submission \<and> fp \<noteq> [] \<and>
           load_evidence E fp = Inr evidence \<and>
           (\<exists>r\<in>set evidence. (e_corpus_id r, e_video_id r) \<notin> set rows) \<longrightarrow>
             (\<exists>e. call E self fp_submission (Some fp) = Inl e) \<and>
             (outcome (submission_checks E self submission) = Inr True \<longrightarrow>
                (\<exists>r\<in>set evidence.
                   call E self fp_submission (Some fp) =
                     Inl (InvalidVideo (e_corpus_id r) (e_video_id r)) \<and>
                   (e_corpus_id r, e_video_id r) \<notin> set rows))))"
proof -
  from init_videos_set [OF assms(2,3)] obtain rows reference
    where rows: "read_videos E path = Inr rows"
      and ref: "videos_set self = Some reference"
      and "reference = py_set (video_layout E) (map (\<lambda>(c, v). (c, v)) rows)"
    by blast
  then have sref: "set reference = set rows"
    using assms(1) by (simp add: set_py_set)
  have gate: "truthy (videos self)"
    using init_fields(2) [OF assms(2)] assms(3) by simp
  have "((\<exists>e. evidence_videos E self evidence = Inl e) \<longleftrightarrow>
           (\<exists>r\<in>set evidence. (e_corpus_id r, e_video_id r) \<notin> set rows))
      \<and> (\<forall>e. evidence_videos E self evidence = Inl e \<longrightarrow>
           (\<exists>r\<in>set evidence. e = InvalidVideo (e_corpus_id r) (e_video_id r) \<and>
              (e_corpus_id r, e_video_id r) \<notin> set rows))
      \<and> (\<forall>submission fp.
           load_submission E fp_submission = Inr submission \<and> fp \<noteq> [] \<and>
           load_evidence E fp = Inr evidence \<and>
           (\<exists>r\<in>set evidence. (e_corpus_id r, e_video_id r) \<notin> set rows) \<longrightarrow>
             (\<exists>e. call E self fp_submission (Some fp) = Inl e) \<and>
             (outcome (submission_checks E self submission) = Inr True \<longrightarrow>
                (\<exists>r\<in>set evidence.
                   call E self fp_submission (Some fp) =
                     Inl (InvalidVideo (e_corpus_id r) (e_video_id r)) \<and>
                   (e_corpus_id r, e_video_id r) \<notin> set rows)))" for evidence
  proof (intro conjI allI impI)
    show "(\<exists>e. evidence_videos E self evidence = Inl e) \<longleftrightarrow>
           (\<exists>r\<in>set evidence. (e_corpus_id r, e_video_id r) \<notin> set rows)"
      using evidence_videos_total [OF assms(1) ref, of evidence] unfolding sref .
  next
    fix e assume "evidence_videos E self evidence = Inl e"
    from evidence_videos_fail [OF assms(1) ref this]
    show "\<exists>r\<in>set evidence. e = InvalidVideo (e_corpus_id r) (e_video_id r) \<and>
              (e_corpus_id r, e_video_id r) \<notin> set rows"
      unfolding sref .
  next
    fix submission fp
    assume a: "load_submission E fp_submission = Inr submission \<and> fp \<noteq> [] \<and>
           load_evidence E fp = Inr evidence \<and>
           (\<exists>r\<in>set evidence. (e_corpus_id r, e_video_id r) \<notin> set rows)"
    then have b: "load_submission E fp_submission = Inr submission" "fp \<noteq> []"
      "load_evidence E fp = Inr evidence"
      "\<exists>r\<in>set evidence. (e_corpus_id r, e_video_id r) \<notin> set reference"
      unfolding sref by simp_all
    note r = call_videos_fail [OF assms(1) ref gate b, unfolded sref]
    from r show "\<exists>e. call E self fp_submission (Some fp) = Inl e" by (rule conjunct1)
    assume "outcome (submission_checks E self submission) = Inr True"
    with r show "\<exists>r\<in>set evidence.
                   call E self fp_submission (Some fp) =
                     Inl (InvalidVideo (e_corpus_id r) (e_video_id r)) \<and>
                   (e_corpus_id r, e_video_id r) \<notin> set rows"
      by (elim conjE impE)
  qed
  with rows gate show ?thesis by blast
qed

lemma extends_refl: "extends h h"
  by (simp add: extends_def)

lemma extends_trans:
  assumes "extends h1 h2" "extends h2 h3"
  shows "extends h1 h3"
proof -
  from assms have l: "length h1 \<le> length h2" "length h2 \<le> length h3"
    and t: "take (length h1) h2 = h1" "take (length h2) h3 = h2"
    by (simp_all add: extends_def)
  from l(1) have "take (length h1) h3 = take (length h1) (take (length h2) h3)"
    by (simp add: min_def)
  with t have "take (length h1) h3 = h1" by simp
  with l show ?thesis by (simp add: extends_def)
qed

lemma extends_append: "extends h (h @ xs)"
  by (simp add: extends_def)

lemma extends_update: "extends h h' \<Longrightarrow> length h \<le> a \<Longrightarrow> extends h (h'[a := s])"
  by (simp add: extends_def)

lemma extends_nth: "extends h h' \<Longrightarrow> a < length h \<Longrightarrow> h' ! a = h ! a"
  unfolding extends_def by (metis nth_take)

lemma extends_deref: "extends h h' \<Longrightarrow> a < length h \<Longrightarrow> deref h' a = deref h a"
  using extends_nth [of h h' a] by (simp add: deref_def extends_def)

lemma deref_new: "deref (h @ [s]) (length h) = s"
  by (simp add: deref_def)

lemma deref_old: "a < length h \<Longrightarrow> deref (h @ [s]) a = deref h a"
  by (simp add: deref_def nth_append)

lemma set_pop_value: "fst (set_pop a h) = pop (deref h a)"
  by (simp add: set_pop_def pop_def split: list.splits)

lemma set_pop_extends: "length h0 \<le> a \<Longrightarrow> extends h0 h \<Longrightarrow> extends h0 (snd (set_pop a h))"
  by (simp add: set_pop_def extends_update split: list.splits)

lemma evidence_videos_Inr: "evidence_videos E self evidence = Inr b \<Longrightarrow> b"
  by (auto simp: evidence_videos_def Let_def pop_def split: option.splits if_splits sum.splits
      list.splits prod.splits)

lemma call_alone_videos:
  assumes "truthy (videos self)"
    and "load_submission E fp_submission = Inr submission"
    and "fp \<noteq> []" "load_evidence E fp = Inr evidence"
    and "outcome (submission_checks E self submission) = Inr True"
    and "evidence_timestamps evidence = Inr True"
    and "evidence_person_names E submission evidence = Inr True"
    and "evidence_modalities E evidence = Inr ()"
  shows "call E self fp_submission (Some fp) = evidence_videos E self evidence"
proof -
  from assms(5) have none: "first_raised (submission_checks E self submission) = None"
    by (simp add: outcome_def split: option.splits)
  have "call E self fp_submission (Some fp) =
      outcome (evidence_checks E self submission evidence)"
    unfolding call_with_evidence [OF assms(2,3,4)] outcome_append none by simp
  also have "\<dots> = (case evidence_videos E self evidence of Inl e \<Rightarrow> Inl e | Inr _ \<Rightarrow> Inr True)"
    using assms(1,6,7,8) by (simp add: evidence_checks_def outcome_def split: sum.splits)
  also have "\<dots> = evidence_videos E self evidence"
  proof (cases "evidence_videos E self evidence")
    case (Inl e)
    then show ?thesis by simp
  next
    case (Inr b)
    from evidence_videos_Inr [OF Inr] Inr show ?thesis by simp
  qed
  finally show ?thesis .
qed

lemma video_list_alone:
  assumes "layout_ok (video_layout E)"
    and "init E shots_path (Some path) = Inr self" "path \<noteq> []"
    and "read_videos E path = Inr rows"
  shows "\<forall>evidence submission fp.
           load_submission E fp_submission = Inr submission \<and> fp \<noteq> [] \<and>
           load_evidence E fp = Inr evidence \<and>
           outcome (submission_checks E self submission) = Inr True \<and>
           evidence_timestamps evidence = Inr True \<and>
           evidence_person_names E submission evidence = Inr True \<and>
           evidence_modalities E evidence = Inr () \<longrightarrow>
             ((\<exists>e. call E self fp_submission (Some fp) = Inl e) \<longleftrightarrow>
                (\<exists>r\<in>set evidence. (e_corpus_id r, e_video_id r) \<notin> set rows)) \<and>
             (\<forall>e. call E self fp_submission (Some fp) = Inl e \<longrightarrow>
                (\<exists>r\<in>set evidence. e = InvalidVideo (e_corpus_id r) (e_video_id r) \<and>
                   (e_corpus_id r, e_video_id r) \<notin> set rows)) \<and>
             ((\<forall>r\<in>set evidence. (e_corpus_id r, e_video_id r) \<in> set rows) \<longrightarrow>
                call E self fp_submission (Some fp) = Inr True)"
proof (intro allI impI)
  fix evidence submission fp
  assume a: "load_submission E fp_submission = Inr submission \<and> fp \<noteq> [] \<and>
           load_evidence E fp = Inr evidence \<and>
           outcome (submission_checks E self submission) = Inr True \<and>
           evidence_timestamps evidence = Inr True \<and>
           evidence_person_names E submission evidence = Inr True \<and>
           evidence_modalities E evidence = Inr ()"
  from init_videos_set [OF assms(2,3)] assms(4) obtain reference
    where ref: "videos_set self = Some reference"
      and "reference = py_set (video_layout E) (map (\<lambda>(c, v). (c, v)) rows)"
    by auto
  then have sref: "set reference = set rows"
    using assms(1) by (simp add: set_py_set)
  have gate: "truthy (videos self)"
    using init_fields(2) [OF assms(2)] assms(3) by simp
  from a have b: "load_submission E fp_submission = Inr submission" "fp \<noteq> []"
    "load_evidence E fp = Inr evidence"
    "outcome (submission_checks E self submission) = Inr True"
    "evidence_timestamps evidence = Inr True"
    "evidence_person_names E submission evidence = Inr True"
    "evidence_modalities E evidence = Inr ()"
    by simp_all
  note eq = call_alone_videos [OF gate b]
  have 1: "(\<exists>e. call E self fp_submission (Some fp) = Inl e) \<longleftrightarrow>
                (\<exists>r\<in>set evidence. (e_corpus_id r, e_video_id r) \<notin> set rows)"
    unfolding eq using evidence_videos_total [OF assms(1) ref, of evidence] unfolding sref .
  have 2: "\<forall>e. call E self fp_submission (Some fp) = Inl e \<longrightarrow>
                (\<exists>r\<in>set evidence. e = InvalidVideo (e_corpus_id r) (e_video_id r) \<and>
                   (e_corpus_id r, e_video_id r) \<notin> set rows)"
    unfolding eq using evidence_videos_fail [OF assms(1) ref, of evidence] unfolding sref
    by blast
  have 3: "(\<forall>r\<in>set evidence. (e_corpus_id r, e_video_id r) \<in> set rows) \<longrightarrow>
                call E self fp_submission (Some fp) = Inr True"
    unfolding eq using evidence_videos_pass [OF assms(1) ref, of evidence True] unfolding sref
    by blast
  show "((\<exists>e. call E self fp_submission (Some fp) = Inl e) \<longleftrightarrow>
                (\<exists>r\<in>set evidence. (e_corpus_id r, e_video_id r) \<notin> set rows)) \<and>
             (\<forall>e. call E self fp_submission (Some fp) = Inl e \<longrightarrow>
                (\<exists>r\<in>set evidence. e = InvalidVideo (e_corpus_id r) (e_video_id r) \<and>
                   (e_corpus_id r, e_video_id r) \<notin> set rows)) \<and>
             ((\<forall>r\<in>set evidence. (e_corpus_id r, e_video_id r) \<in> set rows) \<longrightarrow>
                call E self fp_submission (Some fp) = Inr True)"
    by (rule conjI, fact 1, rule conjI, fact 2, fact 3)
qed

lemma deref_fresh:
  "deref (h @ x0 # xs) (length h) = x0"
  "deref (h @ x0 # x1 # xs) (Suc (length h)) = x1"
  "deref (h @ x0 # x1 # x2 # xs) (Suc (Suc (length h))) = x2"
  "deref (h @ x0 # x1 # x2 # x3 # xs) (Suc (Suc (Suc (length h)))) = x3"
  by (simp_all add: deref_def nth_append)

lemma deref_append: "a < length h \<Longrightarrow> deref (h @ xs) a = deref h a"
  by (simp add: deref_def nth_append)

lemma extends_append_update: "length h \<le> a \<Longrightarrow> extends h ((h @ xs)[a := s])"
  by (rule extends_update [OF extends_append])

lemma submission_person_names_st:
  "fst (submission_person_names_st E submission h) = submission_person_names E submission \<and>
   extends h (snd (submission_person_names_st E submission h))"
  by (simp add: submission_person_names_st_def submission_person_names_def set_new_def
      alloc_def deref_fresh extends_append)

lemma submission_shots_st:
  assumes "shots_set v = map_option (deref h) (o_shots_ref self)"
    and "\<forall>a. o_shots_ref self = Some a \<longrightarrow> a < length h"
  shows "fst (submission_shots_st E self submission h) = submission_shots E v submission \<and>
         extends h (snd (submission_shots_st E self submission h))"
proof (cases "o_shots_ref self")
  case None
  with assms(1) show ?thesis
    by (simp add: submission_shots_st_def submission_shots_def set_new_def alloc_def
        extends_append)
next
  case (Some a)
  with assms(2) have a: "a < length h" by simp
  define shots where "shots = py_set (shot_layout E)
      (map (\<lambda>r. (s_corpus_id r, s_video_id r, s_shot_id r)) submission)"
  define m where "m = minus_set (shot_layout E) shots (deref h a)"
  have ref: "shots_set v = Some (deref h a)" using assms(1) Some by simp
  have val: "submission_shots E v submission =
      (if m \<noteq> [] then (case pop m of Inl e \<Rightarrow> Inl e | Inr (c, v, s) \<Rightarrow> Inl (InvalidShot c v s))
       else Inr True)"
    using submission_shots_unfold [OF ref] by (simp add: m_def shots_def)
  have st: "submission_shots_st E self submission h =
      (if m \<noteq> [] then
         (case pop m of Inl e \<Rightarrow> Inl e | Inr (c, v, s) \<Rightarrow> Inl (InvalidShot c v s),
          (h @ [shots, m])[Suc (length h) := tl m])
       else (Inr True, h @ [shots, m]))"
    using a Some
    by (cases m)
       (simp_all add: submission_shots_st_def set_new_def set_sub_def alloc_def set_truth_def
          set_pop_def deref_fresh deref_append pop_def shots_def [symmetric] m_def [symmetric]
          split: prod.splits)
  have "extends h (h @ xs)" for xs :: "shot heap" by (rule extends_append)
  moreover have "extends h ((h @ xs)[Suc (length h) := s])" for xs :: "shot heap" and s
    by (rule extends_append_update) simp
  ultimately show ?thesis unfolding st val by simp
qed

lemma evidence_videos_st:
  assumes "videos_set v = map_option (deref h) (o_videos_ref self)"
    and "\<forall>a. o_videos_ref self = Some a \<longrightarrow> a < length h"
  shows "fst (evidence_videos_st E self evidence h) = evidence_videos E v evidence \<and>
         extends h (snd (evidence_videos_st E self evidence h))"
proof (cases "o_videos_ref self")
  case None
  with assms(1) show ?thesis
    by (simp add: evidence_videos_st_def evidence_videos_def set_new_def alloc_def
        extends_append)
next
  case (Some a)
  with assms(2) have a: "a < length h" by simp
  define videos where "videos = py_set (video_layout E)
      (map (\<lambda>r. (e_corpus_id r, e_video_id r)) evidence)"
  define m where "m = minus_set (video_layout E) videos (deref h a)"
  have ref: "videos_set v = Some (deref h a)" using assms(1) Some by simp
  have val: "evidence_videos E v evidence =
      (if m \<noteq> [] then (case pop m of Inl e \<Rightarrow> Inl e | Inr (c, v) \<Rightarrow> Inl (InvalidVideo c v))
       else Inr True)"
    using evidence_videos_unfold [OF ref] by (simp add: m_def videos_def)
  have st: "evidence_videos_st E self evidence h =
      (if m \<noteq> [] then
         (case pop m of Inl e \<Rightarrow> Inl e | Inr (c, v) \<Rightarrow> Inl (InvalidVideo c v),
          (h @ [videos, m])[Suc (length h) := tl m])
       else (Inr True, h @ [videos, m]))"
    using a Some
    by (cases m)
       (simp_all add: evidence_videos_st_def set_new_def set_sub_def alloc_def set_truth_def
          set_pop_def deref_fresh deref_append pop_def videos_def [symmetric] m_def [symmetric]
          split: prod.splits)
  have "extends h (h @ xs)" for xs :: "video heap" by (rule extends_append)
  moreover have "extends h ((h @ xs)[Suc (length h) := s])" for xs :: "video heap" and s
    by (rule extends_append_update) simp
  ultimately show ?thesis unfolding st val by simp
qed

lemma evidence_modalities_st:
  "fst (evidence_modalities_st E evidence h) = evidence_modalities E evidence \<and>
   extends h (snd (evidence_modalities_st E evidence h))"
proof -
  define modalities where "modalities = py_set (str_layout E) (unique (map modality evidence))"
  define m where "m = minus_set (str_layout E) modalities [''written'', ''pronounced'']"
  have val: "evidence_modalities E evidence =
      (if \<not> issubset modalities [''written'', ''pronounced''] then
         (case pop m of Inl e \<Rightarrow> Inl e | Inr x \<Rightarrow> Inl (IncorrectModality x))
       else Inr ())"
    by (simp add: evidence_modalities_def modalities_def m_def)
  have same: "(h @ [a, b])[Suc (length h) := b] = h @ [a, b]" for a b :: "string list"
    by (simp add: list_update_append)
  have st: "evidence_modalities_st E evidence h =
      (if \<not> issubset modalities [''written'', ''pronounced''] then
         (case pop m of Inl e \<Rightarrow> Inl e | Inr x \<Rightarrow> Inl (IncorrectModality x),
          (h @ [modalities, m])[Suc (length h) := tl m])
       else (Inr (), h @ [modalities]))"
    by (cases m)
       (simp_all add: evidence_modalities_st_def set_new_def alloc_def set_pop_def
          deref_fresh pop_def same modalities_def [symmetric] m_def [symmetric])
  have "extends h (h @ xs)" for xs :: "string heap" by (rule extends_append)
  moreover have "extends h ((h @ xs)[Suc (length h) := s])" for xs :: "string heap" and s
    by (rule extends_append_update) simp
  ultimately show ?thesis unfolding st val by simp
qed

lemma evidence_person_names_st:
  "fst (evidence_person_names_st E submission evidence h) =
     evidence_person_names E submission evidence \<and>
   extends h (snd (evidence_person_names_st E submission evidence h))"
proof (cases "any (duplicated (map e_person_name evidence))")
  case True
  define names where
    "names = py_set (name_layout E)
       (map e_person_name (select evidence (duplicated (map e_person_name evidence))))"
  have same: "(h @ [b])[length h := b] = h @ [b]" for b :: "cell list"
    by simp
  have val: "evidence_person_names E submission evidence =
      (case pop names of Inl e \<Rightarrow> Inl e | Inr n \<Rightarrow> Inl (DuplicatePersonName n))"
    using True by (simp add: evidence_person_names_def names_def)
  have st: "evidence_person_names_st E submission evidence h =
      (case pop names of Inl e \<Rightarrow> Inl e | Inr n \<Rightarrow> Inl (DuplicatePersonName n),
       (h @ [names])[length h := tl names])"
    using True
    by (cases names)
       (simp_all add: evidence_person_names_st_def set_new_def alloc_def set_pop_def
          deref_fresh pop_def names_def [symmetric])
  have "extends h (h @ xs)" for xs :: "cell heap" by (rule extends_append)
  then show ?thesis unfolding st val by simp
next
  case False
  define sn where "sn = py_set (name_layout E) (unique (map s_person_name submission))"
  define en where "en = py_set (name_layout E) (unique (map e_person_name evidence))"
  define extra where "extra = minus_set (name_layout E) en sn"
  define missing where "missing = minus_set (name_layout E) sn en"
  have val: "evidence_person_names E submission evidence =
      (if extra \<noteq> [] then
         (case pop extra of Inl e \<Rightarrow> Inl e | Inr n \<Rightarrow> Inl (ExtraPersonName n))
       else if missing \<noteq> [] then
         (case pop missing of Inl e \<Rightarrow> Inl e | Inr n \<Rightarrow> Inl (MissingPersonName n))
       else Inr True)"
    using False
    by (simp add: evidence_person_names_def Let_def sn_def en_def extra_def missing_def)
  have st: "evidence_person_names_st E submission evidence h =
      (if extra \<noteq> [] then
         (case pop extra of Inl e \<Rightarrow> Inl e | Inr n \<Rightarrow> Inl (ExtraPersonName n),
          (h @ [sn, en, extra])[Suc (Suc (length h)) := tl extra])
       else if missing \<noteq> [] then
         (case pop missing of Inl e \<Rightarrow> Inl e | Inr n \<Rightarrow> Inl (MissingPersonName n),
          (h @ [sn, en, extra, missing])[Suc (Suc (Suc (length h))) := tl missing])
       else (Inr True, h @ [sn, en, extra, missing]))"
    using False
    by (cases extra; cases missing)
       (simp_all add: evidence_person_names_st_def set_new_def set_sub_def alloc_def
          set_truth_def set_pop_def deref_fresh deref_append pop_def
          sn_def [symmetric] en_def [symmetric] extra_def [symmetric] missing_def [symmetric])
  have "extends h (h @ xs)" for xs :: "cell heap" by (rule extends_append)
  moreover have "extends h ((h @ xs)[Suc (Suc (length h)) := s])" for xs :: "cell heap" and s
    by (rule extends_append_update) simp
  moreover have "extends h ((h @ xs)[Suc (Suc (Suc (length h))) := s])"
    for xs :: "cell heap" and s
    by (rule extends_append_update) simp
  ultimately show ?thesis unfolding st val by simp
qed

lemma on_str_eq: "on_str f \<sigma> = (fst (f (str_sets \<sigma>)), \<sigma>\<lparr>str_sets := snd (f (str_sets \<sigma>))\<rparr>)"
  by (simp add: on_str_def split: prod.splits)

lemma on_names_eq:
  "on_names f \<sigma> = (fst (f (name_sets \<sigma>)), \<sigma>\<lparr>name_sets := snd (f (name_sets \<sigma>))\<rparr>)"
  by (simp add: on_names_def split: prod.splits)

lemma on_shots_eq:
  "on_shots f \<sigma> = (fst (f (shot_sets \<sigma>)), \<sigma>\<lparr>shot_sets := snd (f (shot_sets \<sigma>))\<rparr>)"
  by (simp add: on_shots_def split: prod.splits)

lemma on_videos_eq:
  "on_videos f \<sigma> = (fst (f (video_sets \<sigma>)), \<sigma>\<lparr>video_sets := snd (f (video_sets \<sigma>))\<rparr>)"
  by (simp add: on_videos_def split: prod.splits)

lemma store_extends_refl: "store_extends \<sigma> \<sigma>"
  by (simp add: store_extends_def extends_refl)

lemma store_extends_trans:
  "store_extends \<sigma> \<sigma>' \<Longrightarrow> store_extends \<sigma>' \<sigma>'' \<Longrightarrow> store_extends \<sigma> \<sigma>''"
  unfolding store_extends_def
  by (elim conjE, intro conjI) (erule (1) extends_trans)+

lemma store_extends_fields:
  assumes "extends (str_sets \<sigma>) hs" and "extends (name_sets \<sigma>) hn"
    and "extends (shot_sets \<sigma>) hsh" and "extends (video_sets \<sigma>) hv"
  shows "store_extends \<sigma>
           (\<sigma>\<lparr>str_sets := hs, name_sets := hn, shot_sets := hsh, video_sets := hv\<rparr>)"
  using assms by (simp add: store_extends_def)

lemma allocated_shots:
  "allocated self \<sigma> \<Longrightarrow> \<forall>a. o_shots_ref self = Some a \<longrightarrow> a < length (shot_sets \<sigma>)"
  by (simp add: allocated_def split: option.splits)

lemma allocated_videos:
  "allocated self \<sigma> \<Longrightarrow> \<forall>a. o_videos_ref self = Some a \<longrightarrow> a < length (video_sets \<sigma>)"
  by (simp add: allocated_def split: option.splits)

lemma as_value_fields:
  "shots (as_value self \<sigma>) = o_shots self"
  "videos (as_value self \<sigma>) = o_videos self"
  "shots_set (as_value self \<sigma>) = map_option (deref (shot_sets \<sigma>)) (o_shots_ref self)"
  "videos_set (as_value self \<sigma>) = map_option (deref (video_sets \<sigma>)) (o_videos_ref self)"
  by (simp_all add: as_value_def)

lemma call_evidence_st:
  assumes "allocated self \<sigma>"
  shows "fst (call_evidence_st E self submission fp \<sigma>) =
           call_evidence E (as_value self \<sigma>) submission fp \<and>
         store_extends \<sigma> (snd (call_evidence_st E self submission fp \<sigma>))"
proof (cases "load_evidence E fp")
  case (Inl e)
  then show ?thesis
    by (simp add: call_evidence_st_def call_evidence_def store_extends_refl)
next
  case (Inr evidence)
  define hv where "hv = snd (evidence_videos_st E self evidence (video_sets \<sigma>))"
  define hn where "hn = snd (evidence_person_names_st E submission evidence (name_sets \<sigma>))"
  define hs where "hs = snd (evidence_modalities_st E evidence (str_sets \<sigma>))"
  note v = evidence_videos_st [of "as_value self \<sigma>" "video_sets \<sigma>" self E evidence,
      OF as_value_fields(4) allocated_videos [OF assms] ]
  note n = evidence_person_names_st [of E submission evidence "name_sets \<sigma>"]
  note s = evidence_modalities_st [of E evidence "str_sets \<sigma>"]
  have ev: "extends (video_sets \<sigma>) hv" unfolding hv_def by (rule v [THEN conjunct2])
  have en: "extends (name_sets \<sigma>) hn" unfolding hn_def by (rule n [THEN conjunct2])
  have es: "extends (str_sets \<sigma>) hs" unfolding hs_def by (rule s [THEN conjunct2])
  have r: "extends (str_sets \<sigma>) (str_sets \<sigma>)" "extends (name_sets \<sigma>) (name_sets \<sigma>)"
    "extends (video_sets \<sigma>) (video_sets \<sigma>)"
    by (rule extends_refl)+
  show ?thesis
    using Inr ev en es r
    by (simp add: call_evidence_st_def call_evidence_def on_videos_eq on_names_eq on_str_eq
        v [THEN conjunct1] n [THEN conjunct1] s [THEN conjunct1] as_value_fields
        hv_def [symmetric] hn_def [symmetric] hs_def [symmetric] store_extends_def extends_refl
        split: sum.splits)
qed

lemma allocated_extends:
  assumes "allocated self \<sigma>" and "store_extends \<sigma> \<sigma>'"
  shows "allocated self \<sigma>'"
proof -
  have "length (shot_sets \<sigma>) \<le> length (shot_sets \<sigma>')"
    and "length (video_sets \<sigma>) \<le> length (video_sets \<sigma>')"
    using assms(2) by (simp_all add: store_extends_def extends_def)
  with assms(1) show ?thesis
    by (auto simp add: allocated_def split: option.splits)
qed

lemma as_value_extends:
  assumes "allocated self \<sigma>" and "store_extends \<sigma> \<sigma>'"
  shows "as_value self \<sigma>' = as_value self \<sigma>"
proof -
  have sh: "extends (shot_sets \<sigma>) (shot_sets \<sigma>')"
    and vi: "extends (video_sets \<sigma>) (video_sets \<sigma>')"
    using assms(2) by (simp_all add: store_extends_def)
  have "map_option (deref (shot_sets \<sigma>')) (o_shots_ref self) =
        map_option (deref (shot_sets \<sigma>)) (o_shots_ref self)"
    using allocated_shots [OF assms(1)] extends_deref [OF sh]
    by (cases "o_shots_ref self") simp_all
  moreover have "map_option (deref (video_sets \<sigma>')) (o_videos_ref self) =
        map_option (deref (video_sets \<sigma>)) (o_videos_ref self)"
    using allocated_videos [OF assms(1)] extends_deref [OF vi]
    by (cases "o_videos_ref self") simp_all
  ultimately show ?thesis by (simp add: as_value_def)
qed

lemma on_names_extends:
  "extends (name_sets \<sigma>) (snd (f (name_sets \<sigma>))) \<Longrightarrow> store_extends \<sigma> (snd (on_names f \<sigma>))"
  by (simp add: on_names_eq store_extends_def extends_refl)

lemma on_shots_extends:
  "extends (shot_sets \<sigma>) (snd (f (shot_sets \<sigma>))) \<Longrightarrow> store_extends \<sigma> (snd (on_shots f \<sigma>))"
  by (simp add: on_shots_eq store_extends_def extends_refl)

lemma case_pair_sum:
  "(case p of (Inl e, s) \<Rightarrow> f e s | (Inr x, s) \<Rightarrow> g x s) =
   (case fst p of Inl e \<Rightarrow> f e (snd p) | Inr x \<Rightarrow> g x (snd p))"
  by (cases p; cases "fst p") auto

lemma call_st:
  assumes "allocated self \<sigma>"
  shows "fst (call_st E self fp_submission fp_evidence \<sigma>) =
           call E (as_value self \<sigma>) fp_submission fp_evidence \<and>
         store_extends \<sigma> (snd (call_st E self fp_submission fp_evidence \<sigma>))"
proof (cases "load_submission E fp_submission")
  case (Inl e)
  then show ?thesis by (simp add: call_st_def call_def store_extends_refl)
next
  case (Inr submission)
  define v where "v = as_value self \<sigma>"
  define p1 where "p1 = on_names (submission_person_names_st E submission) \<sigma>"
  define p2 where "p2 = (if truthy (o_shots self)
      then on_shots (submission_shots_st E self submission) (snd p1) else (Inr True, snd p1))"
  define p3 where "p3 = (\<lambda>fp. call_evidence_st E self submission fp (snd p2))"
  have r1: "fst p1 = submission_person_names E submission"
    unfolding p1_def on_names_eq by (simp add: submission_person_names_st)
  have e1: "store_extends \<sigma> (snd p1)"
    unfolding p1_def by (rule on_names_extends) (rule submission_person_names_st [THEN conjunct2])
  have a1: "allocated self (snd p1)" by (rule allocated_extends [OF assms e1])
  have v1: "as_value self (snd p1) = v" unfolding v_def by (rule as_value_extends [OF assms e1])
  note sh = submission_shots_st [of "as_value self (snd p1)" "shot_sets (snd p1)" self E submission,
      OF as_value_fields(3) allocated_shots [OF a1] ]
  have r2: "fst p2 = (if truthy (shots v) then submission_shots E v submission else Inr True)"
    unfolding p2_def on_shots_eq using sh [THEN conjunct1]
    by (simp add: v1 v_def as_value_fields)
  have e12: "store_extends (snd p1) (snd p2)"
  proof (cases "truthy (o_shots self)")
    case True
    then have "p2 = on_shots (submission_shots_st E self submission) (snd p1)"
      by (simp add: p2_def)
    moreover have "store_extends (snd p1)
        (snd (on_shots (submission_shots_st E self submission) (snd p1)))"
      by (rule on_shots_extends) (rule sh [THEN conjunct2])
    ultimately show ?thesis by simp
  next
    case False
    then show ?thesis by (simp add: p2_def store_extends_refl)
  qed
  have e2: "store_extends \<sigma> (snd p2)" by (rule store_extends_trans [OF e1 e12])
  have a2: "allocated self (snd p2)" by (rule allocated_extends [OF assms e2])
  have v2: "as_value self (snd p2) = v" unfolding v_def by (rule as_value_extends [OF assms e2])
  have r3: "fst (p3 fp) = call_evidence E v submission fp" for fp
    unfolding p3_def using call_evidence_st [OF a2, of E submission fp] by (simp add: v2)
  have e3: "store_extends \<sigma> (snd (p3 fp))" for fp
    unfolding p3_def
    by (rule store_extends_trans [OF e2 call_evidence_st [OF a2, THEN conjunct2] ])
  have st: "call_st E self fp_submission fp_evidence \<sigma> =
      (case fst p1 of
         Inl e \<Rightarrow> (Inl e, snd p1)
       | Inr _ \<Rightarrow>
          (case fst p2 of
             Inl e \<Rightarrow> (Inl e, snd p2)
           | Inr _ \<Rightarrow>
              (case submission_confidence submission of
                 Inl e \<Rightarrow> (Inl e, snd p2)
               | Inr _ \<Rightarrow>
                  (case fp_evidence of
                     None \<Rightarrow> (Inr True, snd p2)
                   | Some fp \<Rightarrow> (if fp \<noteq> [] then p3 fp else (Inr True, snd p2))))))"
    unfolding call_st_def case_pair_sum Inr sum.case p1_def [symmetric] p2_def [symmetric] p3_def
    by (rule refl)
  have val: "call E v fp_submission fp_evidence =
      (case fst p1 of
         Inl e \<Rightarrow> Inl e
       | Inr _ \<Rightarrow>
          (case fst p2 of
             Inl e \<Rightarrow> Inl e
           | Inr _ \<Rightarrow>
              (case submission_confidence submission of
                 Inl e \<Rightarrow> Inl e
               | Inr _ \<Rightarrow>
                  (case fp_evidence of
                     None \<Rightarrow> Inr True
                   | Some fp \<Rightarrow> (if fp \<noteq> [] then fst (p3 fp) else Inr True)))))"
    using Inr
    by (simp add: call_def r1 r2 r3 cong: sum.case_cong option.case_cong if_cong)
  show ?thesis
    unfolding v_def [symmetric] st val
    using e1 e2 e3
    by (simp split: sum.splits option.splits)
qed

lemma load_if_shots_st:
  "load_if_st (load_shots_st E) shots_arg \<sigma> =
     (case load_if (load_shots E) shots_arg of
        Inl e \<Rightarrow> (Inl e, \<sigma>)
      | Inr None \<Rightarrow> (Inr None, \<sigma>)
      | Inr (Some s) \<Rightarrow>
          (Inr (Some (length (shot_sets \<sigma>))), \<sigma>\<lparr>shot_sets := shot_sets \<sigma> @ [s]\<rparr>))"
proof (cases shots_arg)
  case None
  then show ?thesis by simp
next
  case (Some path)
  then show ?thesis
    by (cases "read_shots E path")
       (simp_all add: load_shots_st_def load_shots_def set_new_def alloc_def)
qed

lemma load_if_videos_st:
  "load_if_st (load_videos_st E) videos_arg \<sigma> =
     (case load_if (load_videos E) videos_arg of
        Inl e \<Rightarrow> (Inl e, \<sigma>)
      | Inr None \<Rightarrow> (Inr None, \<sigma>)
      | Inr (Some s) \<Rightarrow>
          (Inr (Some (length (video_sets \<sigma>))), \<sigma>\<lparr>video_sets := video_sets \<sigma> @ [s]\<rparr>))"
proof (cases videos_arg)
  case None
  then show ?thesis by simp
next
  case (Some path)
  then show ?thesis
    by (cases "read_videos E path")
       (simp_all add: load_videos_st_def load_videos_def set_new_def alloc_def)
qed

lemma init_st:
  assumes "init_st E shots_arg videos_arg \<sigma>0 = (Inr self, \<sigma>)"
  shows "allocated self \<sigma> \<and> init E shots_arg videos_arg = Inr (as_value self \<sigma>) \<and>
         store_extends \<sigma>0 \<sigma>"
proof -
  obtain ss where ss: "load_if (load_shots E) shots_arg = Inr ss"
    using assms
    by (cases "load_if (load_shots E) shots_arg")
       (simp_all add: init_st_def load_if_shots_st)
  obtain vs where vs: "load_if (load_videos E) videos_arg = Inr vs"
    using assms ss
    by (cases "load_if (load_videos E) videos_arg"; cases ss)
       (simp_all add: init_st_def load_if_shots_st load_if_videos_st)
  show ?thesis
    using assms ss vs
    by (cases ss; cases vs)
       (auto simp add: init_st_def init_def load_if_shots_st load_if_videos_st allocated_def
          as_value_def store_extends_def extends_refl extends_append deref_def)
qed

lemma calls_st:
  "allocated self \<sigma> \<Longrightarrow>
   fst (calls_st E self cs \<sigma>) = map (\<lambda>(fp, fpe). call E (as_value self \<sigma>) fp fpe) cs \<and>
   store_extends \<sigma> (snd (calls_st E self cs \<sigma>))"
proof (induction cs arbitrary: \<sigma>)
  case Nil
  show ?case by (simp add: store_extends_refl)
next
  case (Cons c cs)
  obtain fp fpe where c: "c = (fp, fpe)" by (cases c)
  define \<sigma>1 where "\<sigma>1 = snd (call_st E self fp fpe \<sigma>)"
  note one = call_st [OF Cons.prems, of E fp fpe]
  have e1: "store_extends \<sigma> \<sigma>1" unfolding \<sigma>1_def by (rule one [THEN conjunct2])
  have a1: "allocated self \<sigma>1" by (rule allocated_extends [OF Cons.prems e1])
  have v1: "as_value self \<sigma>1 = as_value self \<sigma>" by (rule as_value_extends [OF Cons.prems e1])
  note rest = Cons.IH [OF a1]
  have st: "calls_st E self (c # cs) \<sigma> =
      (fst (call_st E self fp fpe \<sigma>) # fst (calls_st E self cs \<sigma>1), snd (calls_st E self cs \<sigma>1))"
    by (simp add: c \<sigma>1_def split: prod.splits)
  have "store_extends \<sigma> (snd (calls_st E self cs \<sigma>1))"
    by (rule store_extends_trans [OF e1 rest [THEN conjunct2] ])
  then show ?case
    unfolding st using one [THEN conjunct1] rest [THEN conjunct1]
    by (simp add: c v1)
qed

lemma init_st_engine:
  "init_st files (Some ''shots.lst'') (Some ''videos.lst'') empty_store = (Inr engine, engine_store)"
  by code_simp

lemma calls_st_three_calls:
  "fst (calls_st files engine three_calls engine_store) =
     [Inl (InvalidShot ''C1'' ''V1'' ''S2''), Inl (InvalidVideo ''C9'' ''V9''), Inr True]"
  by code_simp

lemma calls_st_three_calls_shots:
  "shot_sets (snd (calls_st files engine three_calls engine_store)) =
     [ [(''C1'', ''V1'', ''S1'')],
      [(''C1'', ''V1'', ''S1''), (''C1'', ''V1'', ''S2'')], [],
      [(''C1'', ''V1'', ''S1'')], [],
      [(''C1'', ''V1'', ''S1'')], [] ]"
  by code_simp

section \<open>The claims\<close>

text \<open>
  C4. The confidence check fails exactly when some row has a confidence that is NaN or an
  infinity; the error then carries the 1-indexed line of the first such row in file order;
  a submission whose confidences are all finite passes.
\<close>

theorem C4_confidence_finiteness:
  "((\<exists>n. submission_confidence submission = Inl (IncorrectConfidence n)) \<longleftrightarrow>
      (\<exists>r\<in>set submission. confidence r = NaN \<or> confidence r = PosInf \<or> confidence r = NegInf))
   \<and> (\<forall>e. submission_confidence submission = Inl e \<longrightarrow>
          (\<exists>i<length submission. e = IncorrectConfidence (i + 1) \<and>
             confidence (submission ! i) \<in> {NaN, PosInf, NegInf} \<and>
             (\<forall>j<i. confidence (submission ! j) \<notin> {NaN, PosInf, NegInf})))
   \<and> ((\<forall>r\<in>set submission. \<exists>x. confidence r = Finite x) \<longleftrightarrow>
          submission_confidence submission = Inr True)"
proof (intro conjI allI impI)
  show "(\<exists>n. submission_confidence submission = Inl (IncorrectConfidence n)) \<longleftrightarrow>
      (\<exists>r\<in>set submission. confidence r = NaN \<or> confidence r = PosInf \<or> confidence r = NegInf)"
  proof
    assume "\<exists>n. submission_confidence submission = Inl (IncorrectConfidence n)"
    then obtain n where "submission_confidence submission = Inl (IncorrectConfidence n)" ..
    from submission_confidence_fail [OF this] obtain i
      where "i < length submission" "\<not> isfinite (confidence (submission ! i))" by blast
    then have "submission ! i \<in> set submission" "\<not> isfinite (confidence (submission ! i))"
      by simp_all
    then show "\<exists>r\<in>set submission. confidence r = NaN \<or> confidence r = PosInf \<or> confidence r = NegInf"
      unfolding not_isfinite_iff by blast
  next
    assume "\<exists>r\<in>set submission. confidence r = NaN \<or> confidence r = PosInf \<or> confidence r = NegInf"
    then have "\<not> (\<forall>r\<in>set submission. isfinite (confidence r))"
      unfolding not_isfinite_iff [symmetric] by blast
    then have "submission_confidence submission \<noteq> Inr True"
      using submission_confidence_pass [of submission True] by blast
    moreover have "submission_confidence submission \<noteq> Inr False"
      using submission_confidence_pass [of submission False] by blast
    ultimately obtain e where e: "submission_confidence submission = Inl e"
      by (cases "submission_confidence submission") auto
    from submission_confidence_fail [OF e] e
    show "\<exists>n. submission_confidence submission = Inl (IncorrectConfidence n)" by auto
  qed
next
  fix e
  assume "submission_confidence submission = Inl e"
  from submission_confidence_fail [OF this]
  show "\<exists>i<length submission. e = IncorrectConfidence (i + 1) \<and>
          confidence (submission ! i) \<in> {NaN, PosInf, NegInf} \<and>
          (\<forall>j<i. confidence (submission ! j) \<notin> {NaN, PosInf, NegInf})"
    using not_isfinite_iff by (metis insert_iff empty_iff)
next
  have "(\<forall>r\<in>set submission. \<exists>x. confidence r = Finite x) \<longleftrightarrow>
        (\<forall>r\<in>set submission. isfinite (confidence r))"
    by (metis isfinite.elims(2) isfinite.simps(1))
  then show "(\<forall>r\<in>set submission. \<exists>x. confidence r = Finite x) \<longleftrightarrow>
        submission_confidence submission = Inr True"
    using submission_confidence_pass [of submission True] by simp
qed

text \<open>At a submission with NaN on line 3 and infinity on line 4, line 3 is reported.\<close>

theorem C4_confidence_finiteness_witness:
  "(\<exists>r\<in>set nan_at_line_3. confidence r = NaN \<or> confidence r = PosInf \<or> confidence r = NegInf)
   \<and> (\<exists>n. submission_confidence nan_at_line_3 = Inl (IncorrectConfidence n))
   \<and> submission_confidence nan_at_line_3 = Inl (IncorrectConfidence 3)
   \<and> map confidence (take 2 nan_at_line_3) = [Finite 1, Finite 0]
   \<and> submission_confidence (take 2 nan_at_line_3) = Inr True"
proof -
  have bad: "\<exists>r\<in>set nan_at_line_3. confidence r = NaN \<or> confidence r = PosInf \<or> confidence r = NegInf"
    by (simp add: nan_at_line_3_def)
  have fin2: "\<forall>r\<in>set (take 2 nan_at_line_3). \<exists>x. confidence r = Finite x"
    by (simp add: nan_at_line_3_def)
  have run: "submission_confidence nan_at_line_3 = Inl (IncorrectConfidence 3)"
    by (simp add: submission_confidence_def np_where_def nan_at_line_3_def)
  from C4_confidence_finiteness [of nan_at_line_3] bad
  have "\<exists>n. submission_confidence nan_at_line_3 = Inl (IncorrectConfidence n)" by blast
  moreover from C4_confidence_finiteness [of "take 2 nan_at_line_3"] fin2
  have "submission_confidence (take 2 nan_at_line_3) = Inr True" by blast
  moreover have "map confidence (take 2 nan_at_line_3) = [Finite 1, Finite 0]"
    by (simp add: nan_at_line_3_def)
  ultimately show ?thesis using bad run by blast
qed

text \<open>
  C5. The timestamp check first looks for a timestamp that is not finite and reports the
  1-indexed line of the first one; only when all are finite does it look for a negative
  one and report the line of the first; it passes exactly when every timestamp is a
  finite number that is at least 0 (0 included).
\<close>

theorem C5_timestamp_validity:
  "((\<exists>r\<in>set evidence. timestamp r \<in> {NaN, PosInf, NegInf}) \<longrightarrow>
      (\<exists>i<length evidence. evidence_timestamps evidence = Inl (IncorrectTimestamp (i + 1)) \<and>
         timestamp (evidence ! i) \<in> {NaN, PosInf, NegInf} \<and>
         (\<forall>j<i. timestamp (evidence ! j) \<notin> {NaN, PosInf, NegInf})))
   \<and> ((\<forall>r\<in>set evidence. \<exists>x. timestamp r = Finite x) \<and>
        (\<exists>r\<in>set evidence. \<exists>x<0. timestamp r = Finite x) \<longrightarrow>
      (\<exists>i<length evidence. evidence_timestamps evidence = Inl (NegativeTimestamp (i + 1)) \<and>
         (\<exists>x<0. timestamp (evidence ! i) = Finite x) \<and>
         (\<forall>j<i. \<exists>x\<ge>0. timestamp (evidence ! j) = Finite x)))
   \<and> (evidence_timestamps evidence = Inr True \<longleftrightarrow>
        (\<forall>r\<in>set evidence. \<exists>x\<ge>0. timestamp r = Finite x))"
proof (intro conjI impI)
  assume "\<exists>r\<in>set evidence. timestamp r \<in> {NaN, PosInf, NegInf}"
  then have "\<exists>r\<in>set evidence. \<not> isfinite (timestamp r)"
    unfolding not_isfinite_iff by blast
  from evidence_timestamps_not_finite [OF this]
  show "\<exists>i<length evidence. evidence_timestamps evidence = Inl (IncorrectTimestamp (i + 1)) \<and>
         timestamp (evidence ! i) \<in> {NaN, PosInf, NegInf} \<and>
         (\<forall>j<i. timestamp (evidence ! j) \<notin> {NaN, PosInf, NegInf})"
    using not_isfinite_iff by (metis insert_iff empty_iff)
next
  assume a: "(\<forall>r\<in>set evidence. \<exists>x. timestamp r = Finite x) \<and>
        (\<exists>r\<in>set evidence. \<exists>x<0. timestamp r = Finite x)"
  then have fin: "\<forall>r\<in>set evidence. isfinite (timestamp r)" by auto
  from a obtain r x where "r \<in> set evidence" "x < 0" "timestamp r = Finite x" by blast
  then have "r \<in> set evidence" "lt_zero (timestamp r)" by simp_all
  then have neg: "\<exists>r\<in>set evidence. lt_zero (timestamp r)" by blast
  from evidence_timestamps_negative [OF fin neg] obtain i
    where i: "i < length evidence" "evidence_timestamps evidence = Inl (NegativeTimestamp (i + 1))"
      "lt_zero (timestamp (evidence ! i))" "\<forall>j<i. \<not> lt_zero (timestamp (evidence ! j))"
    by blast
  from i(1) fin have "isfinite (timestamp (evidence ! i))" by simp
  with i(3) have here: "\<exists>x<0. timestamp (evidence ! i) = Finite x"
    using lt_zero_finite by blast
  have before: "\<exists>x\<ge>0. timestamp (evidence ! j) = Finite x" if "j < i" for j
  proof -
    from that i(1) have "evidence ! j \<in> set evidence" by simp
    with fin have "isfinite (timestamp (evidence ! j))" by blast
    moreover from that i(4) have "\<not> lt_zero (timestamp (evidence ! j))" by blast
    ultimately show ?thesis using finite_nonneg_iff by blast
  qed
  from i(1,2) here before
  show "\<exists>i<length evidence. evidence_timestamps evidence = Inl (NegativeTimestamp (i + 1)) \<and>
         (\<exists>x<0. timestamp (evidence ! i) = Finite x) \<and>
         (\<forall>j<i. \<exists>x\<ge>0. timestamp (evidence ! j) = Finite x)"
    by blast
next
  show "evidence_timestamps evidence = Inr True \<longleftrightarrow>
        (\<forall>r\<in>set evidence. \<exists>x\<ge>0. timestamp r = Finite x)"
    using evidence_timestamps_pass [of evidence True] finite_nonneg_iff by auto
qed

text \<open>
  NaN on line 3 is reported although line 2 is negative; without line 3, line 2 is
  reported as negative; the single row with timestamp 0 passes.
\<close>

theorem C5_timestamp_validity_witness:
  "(\<exists>r\<in>set negative_then_nan. timestamp r \<in> {NaN, PosInf, NegInf})
   \<and> (\<exists>n. evidence_timestamps negative_then_nan = Inl (IncorrectTimestamp n))
   \<and> evidence_timestamps negative_then_nan = Inl (IncorrectTimestamp 3)
   \<and> map timestamp (take 2 negative_then_nan) = [Finite 0, Finite (- 1)]
   \<and> evidence_timestamps (take 2 negative_then_nan) = Inl (NegativeTimestamp 2)
   \<and> evidence_timestamps (take 1 negative_then_nan) = Inr True"
proof -
  have bad: "\<exists>r\<in>set negative_then_nan. timestamp r \<in> {NaN, PosInf, NegInf}"
    by (simp add: negative_then_nan_def)
  from C5_timestamp_validity [of negative_then_nan] bad
  have "\<exists>n. evidence_timestamps negative_then_nan = Inl (IncorrectTimestamp n)" by blast
  moreover have "evidence_timestamps negative_then_nan = Inl (IncorrectTimestamp 3)"
    by (simp add: evidence_timestamps_def np_where_def negative_then_nan_def)
  moreover have "map timestamp (take 2 negative_then_nan) = [Finite 0, Finite (- 1)]"
    by (simp add: negative_then_nan_def)
  moreover have "evidence_timestamps (take 2 negative_then_nan) = Inl (NegativeTimestamp 2)"
    by (simp add: evidence_timestamps_def np_where_def negative_then_nan_def)
  moreover have "\<forall>r\<in>set (take 1 negative_then_nan). \<exists>x\<ge>0. timestamp r = Finite x"
    by (simp add: negative_then_nan_def)
  with C5_timestamp_validity [of "take 1 negative_then_nan"]
  have "evidence_timestamps (take 1 negative_then_nan) = Inr True" by blast
  ultimately show ?thesis using bad by blast
qed

text \<open>
  C2. The claim: if every person name of the submission is made of the characters a to z
  and the underscore only, the person-name check passes, and if some name has another
  character, validate raises an error that carries such a name. The code does this when
  every cell of the column is a string (lemma \<open>submission_person_names_strings\<close>). It does
  not when the column has the name \<open>null\<close> (or \<open>nan\<close>, \<open>NA\<close>, ...), which is made of allowed
  characters only: \<open>pd.read_table\<close> reads it as NaN, and \<open>set(person_name)\<close> raises
  \<open>TypeError\<close>. On a submission with that name alone the check does not pass, and on a
  submission with that name before the name Jean-Paul the error does not carry the invalid
  name.
\<close>

theorem C2_null_person_name:
  "load_submission files ''null.sub'' = Inr null_name
   \<and> map s_person_name null_name = [NA]
   \<and> submission_person_names files null_name = Inl (TypeError ''float object is not iterable'')
   \<and> call files unrestricted ''null.sub'' None = Inl (TypeError ''float object is not iterable'')
   \<and> load_submission files ''null_jean_paul.sub'' = Inr null_jean_paul
   \<and> map s_person_name null_jean_paul = [NA, Str ''Jean-Paul'']
   \<and> submission_person_names files null_jean_paul =
       Inl (TypeError ''float object is not iterable'')
   \<and> call files unrestricted ''null_jean_paul.sub'' None =
       Inl (TypeError ''float object is not iterable'')"
proof -
  have l1: "load_submission files ''null.sub'' = Inr null_name"
    and l2: "load_submission files ''null_jean_paul.sub'' = Inr null_jean_paul"
    by (simp_all add: load_submission_def files_def)
  have n1: "map s_person_name null_name = [NA]"
    and n2: "map s_person_name null_jean_paul = [NA, Str ''Jean-Paul'']"
    by (simp_all add: null_name_def null_jean_paul_def)
  have c1: "submission_person_names files null_name =
      Inl (TypeError ''float object is not iterable'')"
    by (simp add: submission_person_names_def n1 py_set_def unique_def files_def
        insertion_order_def)
  have c2: "submission_person_names files null_jean_paul =
      Inl (TypeError ''float object is not iterable'')"
    by (simp add: submission_person_names_def n2 py_set_def unique_def files_def
        insertion_order_def)
  from call_person_names_fail [OF l1 c1]
  have v1: "call files unrestricted ''null.sub'' None =
      Inl (TypeError ''float object is not iterable'')" .
  from call_person_names_fail [OF l2 c2]
  have v2: "call files unrestricted ''null_jean_paul.sub'' None =
      Inl (TypeError ''float object is not iterable'')" .
  show ?thesis by (intro conjI; fact)
qed

text \<open>
  C10. A row whose person name is the empty string never makes the person-name check
  fail: the empty name is never the one reported, and a submission in which every name is
  empty or made of a to z and the underscore passes.
\<close>

theorem C10_empty_person_name:
  assumes "layout_ok (name_layout E)"
  shows "submission_person_names E submission \<noteq> Inl (InvalidPersonName [])
       \<and> ((\<forall>r\<in>set submission. s_person_name r = Str [] \<or>
              (\<exists>n. s_person_name r = Str n \<and> set n \<subseteq> set ''abcdefghijklmnopqrstuvwxyz_'')) \<longrightarrow>
            submission_person_names E submission = Inr True)"
proof (intro conjI impI)
  show "submission_person_names E submission \<noteq> Inl (InvalidPersonName [])"
  proof
    assume "submission_person_names E submission = Inl (InvalidPersonName [])"
    from submission_person_names_fail [OF assms this]
    have "\<exists>n. InvalidPersonName [] = InvalidPersonName n \<and>
        \<not> set n \<subseteq> set ALLOWED_CHARACTERS"
      by auto
    then show False by simp
  qed
next
  assume "\<forall>r\<in>set submission. s_person_name r = Str [] \<or>
            (\<exists>n. s_person_name r = Str n \<and> set n \<subseteq> set ''abcdefghijklmnopqrstuvwxyz_'')"
  then have "\<forall>r\<in>set submission.
      \<exists>n. s_person_name r = Str n \<and> set n \<subseteq> set ALLOWED_CHARACTERS"
    unfolding set_ALLOWED_CHARACTERS by fastforce
  then show "submission_person_names E submission = Inr True"
    using submission_person_names_pass [OF assms, of submission True] by blast
qed

text \<open>A submission whose first row has the empty name passes.\<close>

theorem C10_empty_person_name_witness:
  "layout_ok (name_layout files)
   \<and> map s_person_name empty_name = [Str '''', Str ''bob'']
   \<and> submission_person_names files empty_name \<noteq> Inl (InvalidPersonName '''')
   \<and> submission_person_names files empty_name = Inr True"
proof -
  have "\<forall>r\<in>set empty_name. s_person_name r = Str [] \<or>
          (\<exists>n. s_person_name r = Str n \<and> set n \<subseteq> set ''abcdefghijklmnopqrstuvwxyz_'')"
    by (simp add: empty_name_def)
  with C10_empty_person_name [OF layout_ok_files(4), of empty_name]
  have "submission_person_names files empty_name \<noteq> Inl (InvalidPersonName '''')"
    "submission_person_names files empty_name = Inr True" by blast+
  moreover have "map s_person_name empty_name = [Str '''', Str ''bob'']"
    by (simp add: empty_name_def)
  ultimately show ?thesis using layout_ok_files(4) by blast
qed

text \<open>
  C3. For an instance constructed with a shot list, the Reference Shot Set is the set of
  the (corpus, video, shot) triples of the rows of the list. The shot check fails exactly
  when some triple of the submission is not in that set; the error then carries one such
  triple of the submission; if every triple is in the set, the check returns True.
\<close>

theorem C3_shot_membership:
  assumes "layout_ok (shot_layout E)"
    and "init E (Some path) videos_path = Inr self" and "path \<noteq> []"
  shows "\<exists>rows. read_shots E path = Inr rows \<and> truthy (shots self) \<and>
          ((\<exists>e. submission_shots E self submission = Inl e) \<longleftrightarrow>
             (\<exists>r\<in>set submission. (s_corpus_id r, s_video_id r, s_shot_id r)
                \<notin> (\<lambda>(c, v, s, _, _). (c, v, s)) ` set rows)) \<and>
          (\<forall>e. submission_shots E self submission = Inl e \<longrightarrow>
             (\<exists>r\<in>set submission. e = InvalidShot (s_corpus_id r) (s_video_id r) (s_shot_id r) \<and>
                (s_corpus_id r, s_video_id r, s_shot_id r)
                  \<notin> (\<lambda>(c, v, s, _, _). (c, v, s)) ` set rows)) \<and>
          ((\<forall>r\<in>set submission. (s_corpus_id r, s_video_id r, s_shot_id r)
                \<in> (\<lambda>(c, v, s, _, _). (c, v, s)) ` set rows) \<longrightarrow>
             submission_shots E self submission = Inr True)"
proof -
  from init_shots_set [OF assms(2,3)] obtain rows reference
    where rows: "read_shots E path = Inr rows"
      and ref: "shots_set self = Some reference"
      and "reference = py_set (shot_layout E) (map (\<lambda>(c, v, s, _, _). (c, v, s)) rows)"
    by blast
  then have sref: "set reference = (\<lambda>(c, v, s, _, _). (c, v, s)) ` set rows"
    using assms(1) by (simp add: set_py_set)
  have gate: "truthy (shots self)"
    using init_fields(1) [OF assms(2)] assms(3) by simp
  note total = submission_shots_total [OF assms(1) ref, of submission, unfolded sref]
  have fail: "\<forall>e. submission_shots E self submission = Inl e \<longrightarrow>
             (\<exists>r\<in>set submission. e = InvalidShot (s_corpus_id r) (s_video_id r) (s_shot_id r) \<and>
                (s_corpus_id r, s_video_id r, s_shot_id r)
                  \<notin> (\<lambda>(c, v, s, _, _). (c, v, s)) ` set rows)"
    using submission_shots_fail [OF assms(1) ref, of submission] unfolding sref by blast
  have pass: "(\<forall>r\<in>set submission. (s_corpus_id r, s_video_id r, s_shot_id r)
                \<in> (\<lambda>(c, v, s, _, _). (c, v, s)) ` set rows) \<longrightarrow>
             submission_shots E self submission = Inr True"
    using submission_shots_pass [OF assms(1) ref, of submission True] unfolding sref by blast
  from rows gate total fail pass show ?thesis by blast
qed

text \<open>
  With the shot list that has the one shot (C1, V1, S1): a submission that names
  (C1, V1, S2) fails with that triple, a submission that names (C1, V1, S1) only passes.
\<close>

theorem C3_shot_membership_witness:
  "layout_ok (shot_layout files)
   \<and> init files (Some ''shots.lst'') None = Inr with_shots
   \<and> ''shots.lst'' \<noteq> []
   \<and> read_shots files ''shots.lst'' = Inr [(''C1'', ''V1'', ''S1'', Finite 0, Finite 10)]
   \<and> truthy (shots with_shots)
   \<and> submission_shots files with_shots unknown_shot = Inl (InvalidShot ''C1'' ''V1'' ''S2'')
   \<and> submission_shots files with_shots alice_bob = Inr True"
proof -
  note ok = layout_ok_files(2)
  note init = init_with_shots
  have ne: "''shots.lst'' \<noteq> []" by simp
  have read: "read_shots files ''shots.lst'' = Inr [(''C1'', ''V1'', ''S1'', Finite 0, Finite 10)]"
    by (simp add: files_def)
  have ref: "(\<lambda>(c, v, s, _, _). (c, v, s)) ` set [(''C1'', ''V1'', ''S1'', Finite 0, Finite 10)]
      = {(''C1'', ''V1'', ''S1'')}"
    by simp
  from C3_shot_membership [OF ok init ne, of unknown_shot] read
  have gate: "truthy (shots with_shots)"
    and iff: "(\<exists>e. submission_shots files with_shots unknown_shot = Inl e) \<longleftrightarrow>
       (\<exists>r\<in>set unknown_shot. (s_corpus_id r, s_video_id r, s_shot_id r) \<notin> {(''C1'', ''V1'', ''S1'')})"
    and fail: "\<forall>e. submission_shots files with_shots unknown_shot = Inl e \<longrightarrow>
       (\<exists>r\<in>set unknown_shot. e = InvalidShot (s_corpus_id r) (s_video_id r) (s_shot_id r) \<and>
          (s_corpus_id r, s_video_id r, s_shot_id r) \<notin> {(''C1'', ''V1'', ''S1'')})"
    unfolding ref [symmetric] by auto
  have "\<exists>r\<in>set unknown_shot. (s_corpus_id r, s_video_id r, s_shot_id r) \<notin> {(''C1'', ''V1'', ''S1'')}"
    by (simp add: unknown_shot_def)
  with iff obtain e where e: "submission_shots files with_shots unknown_shot = Inl e" by blast
  with fail obtain r where "r \<in> set unknown_shot"
    "e = InvalidShot (s_corpus_id r) (s_video_id r) (s_shot_id r)"
    "(s_corpus_id r, s_video_id r, s_shot_id r) \<notin> {(''C1'', ''V1'', ''S1'')}"
    by blast
  then have "e = InvalidShot ''C1'' ''V1'' ''S2''"
    by (auto simp: unknown_shot_def)
  with e have bad: "submission_shots files with_shots unknown_shot = Inl (InvalidShot ''C1'' ''V1'' ''S2'')"
    by simp
  have "\<forall>r\<in>set alice_bob. (s_corpus_id r, s_video_id r, s_shot_id r) \<in> {(''C1'', ''V1'', ''S1'')}"
    by (simp add: alice_bob_def)
  with C3_shot_membership [OF ok init ne, of alice_bob] read
  have good: "submission_shots files with_shots alice_bob = Inr True"
    unfolding ref [symmetric] by auto
  show ?thesis by (intro conjI; fact)
qed

text \<open>
  C7. The modality check passes exactly when every modality of the evidence is written or
  pronounced; otherwise it raises an error that carries a modality of the evidence that
  is neither.
\<close>

theorem C7_modality:
  assumes "layout_ok (str_layout E)"
  shows "(evidence_modalities E evidence = Inr () \<longleftrightarrow>
            modality ` set evidence \<subseteq> {''written'', ''pronounced''})
       \<and> (\<not> modality ` set evidence \<subseteq> {''written'', ''pronounced''} \<longrightarrow>
            (\<exists>r\<in>set evidence. modality r \<notin> {''written'', ''pronounced''} \<and>
               evidence_modalities E evidence = Inl (IncorrectModality (modality r))))"
proof (intro conjI impI)
  show "evidence_modalities E evidence = Inr () \<longleftrightarrow>
          modality ` set evidence \<subseteq> {''written'', ''pronounced''}"
    by (rule evidence_modalities_pass [OF assms])
next
  assume "\<not> modality ` set evidence \<subseteq> {''written'', ''pronounced''}"
  then have "evidence_modalities E evidence \<noteq> Inr u" for u
    using evidence_modalities_pass [OF assms, of evidence u] by blast
  then obtain e where e: "evidence_modalities E evidence = Inl e"
    by (cases "evidence_modalities E evidence") auto
  from evidence_modalities_fail [OF assms e] e
  show "\<exists>r\<in>set evidence. modality r \<notin> {''written'', ''pronounced''} \<and>
          evidence_modalities E evidence = Inl (IncorrectModality (modality r))"
    by blast
qed

text \<open>Written and pronounced pass; written and spoken fail, and spoken is reported.\<close>

theorem C7_modality_witness:
  "layout_ok (str_layout files)
   \<and> modality ` set alice_bob_evidence = {''written'', ''pronounced''}
   \<and> evidence_modalities files alice_bob_evidence = Inr ()
   \<and> modality ` set spoken_evidence = {''written'', ''spoken''}
   \<and> evidence_modalities files spoken_evidence = Inl (IncorrectModality ''spoken'')"
proof -
  note ok = layout_ok_files(1)
  have m1: "modality ` set alice_bob_evidence = {''written'', ''pronounced''}"
    by (simp add: alice_bob_evidence_def)
  have m2: "modality ` set spoken_evidence = {''written'', ''spoken''}"
    by (simp add: spoken_evidence_def)
  from C7_modality [OF ok, of alice_bob_evidence] m1
  have good: "evidence_modalities files alice_bob_evidence = Inr ()" by simp
  have "\<not> modality ` set spoken_evidence \<subseteq> {''written'', ''pronounced''}"
    unfolding m2 by simp
  with C7_modality [OF ok, of spoken_evidence] obtain r
    where "r \<in> set spoken_evidence" "modality r \<notin> {''written'', ''pronounced''}"
      "evidence_modalities files spoken_evidence = Inl (IncorrectModality (modality r))"
    by blast
  then have bad: "evidence_modalities files spoken_evidence = Inl (IncorrectModality ''spoken'')"
    by (auto simp: spoken_evidence_def)
  show ?thesis by (intro conjI; fact)
qed

text \<open>
  C6. The cross-check of person names has three steps. If some name is on more than one
  row of the evidence, it raises the duplicate error with such a name. Otherwise, if some
  name of the evidence is not a name of the submission, it raises the extra error with
  such a name. Otherwise, if some name of the submission is not a name of the evidence,
  it raises the missing error with such a name. It returns True exactly when the names of
  the evidence are pairwise distinct and form the same set as the names of the submission.
\<close>

theorem C6_person_name_cross_check:
  assumes "layout_ok (name_layout E)"
  shows "(\<not> distinct (map e_person_name evidence) \<longrightarrow>
            (\<exists>r\<in>set evidence.
               evidence_person_names E submission evidence =
                 Inl (DuplicatePersonName (e_person_name r)) \<and>
               1 < length (filter (\<lambda>q. e_person_name q = e_person_name r) evidence)))
       \<and> (distinct (map e_person_name evidence) \<and>
          \<not> e_person_name ` set evidence \<subseteq> s_person_name ` set submission \<longrightarrow>
            (\<exists>r\<in>set evidence.
               evidence_person_names E submission evidence =
                 Inl (ExtraPersonName (e_person_name r)) \<and>
               e_person_name r \<notin> s_person_name ` set submission))
       \<and> (distinct (map e_person_name evidence) \<and>
          e_person_name ` set evidence \<subseteq> s_person_name ` set submission \<and>
          \<not> s_person_name ` set submission \<subseteq> e_person_name ` set evidence \<longrightarrow>
            (\<exists>r\<in>set submission.
               evidence_person_names E submission evidence =
                 Inl (MissingPersonName (s_person_name r)) \<and>
               s_person_name r \<notin> e_person_name ` set evidence))
       \<and> (evidence_person_names E submission evidence = Inr True \<longleftrightarrow>
            distinct (map e_person_name evidence) \<and>
            e_person_name ` set evidence = s_person_name ` set submission)"
proof (intro conjI impI)
  assume "\<not> distinct (map e_person_name evidence)"
  then show "\<exists>r\<in>set evidence.
       evidence_person_names E submission evidence = Inl (DuplicatePersonName (e_person_name r)) \<and>
       1 < length (filter (\<lambda>q. e_person_name q = e_person_name r) evidence)"
    by (rule evidence_person_names_duplicate [OF assms])
next
  assume "distinct (map e_person_name evidence) \<and>
          \<not> e_person_name ` set evidence \<subseteq> s_person_name ` set submission"
  then show "\<exists>r\<in>set evidence.
       evidence_person_names E submission evidence = Inl (ExtraPersonName (e_person_name r)) \<and>
       e_person_name r \<notin> s_person_name ` set submission"
    using evidence_person_names_extra [OF assms] by blast
next
  assume "distinct (map e_person_name evidence) \<and>
          e_person_name ` set evidence \<subseteq> s_person_name ` set submission \<and>
          \<not> s_person_name ` set submission \<subseteq> e_person_name ` set evidence"
  then show "\<exists>r\<in>set submission.
       evidence_person_names E submission evidence = Inl (MissingPersonName (s_person_name r)) \<and>
       s_person_name r \<notin> e_person_name ` set evidence"
    using evidence_person_names_missing [OF assms] by blast
next
  show "evidence_person_names E submission evidence = Inr True \<longleftrightarrow>
          distinct (map e_person_name evidence) \<and>
          e_person_name ` set evidence = s_person_name ` set submission"
  proof
    assume pass: "evidence_person_names E submission evidence = Inr True"
    have d: "distinct (map e_person_name evidence)"
    proof (rule ccontr)
      assume "\<not> distinct (map e_person_name evidence)"
      from evidence_person_names_duplicate [OF assms this, of submission] pass
      show False by auto
    qed
    have es: "e_person_name ` set evidence \<subseteq> s_person_name ` set submission"
    proof (rule ccontr)
      assume "\<not> e_person_name ` set evidence \<subseteq> s_person_name ` set submission"
      from evidence_person_names_extra [OF assms d this] pass
      show False by auto
    qed
    have se: "s_person_name ` set submission \<subseteq> e_person_name ` set evidence"
    proof (rule ccontr)
      assume "\<not> s_person_name ` set submission \<subseteq> e_person_name ` set evidence"
      from evidence_person_names_missing [OF assms d es this] pass
      show False by auto
    qed
    from d es se show "distinct (map e_person_name evidence) \<and>
          e_person_name ` set evidence = s_person_name ` set submission"
      by blast
  next
    assume "distinct (map e_person_name evidence) \<and>
          e_person_name ` set evidence = s_person_name ` set submission"
    then show "evidence_person_names E submission evidence = Inr True"
      using evidence_person_names_equal [OF assms] by blast
  qed
qed

text \<open>
  With a submission that names alice and bob: evidence for alice and bob passes, evidence
  for alice only misses bob, evidence for alice, bob and carol has the extra carol, and
  evidence with two rows for alice has the duplicate alice.
\<close>

theorem C6_person_name_cross_check_witness:
  "layout_ok (name_layout files)
   \<and> distinct (map e_person_name alice_bob_evidence)
   \<and> e_person_name ` set alice_bob_evidence = s_person_name ` set alice_bob
   \<and> evidence_person_names files alice_bob alice_bob_evidence = Inr True
   \<and> evidence_person_names files alice_bob alice_only = Inl (MissingPersonName (Str ''bob''))
   \<and> evidence_person_names files alice_bob alice_bob_carol = Inl (ExtraPersonName (Str ''carol''))
   \<and> \<not> distinct (map e_person_name alice_twice)
   \<and> evidence_person_names files alice_bob alice_twice = Inl (DuplicatePersonName (Str ''alice''))"
proof -
  note ok = layout_ok_files(4)
  have d1: "distinct (map e_person_name alice_bob_evidence)"
    by (simp add: alice_bob_evidence_def)
  have s1: "e_person_name ` set alice_bob_evidence = s_person_name ` set alice_bob"
    by (simp add: alice_bob_evidence_def alice_bob_def)
  from C6_person_name_cross_check [OF ok, of alice_bob_evidence alice_bob] d1 s1
  have pass: "evidence_person_names files alice_bob alice_bob_evidence = Inr True"
    by blast
  have "distinct (map e_person_name alice_only) \<and>
      e_person_name ` set alice_only \<subseteq> s_person_name ` set alice_bob \<and>
      \<not> s_person_name ` set alice_bob \<subseteq> e_person_name ` set alice_only"
    by (simp add: alice_only_def alice_bob_def)
  with C6_person_name_cross_check [OF ok, of alice_only alice_bob] obtain r
    where "r \<in> set alice_bob"
      "evidence_person_names files alice_bob alice_only = Inl (MissingPersonName (s_person_name r))"
      "s_person_name r \<notin> e_person_name ` set alice_only"
    by blast
  then have missing: "evidence_person_names files alice_bob alice_only = Inl (MissingPersonName (Str ''bob''))"
    by (auto simp: alice_only_def alice_bob_def)
  have "distinct (map e_person_name alice_bob_carol) \<and>
      \<not> e_person_name ` set alice_bob_carol \<subseteq> s_person_name ` set alice_bob"
    by (simp add: alice_bob_carol_def alice_bob_def)
  with C6_person_name_cross_check [OF ok, of alice_bob_carol alice_bob] obtain r
    where "r \<in> set alice_bob_carol"
      "evidence_person_names files alice_bob alice_bob_carol = Inl (ExtraPersonName (e_person_name r))"
      "e_person_name r \<notin> s_person_name ` set alice_bob"
    by blast
  then have extra: "evidence_person_names files alice_bob alice_bob_carol = Inl (ExtraPersonName (Str ''carol''))"
    by (auto simp: alice_bob_carol_def alice_bob_def)
  have nd: "\<not> distinct (map e_person_name alice_twice)"
    by (simp add: alice_twice_def)
  with C6_person_name_cross_check [OF ok, of alice_twice alice_bob] obtain r
    where "r \<in> set alice_twice"
      "evidence_person_names files alice_bob alice_twice = Inl (DuplicatePersonName (e_person_name r))"
      "1 < length (filter (\<lambda>q. e_person_name q = e_person_name r) alice_twice)"
    by blast
  then have duplicate: "evidence_person_names files alice_bob alice_twice = Inl (DuplicatePersonName (Str ''alice''))"
    by (auto simp: alice_twice_def)
  show ?thesis by (intro conjI; fact)
qed

text \<open>
  C1. If the submission does not parse, validate raises the parser's error. Otherwise it
  runs the submission checks in their order (person-name alphabet, shot membership if a
  shot list was given, confidence finiteness) and, only if an evidence source is given,
  loads the evidence and runs the evidence checks in their order (video membership if a
  video list was given, timestamps, cross-check of the person names, modality); an
  evidence file that does not parse is a failing step at that place. The result is True
  exactly when no step raised, and otherwise it is the error of the first step that
  raised, whatever the later steps do.
\<close>

theorem C1_validate_order:
  "(\<forall>e. load_submission E fp_submission = Inl e \<longrightarrow>
       call E self fp_submission fp_evidence = Inl e)
   \<and> (\<forall>submission. load_submission E fp_submission = Inr submission \<longrightarrow>
        (\<not> truthy fp_evidence \<longrightarrow>
           call E self fp_submission fp_evidence =
             outcome (submission_checks E self submission))
      \<and> (\<forall>fp. fp_evidence = Some fp \<and> fp \<noteq> [] \<longrightarrow>
           (\<forall>e. load_evidence E fp = Inl e \<longrightarrow>
              call E self fp_submission fp_evidence =
                outcome (submission_checks E self submission @ [Some e]))
         \<and> (\<forall>evidence. load_evidence E fp = Inr evidence \<longrightarrow>
              call E self fp_submission fp_evidence =
                outcome (submission_checks E self submission @
                         evidence_checks E self submission evidence))))
   \<and> (\<forall>steps. (outcome steps = Inr True \<longleftrightarrow> (\<forall>s\<in>set steps. s = None))
        \<and> outcome steps \<noteq> Inr False
        \<and> (\<forall>e. outcome steps = Inl e \<longleftrightarrow>
             (\<exists>i<length steps. steps ! i = Some e \<and> (\<forall>j<i. steps ! j = None))))"
proof (intro conjI allI impI)
  fix e assume "load_submission E fp_submission = Inl e"
  then show "call E self fp_submission fp_evidence = Inl e"
    by (rule call_load_submission_fail)
next
  fix submission
  assume "load_submission E fp_submission = Inr submission" "\<not> truthy fp_evidence"
  then show "call E self fp_submission fp_evidence =
      outcome (submission_checks E self submission)"
    by (rule call_without_evidence)
next
  fix submission fp e
  assume "load_submission E fp_submission = Inr submission"
    "fp_evidence = Some fp \<and> fp \<noteq> []" "load_evidence E fp = Inl e"
  then show "call E self fp_submission fp_evidence =
      outcome (submission_checks E self submission @ [Some e])"
    using call_load_evidence_fail by blast
next
  fix submission fp evidence
  assume "load_submission E fp_submission = Inr submission"
    "fp_evidence = Some fp \<and> fp \<noteq> []" "load_evidence E fp = Inr evidence"
  then show "call E self fp_submission fp_evidence =
      outcome (submission_checks E self submission @
               evidence_checks E self submission evidence)"
    using call_with_evidence by blast
next
  fix steps
  show "outcome steps = Inr True \<longleftrightarrow> (\<forall>s\<in>set steps. s = None)"
    by (rule outcome_True)
next
  fix steps
  show "outcome steps \<noteq> Inr False"
    by (simp add: outcome_def split: option.splits)
next
  fix steps e
  show "outcome steps = Inl e \<longleftrightarrow>
      (\<exists>i<length steps. steps ! i = Some e \<and> (\<forall>j<i. steps ! j = None))"
    by (rule outcome_error)
qed

text \<open>
  A submission whose shots S2, S3 and S4 are unknown and whose line 3 has a NaN
  confidence: the steps are pass, unknown shot, incorrect confidence, and validate raises
  the unknown shot. A valid submission with evidence that has a negative timestamp on
  line 2 raises that error, and returns True without the evidence.
\<close>

theorem C1_validate_order_witness:
  "load_submission files ''nan.sub'' = Inr nan_at_line_3
   \<and> submission_checks files with_shots nan_at_line_3 =
       [None, Some (InvalidShot ''C1'' ''V1'' ''S2''), Some (IncorrectConfidence 3)]
   \<and> call files with_shots ''nan.sub'' None = Inl (InvalidShot ''C1'' ''V1'' ''S2'')
   \<and> load_submission files ''alice_bob.sub'' = Inr alice_bob
   \<and> load_evidence files ''negative.ev'' = Inr negative_evidence
   \<and> submission_checks files unrestricted alice_bob @
       evidence_checks files unrestricted alice_bob negative_evidence =
       [None, None, Some (NegativeTimestamp 2), None, None]
   \<and> call files unrestricted ''alice_bob.sub'' (Some ''negative.ev'') = Inl (NegativeTimestamp 2)
   \<and> call files unrestricted ''alice_bob.sub'' None = Inr True
   \<and> call files unrestricted ''alice_bob.sub'' (Some ''missing.ev'') = Inl (ParserError ''missing.ev'')
   \<and> call files unrestricted ''missing.sub'' (Some ''negative.ev'') = Inl (ParserError ''missing.sub'')"
proof -
  have l1: "load_submission files ''nan.sub'' = Inr nan_at_line_3"
    by (simp add: load_submission_def files_def)
  have s1: "submission_checks files with_shots nan_at_line_3 =
       [None, Some (InvalidShot ''C1'' ''V1'' ''S2''), Some (IncorrectConfidence 3)]"
    by (simp add: eval_defs nan_at_line_3_def)
  from C1_validate_order [of files "''nan.sub''" with_shots None] l1
  have "call files with_shots ''nan.sub'' None = outcome (submission_checks files with_shots nan_at_line_3)"
    by simp
  then have c1: "call files with_shots ''nan.sub'' None = Inl (InvalidShot ''C1'' ''V1'' ''S2'')"
    unfolding s1 by (simp add: outcome_def)
  have l2: "load_submission files ''alice_bob.sub'' = Inr alice_bob"
    by (simp add: load_submission_def files_def)
  have l3: "load_evidence files ''negative.ev'' = Inr negative_evidence"
    by (simp add: load_evidence_def files_def)
  have s2: "submission_checks files unrestricted alice_bob = [None, None]"
    by (simp add: eval_defs alice_bob_def)
  have s3: "evidence_checks files unrestricted alice_bob negative_evidence =
       [Some (NegativeTimestamp 2), None, None]"
    by (simp add: eval_defs alice_bob_def negative_evidence_def)
  have s23: "submission_checks files unrestricted alice_bob @
       evidence_checks files unrestricted alice_bob negative_evidence =
       [None, None, Some (NegativeTimestamp 2), None, None]"
    unfolding s2 s3 by simp
  from C1_validate_order [of files "''alice_bob.sub''" unrestricted "Some ''negative.ev''"] l2 l3
  have "call files unrestricted ''alice_bob.sub'' (Some ''negative.ev'') =
      outcome (submission_checks files unrestricted alice_bob @
               evidence_checks files unrestricted alice_bob negative_evidence)"
    by simp
  then have c2: "call files unrestricted ''alice_bob.sub'' (Some ''negative.ev'') = Inl (NegativeTimestamp 2)"
    unfolding s23 by (simp add: outcome_def)
  from C1_validate_order [of files "''alice_bob.sub''" unrestricted None] l2
  have "call files unrestricted ''alice_bob.sub'' None = outcome (submission_checks files unrestricted alice_bob)"
    by simp
  then have c3: "call files unrestricted ''alice_bob.sub'' None = Inr True"
    unfolding s2 by (simp add: outcome_def)
  have l4: "load_evidence files ''missing.ev'' = Inl (ParserError ''missing.ev'')"
    by (simp add: load_evidence_def files_def)
  from C1_validate_order [of files "''alice_bob.sub''" unrestricted "Some ''missing.ev''"] l2 l4
  have "call files unrestricted ''alice_bob.sub'' (Some ''missing.ev'') =
      outcome (submission_checks files unrestricted alice_bob @ [Some (ParserError ''missing.ev'')])"
    by simp
  then have c4: "call files unrestricted ''alice_bob.sub'' (Some ''missing.ev'') = Inl (ParserError ''missing.ev'')"
    unfolding s2 by (simp add: outcome_def)
  have l5: "load_submission files ''missing.sub'' = Inl (ParserError ''missing.sub'')"
    by (simp add: load_submission_def files_def)
  with C1_validate_order [of files "''missing.sub''" unrestricted "Some ''negative.ev''"]
  have c5: "call files unrestricted ''missing.sub'' (Some ''negative.ev'') = Inl (ParserError ''missing.sub'')"
    by simp
  show ?thesis by (intro conjI; fact)
qed

text \<open>
  C8, as stated, fails in its last part: with a video list and evidence, validate also
  fails for reasons other than an unknown video. Here every video of the evidence is in
  the video list, and validate fails on a negative timestamp.
\<close>

theorem C8_counterexample:
  "init files None (Some ''videos.lst'') = Inr with_videos
   \<and> videos_set with_videos = Some [(''C1'', ''V1'')]
   \<and> load_evidence files ''negative.ev'' = Inr negative_evidence
   \<and> set (map (\<lambda>r. (e_corpus_id r, e_video_id r)) negative_evidence) \<subseteq> set [(''C1'', ''V1'')]
   \<and> call files with_videos ''alice_bob.sub'' (Some ''negative.ev'') = Inl (NegativeTimestamp 2)"
proof -
  have "call files with_videos ''alice_bob.sub'' (Some ''negative.ev'') = Inl (NegativeTimestamp 2)"
    unfolding call_eq_steps
    by (simp add: eval_defs with_videos_def alice_bob_def negative_evidence_def outcome_def)
  moreover have "load_evidence files ''negative.ev'' = Inr negative_evidence"
    by (simp add: load_evidence_def files_def)
  moreover have "set (map (\<lambda>r. (e_corpus_id r, e_video_id r)) negative_evidence)
      \<subseteq> set [(''C1'', ''V1'')]"
    by (simp add: negative_evidence_def)
  moreover have "videos_set with_videos = Some [(''C1'', ''V1'')]"
    by (simp add: with_videos_def)
  ultimately show ?thesis using init_with_videos by blast
qed

text \<open>
  C8, amended. Without a shot list the shot check is not run: the result of validate does
  not depend on the attribute \<open>shots_\<close>, nor on the corpus, video and shot columns of the
  submission. Without a video list the video check is not run: the result does not depend
  on the attribute \<open>videos_\<close>, nor on the corpus and video columns of the evidence. For an
  instance constructed with a video list, the video check fails exactly when some
  (corpus, video) pair of the evidence is not a row of the list, and its error carries one
  such pair; validate then fails too, with that error when the submission checks have
  passed. When evidence is supplied and no other check fails (the submission checks, the
  timestamps, the cross-check of the person names and the modalities pass), validate fails
  if and only if some pair of the evidence is not a row of the list, its error carries one
  such pair, and it returns True when every pair is a row of the list.
\<close>

theorem C8_optional_restrictions:
  assumes "layout_ok (video_layout E)"
  shows "(\<not> truthy (shots self) \<longrightarrow>
          (\<forall>x. call E (self\<lparr>shots_set := x\<rparr>) fp_submission fp_evidence =
                        call E self fp_submission fp_evidence)
                 \<and> (\<forall>fp' submission submission'.
                      load_submission E fp_submission = Inr submission \<and>
                      load_submission E fp' = Inr submission' \<and>
                      map s_person_name submission = map s_person_name submission' \<and>
                      map confidence submission = map confidence submission' \<longrightarrow>
                      call E self fp' fp_evidence = call E self fp_submission fp_evidence))
       \<and> (\<not> truthy (videos self) \<longrightarrow>
          (\<forall>x. call E (self\<lparr>videos_set := x\<rparr>) fp_submission fp_evidence =
                        call E self fp_submission fp_evidence)
                 \<and> (\<forall>fp fp' evidence evidence'.
                      fp \<noteq> [] \<and> fp' \<noteq> [] \<and>
                      load_evidence E fp = Inr evidence \<and> load_evidence E fp' = Inr evidence' \<and>
                      map e_person_name evidence = map e_person_name evidence' \<and>
                      map modality evidence = map modality evidence' \<and>
                      map timestamp evidence = map timestamp evidence' \<longrightarrow>
                      call E self fp_submission (Some fp') = call E self fp_submission (Some fp)))
       \<and> (\<forall>shots_path path. init E shots_path (Some path) = Inr self \<and> path \<noteq> [] \<longrightarrow>
          (\<exists>rows. read_videos E path = Inr rows \<and> truthy (videos self) \<and>
               (\<forall>evidence.
                  ((\<exists>e. evidence_videos E self evidence = Inl e) \<longleftrightarrow>
                     (\<exists>r\<in>set evidence. (e_corpus_id r, e_video_id r) \<notin> set rows))
                \<and> (\<forall>e. evidence_videos E self evidence = Inl e \<longrightarrow>
                     (\<exists>r\<in>set evidence. e = InvalidVideo (e_corpus_id r) (e_video_id r) \<and>
                        (e_corpus_id r, e_video_id r) \<notin> set rows))
                \<and> (\<forall>submission fp.
                     load_submission E fp_submission = Inr submission \<and> fp \<noteq> [] \<and>
                     load_evidence E fp = Inr evidence \<and>
                     (\<exists>r\<in>set evidence. (e_corpus_id r, e_video_id r) \<notin> set rows) \<longrightarrow>
                       (\<exists>e. call E self fp_submission (Some fp) = Inl e) \<and>
                       (outcome (submission_checks E self submission) = Inr True \<longrightarrow>
                          (\<exists>r\<in>set evidence.
                             call E self fp_submission (Some fp) =
                               Inl (InvalidVideo (e_corpus_id r) (e_video_id r)) \<and>
                             (e_corpus_id r, e_video_id r) \<notin> set rows)))) \<and>
               (\<forall>evidence submission fp.
                     load_submission E fp_submission = Inr submission \<and> fp \<noteq> [] \<and>
                     load_evidence E fp = Inr evidence \<and>
                     outcome (submission_checks E self submission) = Inr True \<and>
                     evidence_timestamps evidence = Inr True \<and>
                     evidence_person_names E submission evidence = Inr True \<and>
                     evidence_modalities E evidence = Inr () \<longrightarrow>
                       ((\<exists>e. call E self fp_submission (Some fp) = Inl e) \<longleftrightarrow>
                          (\<exists>r\<in>set evidence. (e_corpus_id r, e_video_id r) \<notin> set rows)) \<and>
                       (\<forall>e. call E self fp_submission (Some fp) = Inl e \<longrightarrow>
                          (\<exists>r\<in>set evidence. e = InvalidVideo (e_corpus_id r) (e_video_id r) \<and>
                             (e_corpus_id r, e_video_id r) \<notin> set rows)) \<and>
                       ((\<forall>r\<in>set evidence. (e_corpus_id r, e_video_id r) \<in> set rows) \<longrightarrow>
                          call E self fp_submission (Some fp) = Inr True))))"
proof -
  have a: "\<not> truthy (shots self) \<longrightarrow>
    ((\<forall>x. call E (self\<lparr>shots_set := x\<rparr>) fp_submission fp_evidence =
              call E self fp_submission fp_evidence)
       \<and> (\<forall>fp' submission submission'.
            load_submission E fp_submission = Inr submission \<and>
            load_submission E fp' = Inr submission' \<and>
            map s_person_name submission = map s_person_name submission' \<and>
            map confidence submission = map confidence submission' \<longrightarrow>
            call E self fp' fp_evidence = call E self fp_submission fp_evidence))"
    by (rule impI) (rule no_shot_list)
  have b: "\<not> truthy (videos self) \<longrightarrow>
    ((\<forall>x. call E (self\<lparr>videos_set := x\<rparr>) fp_submission fp_evidence =
              call E self fp_submission fp_evidence)
       \<and> (\<forall>fp fp' evidence evidence'.
            fp \<noteq> [] \<and> fp' \<noteq> [] \<and>
            load_evidence E fp = Inr evidence \<and> load_evidence E fp' = Inr evidence' \<and>
            map e_person_name evidence = map e_person_name evidence' \<and>
            map modality evidence = map modality evidence' \<and>
            map timestamp evidence = map timestamp evidence' \<longrightarrow>
            call E self fp_submission (Some fp') = call E self fp_submission (Some fp)))"
    by (rule impI) (rule no_video_list)
  have c: "\<forall>shots_path path. init E shots_path (Some path) = Inr self \<and> path \<noteq> [] \<longrightarrow>
    (\<exists>rows. read_videos E path = Inr rows \<and> truthy (videos self) \<and>
     (\<forall>evidence.
        ((\<exists>e. evidence_videos E self evidence = Inl e) \<longleftrightarrow>
           (\<exists>r\<in>set evidence. (e_corpus_id r, e_video_id r) \<notin> set rows))
      \<and> (\<forall>e. evidence_videos E self evidence = Inl e \<longrightarrow>
           (\<exists>r\<in>set evidence. e = InvalidVideo (e_corpus_id r) (e_video_id r) \<and>
              (e_corpus_id r, e_video_id r) \<notin> set rows))
      \<and> (\<forall>submission fp.
           load_submission E fp_submission = Inr submission \<and> fp \<noteq> [] \<and>
           load_evidence E fp = Inr evidence \<and>
           (\<exists>r\<in>set evidence. (e_corpus_id r, e_video_id r) \<notin> set rows) \<longrightarrow>
             (\<exists>e. call E self fp_submission (Some fp) = Inl e) \<and>
             (outcome (submission_checks E self submission) = Inr True \<longrightarrow>
                (\<exists>r\<in>set evidence.
                   call E self fp_submission (Some fp) =
                     Inl (InvalidVideo (e_corpus_id r) (e_video_id r)) \<and>
                   (e_corpus_id r, e_video_id r) \<notin> set rows)))) \<and>
     (\<forall>evidence submission fp.
           load_submission E fp_submission = Inr submission \<and> fp \<noteq> [] \<and>
           load_evidence E fp = Inr evidence \<and>
           outcome (submission_checks E self submission) = Inr True \<and>
           evidence_timestamps evidence = Inr True \<and>
           evidence_person_names E submission evidence = Inr True \<and>
           evidence_modalities E evidence = Inr () \<longrightarrow>
             ((\<exists>e. call E self fp_submission (Some fp) = Inl e) \<longleftrightarrow>
                (\<exists>r\<in>set evidence. (e_corpus_id r, e_video_id r) \<notin> set rows)) \<and>
             (\<forall>e. call E self fp_submission (Some fp) = Inl e \<longrightarrow>
                (\<exists>r\<in>set evidence. e = InvalidVideo (e_corpus_id r) (e_video_id r) \<and>
                   (e_corpus_id r, e_video_id r) \<notin> set rows)) \<and>
             ((\<forall>r\<in>set evidence. (e_corpus_id r, e_video_id r) \<in> set rows) \<longrightarrow>
                call E self fp_submission (Some fp) = Inr True)))"
  proof (rule allI, rule allI, rule impI)
    fix shots_path path
    assume "init E shots_path (Some path) = Inr self \<and> path \<noteq> []"
    then have i: "init E shots_path (Some path) = Inr self" and p: "path \<noteq> []" by simp_all
    from video_list [OF assms i p, of fp_submission]
    obtain rows where rows: "read_videos E path = Inr rows" and gate: "truthy (videos self)"
      and checks: "(\<forall>evidence.
        ((\<exists>e. evidence_videos E self evidence = Inl e) \<longleftrightarrow>
           (\<exists>r\<in>set evidence. (e_corpus_id r, e_video_id r) \<notin> set rows))
      \<and> (\<forall>e. evidence_videos E self evidence = Inl e \<longrightarrow>
           (\<exists>r\<in>set evidence. e = InvalidVideo (e_corpus_id r) (e_video_id r) \<and>
              (e_corpus_id r, e_video_id r) \<notin> set rows))
      \<and> (\<forall>submission fp.
           load_submission E fp_submission = Inr submission \<and> fp \<noteq> [] \<and>
           load_evidence E fp = Inr evidence \<and>
           (\<exists>r\<in>set evidence. (e_corpus_id r, e_video_id r) \<notin> set rows) \<longrightarrow>
             (\<exists>e. call E self fp_submission (Some fp) = Inl e) \<and>
             (outcome (submission_checks E self submission) = Inr True \<longrightarrow>
                (\<exists>r\<in>set evidence.
                   call E self fp_submission (Some fp) =
                     Inl (InvalidVideo (e_corpus_id r) (e_video_id r)) \<and>
                   (e_corpus_id r, e_video_id r) \<notin> set rows))))"
      by (elim exE conjE) (rule that, assumption+)
    note alone = video_list_alone [OF assms i p rows, of fp_submission]
    have body: "read_videos E path = Inr rows \<and> truthy (videos self) \<and>
     (\<forall>evidence.
        ((\<exists>e. evidence_videos E self evidence = Inl e) \<longleftrightarrow>
           (\<exists>r\<in>set evidence. (e_corpus_id r, e_video_id r) \<notin> set rows))
      \<and> (\<forall>e. evidence_videos E self evidence = Inl e \<longrightarrow>
           (\<exists>r\<in>set evidence. e = InvalidVideo (e_corpus_id r) (e_video_id r) \<and>
              (e_corpus_id r, e_video_id r) \<notin> set rows))
      \<and> (\<forall>submission fp.
           load_submission E fp_submission = Inr submission \<and> fp \<noteq> [] \<and>
           load_evidence E fp = Inr evidence \<and>
           (\<exists>r\<in>set evidence. (e_corpus_id r, e_video_id r) \<notin> set rows) \<longrightarrow>
             (\<exists>e. call E self fp_submission (Some fp) = Inl e) \<and>
             (outcome (submission_checks E self submission) = Inr True \<longrightarrow>
                (\<exists>r\<in>set evidence.
                   call E self fp_submission (Some fp) =
                     Inl (InvalidVideo (e_corpus_id r) (e_video_id r)) \<and>
                   (e_corpus_id r, e_video_id r) \<notin> set rows)))) \<and>
     (\<forall>evidence submission fp.
           load_submission E fp_submission = Inr submission \<and> fp \<noteq> [] \<and>
           load_evidence E fp = Inr evidence \<and>
           outcome (submission_checks E self submission) = Inr True \<and>
           evidence_timestamps evidence = Inr True \<and>
           evidence_person_names E submission evidence = Inr True \<and>
           evidence_modalities E evidence = Inr () \<longrightarrow>
             ((\<exists>e. call E self fp_submission (Some fp) = Inl e) \<longleftrightarrow>
                (\<exists>r\<in>set evidence. (e_corpus_id r, e_video_id r) \<notin> set rows)) \<and>
             (\<forall>e. call E self fp_submission (Some fp) = Inl e \<longrightarrow>
                (\<exists>r\<in>set evidence. e = InvalidVideo (e_corpus_id r) (e_video_id r) \<and>
                   (e_corpus_id r, e_video_id r) \<notin> set rows)) \<and>
             ((\<forall>r\<in>set evidence. (e_corpus_id r, e_video_id r) \<in> set rows) \<longrightarrow>
                call E self fp_submission (Some fp) = Inr True))"
      by (rule conjI, fact rows, rule conjI, fact gate, rule conjI, fact checks, fact alone)
    show "\<exists>rows. read_videos E path = Inr rows \<and> truthy (videos self) \<and>
     (\<forall>evidence.
        ((\<exists>e. evidence_videos E self evidence = Inl e) \<longleftrightarrow>
           (\<exists>r\<in>set evidence. (e_corpus_id r, e_video_id r) \<notin> set rows))
      \<and> (\<forall>e. evidence_videos E self evidence = Inl e \<longrightarrow>
           (\<exists>r\<in>set evidence. e = InvalidVideo (e_corpus_id r) (e_video_id r) \<and>
              (e_corpus_id r, e_video_id r) \<notin> set rows))
      \<and> (\<forall>submission fp.
           load_submission E fp_submission = Inr submission \<and> fp \<noteq> [] \<and>
           load_evidence E fp = Inr evidence \<and>
           (\<exists>r\<in>set evidence. (e_corpus_id r, e_video_id r) \<notin> set rows) \<longrightarrow>
             (\<exists>e. call E self fp_submission (Some fp) = Inl e) \<and>
             (outcome (submission_checks E self submission) = Inr True \<longrightarrow>
                (\<exists>r\<in>set evidence.
                   call E self fp_submission (Some fp) =
                     Inl (InvalidVideo (e_corpus_id r) (e_video_id r)) \<and>
                   (e_corpus_id r, e_video_id r) \<notin> set rows)))) \<and>
     (\<forall>evidence submission fp.
           load_submission E fp_submission = Inr submission \<and> fp \<noteq> [] \<and>
           load_evidence E fp = Inr evidence \<and>
           outcome (submission_checks E self submission) = Inr True \<and>
           evidence_timestamps evidence = Inr True \<and>
           evidence_person_names E submission evidence = Inr True \<and>
           evidence_modalities E evidence = Inr () \<longrightarrow>
             ((\<exists>e. call E self fp_submission (Some fp) = Inl e) \<longleftrightarrow>
                (\<exists>r\<in>set evidence. (e_corpus_id r, e_video_id r) \<notin> set rows)) \<and>
             (\<forall>e. call E self fp_submission (Some fp) = Inl e \<longrightarrow>
                (\<exists>r\<in>set evidence. e = InvalidVideo (e_corpus_id r) (e_video_id r) \<and>
                   (e_corpus_id r, e_video_id r) \<notin> set rows)) \<and>
             ((\<forall>r\<in>set evidence. (e_corpus_id r, e_video_id r) \<in> set rows) \<longrightarrow>
                call E self fp_submission (Some fp) = Inr True))" by (rule exI, rule body)
  qed
  show ?thesis by (rule conjI, fact a, rule conjI, fact b, fact c)
qed

text \<open>
  Without lists, the submission with the unknown shot (C1, V1, S2) and the evidence from
  the unknown video (C9, V9) are accepted like those with the known ones. With the video
  list that has the one video (C1, V1), the evidence from (C9, V9) makes the video check
  and validate raise the error for that pair, and validate returns True on the evidence
  from (C1, V1), where no other check fails.
\<close>

theorem C8_optional_restrictions_witness:
  "layout_ok (video_layout files)
   \<and> \<not> truthy (shots unrestricted) \<and> \<not> truthy (videos unrestricted)
   \<and> call files unrestricted ''unknown_shot.sub'' None =
       call files unrestricted ''alice_bob.sub'' None
   \<and> call files unrestricted ''unknown_shot.sub'' None = Inr True
   \<and> call files unrestricted ''alice_bob.sub'' (Some ''other_video.ev'') =
       call files unrestricted ''alice_bob.sub'' (Some ''alice_bob.ev'')
   \<and> call files unrestricted ''alice_bob.sub'' (Some ''other_video.ev'') = Inr True
   \<and> init files None (Some ''videos.lst'') = Inr with_videos
   \<and> evidence_videos files with_videos other_video = Inl (InvalidVideo ''C9'' ''V9'')
   \<and> call files with_videos ''alice_bob.sub'' (Some ''other_video.ev'') =
       Inl (InvalidVideo ''C9'' ''V9'')
   \<and> outcome (submission_checks files with_videos alice_bob) = Inr True
   \<and> evidence_timestamps alice_bob_evidence = Inr True
   \<and> evidence_person_names files alice_bob alice_bob_evidence = Inr True
   \<and> evidence_modalities files alice_bob_evidence = Inr ()
   \<and> set (map (\<lambda>r. (e_corpus_id r, e_video_id r)) alice_bob_evidence) \<subseteq> set [(''C1'', ''V1'')]
   \<and> call files with_videos ''alice_bob.sub'' (Some ''alice_bob.ev'') = Inr True"
proof -
  note ok = layout_ok_files(3)
  have ns: "\<not> truthy (shots unrestricted)" and nv: "\<not> truthy (videos unrestricted)"
    by (simp_all add: unrestricted_def)
  have ls: "load_submission files ''alice_bob.sub'' = Inr alice_bob"
    "load_submission files ''unknown_shot.sub'' = Inr unknown_shot"
    by (simp_all add: load_submission_def files_def)
  have le: "load_evidence files ''alice_bob.ev'' = Inr alice_bob_evidence"
    "load_evidence files ''other_video.ev'' = Inr other_video"
    by (simp_all add: load_evidence_def files_def)
  have cols: "map s_person_name alice_bob = map s_person_name unknown_shot"
    "map confidence alice_bob = map confidence unknown_shot"
    by (simp_all add: alice_bob_def unknown_shot_def)
  have ecols: "map e_person_name alice_bob_evidence = map e_person_name other_video"
    "map modality alice_bob_evidence = map modality other_video"
    "map timestamp alice_bob_evidence = map timestamp other_video"
    by (simp_all add: alice_bob_evidence_def other_video_def)
  have base: "call files unrestricted ''alice_bob.sub'' None = Inr True"
    "call files unrestricted ''alice_bob.sub'' (Some ''alice_bob.ev'') = Inr True"
    unfolding call_eq_steps
    by (simp_all add: eval_defs alice_bob_def alice_bob_evidence_def outcome_def)
  note T1 = C8_optional_restrictions [OF ok, of unrestricted "''alice_bob.sub''" None]
  from ls cols have "load_submission files ''alice_bob.sub'' = Inr alice_bob \<and>
      load_submission files ''unknown_shot.sub'' = Inr unknown_shot \<and>
      map s_person_name alice_bob = map s_person_name unknown_shot \<and>
      map confidence alice_bob = map confidence unknown_shot"
    by simp
  from T1 [THEN conjunct1, rule_format, OF ns, THEN conjunct2, rule_format, OF this]
  have c1: "call files unrestricted ''unknown_shot.sub'' None =
       call files unrestricted ''alice_bob.sub'' None" .
  with base(1) have c2: "call files unrestricted ''unknown_shot.sub'' None = Inr True" by simp
  from le ecols have "''alice_bob.ev'' \<noteq> [] \<and> ''other_video.ev'' \<noteq> [] \<and>
      load_evidence files ''alice_bob.ev'' = Inr alice_bob_evidence \<and>
      load_evidence files ''other_video.ev'' = Inr other_video \<and>
      map e_person_name alice_bob_evidence = map e_person_name other_video \<and>
      map modality alice_bob_evidence = map modality other_video \<and>
      map timestamp alice_bob_evidence = map timestamp other_video"
    by simp
  from T1 [THEN conjunct2, THEN conjunct1, rule_format, OF nv, THEN conjunct2, rule_format,
      OF this]
  have c3: "call files unrestricted ''alice_bob.sub'' (Some ''other_video.ev'') =
       call files unrestricted ''alice_bob.sub'' (Some ''alice_bob.ev'')" .
  with base(2) have c4: "call files unrestricted ''alice_bob.sub'' (Some ''other_video.ev'') = Inr True"
    by simp
  note init = init_with_videos
  have "init files None (Some ''videos.lst'') = Inr with_videos \<and> ''videos.lst'' \<noteq> []"
    using init by simp
  from C8_optional_restrictions [OF ok, of with_videos "''alice_bob.sub''" None,
      THEN conjunct2, THEN conjunct2, rule_format, OF this]
  obtain rows where rows: "read_videos files ''videos.lst'' = Inr rows"
    and rest: "(\<forall>evidence.
        ((\<exists>e. evidence_videos files with_videos evidence = Inl e) \<longleftrightarrow>
           (\<exists>r\<in>set evidence. (e_corpus_id r, e_video_id r) \<notin> set rows))
      \<and> (\<forall>e. evidence_videos files with_videos evidence = Inl e \<longrightarrow>
           (\<exists>r\<in>set evidence. e = InvalidVideo (e_corpus_id r) (e_video_id r) \<and>
              (e_corpus_id r, e_video_id r) \<notin> set rows))
      \<and> (\<forall>submission fp.
           load_submission files ''alice_bob.sub'' = Inr submission \<and> fp \<noteq> [] \<and>
           load_evidence files fp = Inr evidence \<and>
           (\<exists>r\<in>set evidence. (e_corpus_id r, e_video_id r) \<notin> set rows) \<longrightarrow>
             (\<exists>e. call files with_videos ''alice_bob.sub'' (Some fp) = Inl e) \<and>
             (outcome (submission_checks files with_videos submission) = Inr True \<longrightarrow>
                (\<exists>r\<in>set evidence.
                   call files with_videos ''alice_bob.sub'' (Some fp) =
                     Inl (InvalidVideo (e_corpus_id r) (e_video_id r)) \<and>
                   (e_corpus_id r, e_video_id r) \<notin> set rows))))"
    and alone: "\<forall>evidence submission fp.
           load_submission files ''alice_bob.sub'' = Inr submission \<and> fp \<noteq> [] \<and>
           load_evidence files fp = Inr evidence \<and>
           outcome (submission_checks files with_videos submission) = Inr True \<and>
           evidence_timestamps evidence = Inr True \<and>
           evidence_person_names files submission evidence = Inr True \<and>
           evidence_modalities files evidence = Inr () \<longrightarrow>
             ((\<exists>e. call files with_videos ''alice_bob.sub'' (Some fp) = Inl e) \<longleftrightarrow>
                (\<exists>r\<in>set evidence. (e_corpus_id r, e_video_id r) \<notin> set rows)) \<and>
             (\<forall>e. call files with_videos ''alice_bob.sub'' (Some fp) = Inl e \<longrightarrow>
                (\<exists>r\<in>set evidence. e = InvalidVideo (e_corpus_id r) (e_video_id r) \<and>
                   (e_corpus_id r, e_video_id r) \<notin> set rows)) \<and>
             ((\<forall>r\<in>set evidence. (e_corpus_id r, e_video_id r) \<in> set rows) \<longrightarrow>
                call files with_videos ''alice_bob.sub'' (Some fp) = Inr True)"
    by (elim exE conjE) (rule that, assumption+)
  note spec_rest = rest [THEN spec, of other_video]
  note iff = spec_rest [THEN conjunct1]
  note fail = spec_rest [THEN conjunct2, THEN conjunct1]
  note val = spec_rest [THEN conjunct2, THEN conjunct2]
  from rows have r: "rows = [(''C1'', ''V1'')]" by (simp add: files_def)
  have absent: "\<exists>r\<in>set other_video. (e_corpus_id r, e_video_id r) \<notin> set rows"
    unfolding r by (simp add: other_video_def)
  with iff obtain e where e: "evidence_videos files with_videos other_video = Inl e" by blast
  with fail obtain x where "x \<in> set other_video"
    "e = InvalidVideo (e_corpus_id x) (e_video_id x)" by blast
  then have "e = InvalidVideo ''C9'' ''V9''" by (auto simp: other_video_def)
  with e have c5: "evidence_videos files with_videos other_video = Inl (InvalidVideo ''C9'' ''V9'')"
    by simp
  have pass: "outcome (submission_checks files with_videos alice_bob) = Inr True"
    by (simp add: eval_defs with_videos_def alice_bob_def outcome_def)
  from ls(1) le(2) absent
  have "load_submission files ''alice_bob.sub'' = Inr alice_bob \<and> ''other_video.ev'' \<noteq> [] \<and>
           load_evidence files ''other_video.ev'' = Inr other_video \<and>
           (\<exists>r\<in>set other_video. (e_corpus_id r, e_video_id r) \<notin> set rows)"
    by simp
  from val [rule_format, OF this, THEN conjunct2, rule_format, OF pass]
  obtain y where "y \<in> set other_video"
    "call files with_videos ''alice_bob.sub'' (Some ''other_video.ev'') =
       Inl (InvalidVideo (e_corpus_id y) (e_video_id y))"
    by blast
  then have c6: "call files with_videos ''alice_bob.sub'' (Some ''other_video.ev'') =
       Inl (InvalidVideo ''C9'' ''V9'')"
    by (auto simp: other_video_def)
  have o1: "outcome (submission_checks files with_videos alice_bob) = Inr True"
    by (rule pass)
  have o2: "evidence_timestamps alice_bob_evidence = Inr True"
    and o3: "evidence_person_names files alice_bob alice_bob_evidence = Inr True"
    and o4: "evidence_modalities files alice_bob_evidence = Inr ()"
    by (simp_all add: eval_defs alice_bob_def alice_bob_evidence_def)
  have o5: "set (map (\<lambda>r. (e_corpus_id r, e_video_id r)) alice_bob_evidence)
      \<subseteq> set [(''C1'', ''V1'')]"
    by (simp add: alice_bob_evidence_def)
  then have known: "\<forall>r\<in>set alice_bob_evidence. (e_corpus_id r, e_video_id r) \<in> set rows"
    unfolding r by auto
  from ls(1) le(1) o1 o2 o3 o4
  have side: "load_submission files ''alice_bob.sub'' = Inr alice_bob \<and> ''alice_bob.ev'' \<noteq> [] \<and>
      load_evidence files ''alice_bob.ev'' = Inr alice_bob_evidence \<and>
      outcome (submission_checks files with_videos alice_bob) = Inr True \<and>
      evidence_timestamps alice_bob_evidence = Inr True \<and>
      evidence_person_names files alice_bob alice_bob_evidence = Inr True \<and>
      evidence_modalities files alice_bob_evidence = Inr ()"
    by simp
  from alone [rule_format, OF side, THEN conjunct2, THEN conjunct2, THEN mp, OF known]
  have c7: "call files with_videos ''alice_bob.sub'' (Some ''alice_bob.ev'') = Inr True" .
  show ?thesis by (intro conjI; fact)
qed

text \<open>
  Claim C9. For every instance that the constructor builds and every sequence of validate
  calls on it, whether they return or raise, the reference shot set and the reference video
  set are after the calls the objects they were after construction, with the same elements:
  the only operation of the class that changes a set is \<open>pop\<close>, and validate pops from
  the sets it has just built, never from \<open>shots_\<close> or \<open>videos_\<close>. Every set object that
  existed before the calls is unchanged, the instance still is the one that construction
  built from the two lists, each call of the sequence has the result that the instance
  gives it at construction time, and a validation gives the same result after the calls as
  before them.
\<close>

theorem C9_reference_sets_unchanged:
  assumes "init_st E shots_arg videos_arg \<sigma>0 = (Inr self, \<sigma>)"
    and "calls_st E self cs \<sigma> = (rs, \<sigma>')"
  shows "map_option (deref (shot_sets \<sigma>')) (o_shots_ref self) =
           map_option (deref (shot_sets \<sigma>)) (o_shots_ref self) \<and>
         map_option (deref (video_sets \<sigma>')) (o_videos_ref self) =
           map_option (deref (video_sets \<sigma>)) (o_videos_ref self) \<and>
         store_extends \<sigma> \<sigma>' \<and>
         init E shots_arg videos_arg = Inr (as_value self \<sigma>') \<and>
         rs = map (\<lambda>(fp, fpe). call E (as_value self \<sigma>) fp fpe) cs \<and>
         (\<forall>fp fpe. fst (call_st E self fp fpe \<sigma>') = fst (call_st E self fp fpe \<sigma>))"
proof -
  note i = init_st [OF assms(1)]
  have a: "allocated self \<sigma>" by (rule i [THEN conjunct1])
  have iv: "init E shots_arg videos_arg = Inr (as_value self \<sigma>)"
    by (rule i [THEN conjunct2, THEN conjunct1])
  note c = calls_st [OF a, of E cs]
  have r: "rs = map (\<lambda>(fp, fpe). call E (as_value self \<sigma>) fp fpe) cs"
    using c [THEN conjunct1] assms(2) by simp
  have e: "store_extends \<sigma> \<sigma>'"
    using c [THEN conjunct2] assms(2) by simp
  have a': "allocated self \<sigma>'" by (rule allocated_extends [OF a e])
  have v: "as_value self \<sigma>' = as_value self \<sigma>" by (rule as_value_extends [OF a e])
  have s: "map_option (deref (shot_sets \<sigma>')) (o_shots_ref self) =
           map_option (deref (shot_sets \<sigma>)) (o_shots_ref self)"
    using arg_cong [OF v, of shots_set] by (simp only: as_value_fields)
  have vi: "map_option (deref (video_sets \<sigma>')) (o_videos_ref self) =
           map_option (deref (video_sets \<sigma>)) (o_videos_ref self)"
    using arg_cong [OF v, of videos_set] by (simp only: as_value_fields)
  have iv': "init E shots_arg videos_arg = Inr (as_value self \<sigma>')"
    by (simp only: v iv)
  have same: "fst (call_st E self fp fpe \<sigma>') = fst (call_st E self fp fpe \<sigma>)" for fp fpe
    by (simp only: call_st [OF a', THEN conjunct1] call_st [OF a, THEN conjunct1] v)
  have all: "\<forall>fp fpe. fst (call_st E self fp fpe \<sigma>') = fst (call_st E self fp fpe \<sigma>)"
    by (intro allI) (rule same)
  show ?thesis
    by (rule conjI, fact s, rule conjI, fact vi, rule conjI, fact e, rule conjI, fact iv',
        rule conjI, fact r, fact all)
qed

theorem C9_reference_sets_unchanged_witness:
  "init_st files (Some ''shots.lst'') (Some ''videos.lst'') empty_store =
     (Inr engine, engine_store) \<and>
   fst (calls_st files engine three_calls engine_store) =
     [Inl (InvalidShot ''C1'' ''V1'' ''S2''), Inl (InvalidVideo ''C9'' ''V9''), Inr True] \<and>
   deref (shot_sets (snd (calls_st files engine three_calls engine_store))) 0 =
     [(''C1'', ''V1'', ''S1'')] \<and>
   deref (video_sets (snd (calls_st files engine three_calls engine_store))) 0 =
     [(''C1'', ''V1'')] \<and>
   store_extends engine_store (snd (calls_st files engine three_calls engine_store)) \<and>
   fst (call_st files engine ''unknown_shot.sub'' None
          (snd (calls_st files engine three_calls engine_store))) =
     Inl (InvalidShot ''C1'' ''V1'' ''S2'')"
proof -
  have i: "init_st files (Some ''shots.lst'') (Some ''videos.lst'') empty_store =
      (Inr engine, engine_store)"
    by (rule init_st_engine)
  have c: "calls_st files engine three_calls engine_store =
      (fst (calls_st files engine three_calls engine_store),
       snd (calls_st files engine three_calls engine_store))"
    by simp
  note t = C9_reference_sets_unchanged [OF i c]
  have s: "deref (shot_sets (snd (calls_st files engine three_calls engine_store))) 0 =
      [(''C1'', ''V1'', ''S1'')]"
    using t [THEN conjunct1] by (simp add: engine_def engine_store_def deref_def)
  have v: "deref (video_sets (snd (calls_st files engine three_calls engine_store))) 0 =
      [(''C1'', ''V1'')]"
    using t [THEN conjunct2, THEN conjunct1] by (simp add: engine_def engine_store_def deref_def)
  have e: "store_extends engine_store (snd (calls_st files engine three_calls engine_store))"
    by (rule t [THEN conjunct2, THEN conjunct2, THEN conjunct1])
  have one: "fst (call_st files engine ''unknown_shot.sub'' None engine_store) =
      Inl (InvalidShot ''C1'' ''V1'' ''S2'')"
    by code_simp
  have again: "fst (call_st files engine ''unknown_shot.sub'' None
          (snd (calls_st files engine three_calls engine_store))) =
      Inl (InvalidShot ''C1'' ''V1'' ''S2'')"
    using t [THEN conjunct2, THEN conjunct2, THEN conjunct2, THEN conjunct2, THEN conjunct2,
        rule_format, of "''unknown_shot.sub''" None]
    by (simp only: one)
  show ?thesis
    by (rule conjI, fact i, rule conjI, rule calls_st_three_calls, rule conjI, fact s,
        rule conjI, fact v, rule conjI, fact e, fact again)
qed

end
